(* ===== verification/Prelude.thy ===== *)
theory Prelude
  imports Main "HOL-Library.Word"
begin

text \<open>
  Shared vocabulary of the development: bytes, the three ways a Rust call can end, the slice
  operations of the Rust core library with their panics, text formatting of bytes, and the
  generic lemmas every component uses.

  A Rust function of type \<open>Result<T, E>\<close> is modelled by a value of \<open>('e, 'a) res\<close>: it returns
  \<open>Ok\<close>, returns \<open>Err\<close>, or unwinds with \<open>Panic\<close> (an \<open>expect\<close>, \<open>unwrap\<close>, slice index or
  assertion that fails).  A call into a third-party crate returns \<open>string + 'a\<close>, where \<open>Inl\<close>
  carries the text the crate's error displays.
\<close>

unbundle bit_operations_syntax

named_theorems res_simps
  \<open>case analysis of results: when a chained computation ends in Ok, Err or Panic\<close>

section \<open>Types\<close>

type_synonym byte = "8 word"
type_synonym bytes = "byte list"

text \<open>\<open>std::env::var(k).ok()\<close> as a function of the variable's name.\<close>
type_synonym env_vars = "string \<Rightarrow> string option"

datatype ('e, 'a) res = Ok 'a | Err 'e | Panic string

fun res_bind :: "('e, 'a) res \<Rightarrow> ('a \<Rightarrow> ('e, 'b) res) \<Rightarrow> ('e, 'b) res" where
  "res_bind (Ok a) f = f a"
| "res_bind (Err e) f = Err e"
| "res_bind (Panic p) f = Panic p"

fun map_err :: "('e \<Rightarrow> 'f) \<Rightarrow> ('e, 'a) res \<Rightarrow> ('f, 'a) res" where
  "map_err g (Ok a) = Ok a"
| "map_err g (Err e) = Err (g e)"
| "map_err g (Panic p) = Panic p"

text \<open>\<open>Option::expect\<close> and \<open>Result::expect\<close>: the message is the panic's.\<close>

definition expect :: "string \<Rightarrow> 'a option \<Rightarrow> ('e, 'a) res" where
  "expect msg x = (case x of None \<Rightarrow> Panic msg | Some a \<Rightarrow> Ok a)"

definition ok_or :: "'e \<Rightarrow> 'a option \<Rightarrow> ('e, 'a) res" where
  "ok_or e x = (case x of None \<Rightarrow> Err e | Some a \<Rightarrow> Ok a)"

definition of_ext :: "(string \<Rightarrow> 'e) \<Rightarrow> string + 'a \<Rightarrow> ('e, 'a) res" where
  "of_ext g x = (case x of Inl m \<Rightarrow> Err (g m) | Inr a \<Rightarrow> Ok a)"

fun is_panic :: "('e, 'a) res \<Rightarrow> bool" where
  "is_panic (Panic p) = True"
| "is_panic (Ok a) = False"
| "is_panic (Err e) = False"

section \<open>Slices, with the panics of the core library\<close>

definition split_at :: "nat \<Rightarrow> 'a list \<Rightarrow> ('e, 'a list \<times> 'a list) res" where
  "split_at mid xs =
     (if mid \<le> length xs then Ok (take mid xs, drop mid xs) else Panic ''mid > len'')"

definition slice_range :: "nat \<Rightarrow> nat \<Rightarrow> 'a list \<Rightarrow> ('e, 'a list) res" where
  "slice_range a b xs =
     (if a \<le> b \<and> b \<le> length xs then Ok (take (b - a) (drop a xs))
      else Panic ''slice index out of range'')"

text \<open>\<open>dst.copy_from_slice(src)\<close> for an array \<open>dst\<close> of \<open>n\<close> elements.\<close>

definition copy_from_slice :: "nat \<Rightarrow> 'a list \<Rightarrow> ('e, 'a list) res" where
  "copy_from_slice n src =
     (if length src = n then Ok src else Panic ''source slice length does not match'')"

text \<open>\<open>vec.try_into().expect(msg)\<close> into an array of \<open>n\<close> elements.\<close>

definition try_into_array :: "nat \<Rightarrow> string \<Rightarrow> 'a list \<Rightarrow> ('e, 'a list) res" where
  "try_into_array n msg xs = (if length xs = n then Ok xs else Panic msg)"

section \<open>Byte formatting\<close>

text \<open>\<open>format!("{:02x}", b)\<close>.\<close>

definition hex_digit :: "nat \<Rightarrow> char" where
  "hex_digit n = ''0123456789abcdef'' ! n"

definition hex_byte :: "byte \<Rightarrow> string" where
  "hex_byte b = [hex_digit (unat b div 16), hex_digit (unat b mod 16)]"

text \<open>Decimal digits of a natural number, as \<open>Display\<close> and \<open>Debug\<close> print an unsigned integer.\<close>

fun show_nat :: "nat \<Rightarrow> string" where
  "show_nat n =
     (if n < 10 then [''0123456789'' ! n] else show_nat (n div 10) @ [''0123456789'' ! (n mod 10)])"

declare show_nat.simps [simp del]

text \<open>Joining texts with a separator.\<close>

fun join :: "string \<Rightarrow> string list \<Rightarrow> string" where
  "join sep [] = []"
| "join sep [x] = x"
| "join sep (x # y # zs) = x @ sep @ join sep (y # zs)"

text \<open>\<open>{:?}\<close> of a \<open>Vec<u8>\<close>.\<close>

definition debug_bytes :: "bytes \<Rightarrow> string" where
  "debug_bytes bs = ''['' @ join '', '' (map (\<lambda>b. show_nat (unat b)) bs) @ '']''"

text \<open>\<open>f.debug_struct(name).field(..)...finish()\<close> under \<open>{:?}\<close>, the fields already printed.\<close>

definition debug_struct :: "string \<Rightarrow> (string \<times> string) list \<Rightarrow> string" where
  "debug_struct name fs =
     name @ '' { '' @ join '', '' (map (\<lambda>(k, v). k @ '': '' @ v) fs) @ '' }''"

text \<open>\<open>{:?}\<close> of a \<open>String\<close> without characters that need an escape.\<close>

definition debug_str :: "string \<Rightarrow> string" where
  "debug_str s = CHR 0x22 # s @ [CHR 0x22]"

section \<open>Key streams\<close>

text \<open>Exclusive-or of a buffer with a key stream, byte by byte.\<close>

definition xor_stream :: "(nat \<Rightarrow> byte) \<Rightarrow> bytes \<Rightarrow> bytes" where
  "xor_stream ks buf = map (\<lambda>(i, b). b XOR ks i) (enumerate 0 buf)"

section \<open>Lemmas on results\<close>

lemma res_bind_Ok_iff [res_simps]:
  "res_bind r f = Ok v \<longleftrightarrow> (\<exists>a. r = Ok a \<and> f a = Ok v)"
  by (cases r) auto

lemma res_bind_Err_iff [res_simps]:
  "res_bind r f = Err e \<longleftrightarrow> r = Err e \<or> (\<exists>a. r = Ok a \<and> f a = Err e)"
  by (cases r) auto

lemma res_bind_Panic_iff [res_simps]:
  "res_bind r f = Panic p \<longleftrightarrow> r = Panic p \<or> (\<exists>a. r = Ok a \<and> f a = Panic p)"
  by (cases r) auto

lemma map_err_iff [res_simps]:
  "map_err g r = Ok a \<longleftrightarrow> r = Ok a"
  "map_err g r = Err f \<longleftrightarrow> (\<exists>e. r = Err e \<and> f = g e)"
  "map_err g r = Panic p \<longleftrightarrow> r = Panic p"
  by (cases r; auto)+

lemma expect_iff [res_simps]:
  "expect m x = Ok a \<longleftrightarrow> x = Some a"
  "expect m x = Panic p \<longleftrightarrow> x = None \<and> p = m"
  "expect m x \<noteq> Err e"
  by (auto simp: expect_def split: option.splits)

lemma expect_Some [simp]: "expect m (Some a) = Ok a"
  by (simp add: expect_def)

lemma of_ext_iff [res_simps]:
  "of_ext g x = Ok a \<longleftrightarrow> x = Inr a"
  "of_ext g x = Err e \<longleftrightarrow> (\<exists>m. x = Inl m \<and> e = g m)"
  "of_ext g x \<noteq> Panic p"
  by (auto simp: of_ext_def split: sum.splits)

lemma of_ext_simps [simp]:
  "of_ext g (Inr a) = Ok a" "of_ext g (Inl m) = Err (g m)"
  by (simp_all add: of_ext_def)

lemma is_panic_bind:
  "is_panic (res_bind r f) \<longleftrightarrow> is_panic r \<or> (\<exists>a. r = Ok a \<and> is_panic (f a))"
  by (cases r) auto

lemma try_into_array_iff [res_simps]:
  "try_into_array n m xs = Ok ys \<longleftrightarrow> length xs = n \<and> ys = xs"
  "try_into_array n m xs = Panic p \<longleftrightarrow> length xs \<noteq> n \<and> p = m"
  "try_into_array n m xs \<noteq> Err e"
  by (auto simp: try_into_array_def)

section \<open>Lemmas on slices\<close>

lemma split_at_ok [simp]: "mid \<le> length xs \<Longrightarrow> split_at mid xs = Ok (take mid xs, drop mid xs)"
  by (simp add: split_at_def)

lemma slice_range_ok [simp]:
  "a \<le> b \<Longrightarrow> b \<le> length xs \<Longrightarrow> slice_range a b xs = Ok (take (b - a) (drop a xs))"
  by (simp add: slice_range_def)

lemma copy_from_slice_ok [simp]: "length src = n \<Longrightarrow> copy_from_slice n src = Ok src"
  by (simp add: copy_from_slice_def)

lemma take_add_split: "take (a + b) xs = take a xs @ take b (drop a xs)"
  by (rule take_add)

section \<open>Lemmas on formatting\<close>

lemma length_hex_byte [simp]: "length (hex_byte b) = 2"
  by (simp add: hex_byte_def)

lemma length_join_le:
  "x \<in> set xs \<Longrightarrow> length x \<le> length (join sep xs)"
  by (induction sep xs rule: join.induct) auto

text \<open>Every element of a joined text occurs in it, in order: the text around it is explicit.\<close>

lemma join_infix:
  assumes "x \<in> set xs"
  shows "\<exists>pre post. join sep xs = pre @ x @ post"
  using assms
proof (induction sep xs rule: join.induct)
  case (1 sep)
  then show ?case by simp
next
  case (2 sep x')
  then show ?case by (auto intro: exI [of _ "[]"])
next
  case (3 sep y z zs)
  show ?case
  proof (cases "x = y")
    case True
    have "join sep (y # z # zs) = [] @ x @ (sep @ join sep (z # zs))"
      using True by simp
    then show ?thesis by blast
  next
    case False
    with 3 obtain pre post where "join sep (z # zs) = pre @ x @ post"
      by auto
    then have "join sep (y # z # zs) = (y @ sep @ pre) @ x @ post"
      by simp
    then show ?thesis by blast
  qed
qed

section \<open>Lemmas on key streams\<close>

lemma length_xor_stream [simp]: "length (xor_stream ks buf) = length buf"
  by (simp add: xor_stream_def)

lemma nth_xor_stream: "i < length buf \<Longrightarrow> xor_stream ks buf ! i = buf ! i XOR ks i"
  by (simp add: xor_stream_def nth_enumerate_eq)

lemma xor_stream_compose:
  "xor_stream ks (xor_stream ks' buf) = xor_stream (\<lambda>i. ks' i XOR ks i) buf"
  by (rule nth_equalityI) (simp_all add: nth_xor_stream xor.assoc)

lemma xor_stream_zero: "xor_stream (\<lambda>i. 0) buf = buf"
  by (rule nth_equalityI) (simp_all add: nth_xor_stream)

lemma xor_stream_involution: "xor_stream ks (xor_stream ks buf) = buf"
  by (simp add: xor_stream_compose xor_stream_zero)

end
