(* ===== verification/Zkvm_Common.thy ===== *)
theory Zkvm_Common
  imports Prelude
begin

text \<open>
  The crate shared by the host and the zkVM guest (\<open>zkVM/common/src/lib.rs\<close>): the ChaCha20
  wrapper, the layout of the guest's public output and its parser \<open>ZkvmOutput::from_bytes\<close>.

  The hash and the cipher come from the crates \<open>sha2\<close> and \<open>chacha20\<close>, so they are parameters:
  the record \<open>crypto\<close>.  What the code relies on is named in \<open>sha256_ok\<close> (a digest has 32 bytes)
  and \<open>keystream_ok\<close> (\<open>apply_keystream\<close> exclusive-ors the buffer with a key stream that depends
  on key and nonce only, and fails exactly on the buffers that are longer than the stream).
\<close>

section \<open>Parameters: sha2 and chacha20\<close>

record crypto =
  sha256 :: "bytes \<Rightarrow> bytes"
  apply_keystream :: "bytes \<Rightarrow> bytes \<Rightarrow> bytes \<Rightarrow> bytes option" \<comment> \<open>None: the stream is exhausted\<close>

section \<open>Constants\<close>

definition KEY_LEN :: nat where "KEY_LEN = 32"
definition HASH_LEN :: nat where "HASH_LEN = 32"
definition NONCE_LEN :: nat where "NONCE_LEN = 12"
definition HEADER_LEN :: nat where "HEADER_LEN = HASH_LEN + NONCE_LEN + HASH_LEN"

lemmas len_defs = KEY_LEN_def HASH_LEN_def NONCE_LEN_def HEADER_LEN_def

section \<open>Laws of the parameters\<close>

definition sha256_ok :: "'z crypto_scheme \<Rightarrow> bool" where
  "sha256_ok c \<longleftrightarrow> (\<forall>d. length (sha256 c d) = HASH_LEN)"

definition keystream_ok ::
  "'z crypto_scheme \<Rightarrow> (bytes \<Rightarrow> bytes \<Rightarrow> nat \<Rightarrow> byte) \<Rightarrow> (nat \<Rightarrow> bool) \<Rightarrow> bool" where
  "keystream_ok c ks fits \<longleftrightarrow>
     (\<forall>key nonce buf. apply_keystream c key nonce buf =
        (if fits (length buf) then Some (xor_stream (ks key nonce) buf) else None))"

section \<open>Operations\<close>

text \<open>The cipher is applied in place; \<open>apply_keystream\<close> panics past the end of the stream.\<close>

definition chacha :: "'z crypto_scheme \<Rightarrow> bytes \<Rightarrow> bytes \<Rightarrow> bytes \<Rightarrow> ('e, bytes) res" where
  "chacha c key nonce buffer = expect ''StreamCipherError'' (apply_keystream c key nonce buffer)"

record zkvm_output =
  privkey_hash :: bytes
  zk_nonce :: bytes
  plaintext_hash :: bytes
  ciphertext :: bytes

definition from_bytes :: "bytes \<Rightarrow> (string, zkvm_output) res" where
  "from_bytes data =
     (if length data < HEADER_LEN then Err ''Input too short for header''
      else
        res_bind (split_at HEADER_LEN data) (\<lambda>(header, ct).
        res_bind (slice_range 0 HASH_LEN header) (\<lambda>s1.
        res_bind (copy_from_slice HASH_LEN s1) (\<lambda>kh.
        res_bind (slice_range HASH_LEN (HASH_LEN + NONCE_LEN) header) (\<lambda>s2.
        res_bind (copy_from_slice NONCE_LEN s2) (\<lambda>n.
        res_bind (slice_range (HASH_LEN + NONCE_LEN) HEADER_LEN header) (\<lambda>s3.
        res_bind (copy_from_slice HASH_LEN s3) (\<lambda>ph.
          Ok \<lparr>privkey_hash = kh, zk_nonce = n, plaintext_hash = ph, ciphertext = ct\<rparr>))))))))"

text \<open>\<open>bytes_to_hex\<close> (the same function stands in \<open>service/src/internal/job.rs\<close>).\<close>

definition bytes_to_hex :: "bytes \<Rightarrow> string" where
  "bytes_to_hex bs = concat (map hex_byte bs)"

text \<open>\<open>impl Debug for ZkvmOutput\<close> under \<open>{:?}\<close>.\<close>

definition zkvm_output_debug :: "'z crypto_scheme \<Rightarrow> zkvm_output \<Rightarrow> string" where
  "zkvm_output_debug c out =
     debug_struct ''ZkvmOutput''
       [(''privkey_hash'', debug_str (bytes_to_hex (privkey_hash out))),
        (''nonce'', debug_str (bytes_to_hex (zk_nonce out))),
        (''plaintext_hash'', debug_str (bytes_to_hex (plaintext_hash out))),
        (''ciphertext_sha256'', debug_str (bytes_to_hex (sha256 c (ciphertext out))))]"

text \<open>
  A nonce from the operating system's generator: \<open>rng n\<close> is what \<open>OsRng\<close> writes into a buffer
  of \<open>n\<close> bytes, \<open>None\<close> when it fails.
\<close>

definition random_nonce :: "(nat \<Rightarrow> bytes option) \<Rightarrow> ('e, bytes) res" where
  "random_nonce rng = expect ''Rng->buffer'' (rng NONCE_LEN)"

section \<open>Reference layout\<close>

text \<open>What the parser inverts: the header fields in order, then the ciphertext.\<close>

definition output_layout :: "zkvm_output \<Rightarrow> bytes" where
  "output_layout out = privkey_hash out @ zk_nonce out @ plaintext_hash out @ ciphertext out"

definition wf_output :: "zkvm_output \<Rightarrow> bool" where
  "wf_output out \<longleftrightarrow>
     length (privkey_hash out) = HASH_LEN \<and> length (zk_nonce out) = NONCE_LEN \<and>
     length (plaintext_hash out) = HASH_LEN"

text \<open>The inverse of \<open>bytes_to_hex\<close>, as a reference.\<close>

fun hex_val :: "char \<Rightarrow> nat option" where
  "hex_val ch =
     (let n = (of_char ch :: nat)
      in if 48 \<le> n \<and> n \<le> 57 then Some (n - 48)
         else if 97 \<le> n \<and> n \<le> 102 then Some (n - 87) else None)"

fun hex_decode :: "string \<Rightarrow> bytes option" where
  "hex_decode [] = Some []"
| "hex_decode (a # b # rest) =
     (case (hex_val a, hex_val b, hex_decode rest) of
        (Some x, Some y, Some bs) \<Rightarrow> Some (of_nat (16 * x + y) # bs)
      | _ \<Rightarrow> None)"
| "hex_decode [a] = None"

section \<open>An interface: encoders with a partial inverse\<close>

locale codec =
  fixes enc :: "'a \<Rightarrow> 'b"
    and dec :: "'b \<Rightarrow> 'a option"
    and valid :: "'a \<Rightarrow> bool"
  assumes dec_enc: "valid x \<Longrightarrow> dec (enc x) = Some x"
begin

lemma enc_inj: "valid x \<Longrightarrow> valid y \<Longrightarrow> enc x = enc y \<Longrightarrow> x = y"
  by (metis dec_enc option.inject)

lemma enc_eq_iff: "valid x \<Longrightarrow> valid y \<Longrightarrow> enc x = enc y \<longleftrightarrow> x = y"
  using enc_inj by blast

end

section \<open>The parser\<close>

lemma header_arith:
  "HASH_LEN \<le> HEADER_LEN" "HASH_LEN + NONCE_LEN \<le> HEADER_LEN"
  "HEADER_LEN - (HASH_LEN + NONCE_LEN) = HASH_LEN"
  by (simp_all add: len_defs)

text \<open>On input of sufficient length every slice and copy is in range.\<close>

lemma from_bytes_long:
  assumes "HEADER_LEN \<le> length data"
  shows "from_bytes data =
    Ok \<lparr>privkey_hash = take HASH_LEN data,
        zk_nonce = take NONCE_LEN (drop HASH_LEN data),
        plaintext_hash = take HASH_LEN (drop (HASH_LEN + NONCE_LEN) data),
        ciphertext = drop HEADER_LEN data\<rparr>"
  using assms by (simp add: from_bytes_def len_defs take_drop)

lemma from_bytes_short:
  "length data < HEADER_LEN \<Longrightarrow> from_bytes data = Err ''Input too short for header''"
  by (simp add: from_bytes_def)

lemma from_bytes_Ok_D:
  assumes "from_bytes data = Ok out"
  shows "wf_output out" and "output_layout out = data"
proof -
  have long: "HEADER_LEN \<le> length data"
    using assms from_bytes_short [of data] by (cases "length data < HEADER_LEN") auto
  then have out: "out = \<lparr>privkey_hash = take HASH_LEN data,
        zk_nonce = take NONCE_LEN (drop HASH_LEN data),
        plaintext_hash = take HASH_LEN (drop (HASH_LEN + NONCE_LEN) data),
        ciphertext = drop HEADER_LEN data\<rparr>"
    using assms from_bytes_long by simp
  show "wf_output out"
    using long by (simp add: out wf_output_def len_defs)
  have "data = take HASH_LEN data @ drop HASH_LEN data"
    by simp
  also have "drop HASH_LEN data =
      take NONCE_LEN (drop HASH_LEN data) @ drop (HASH_LEN + NONCE_LEN) data"
    by (metis append_take_drop_id drop_drop add.commute)
  also have "drop (HASH_LEN + NONCE_LEN) data =
      take HASH_LEN (drop (HASH_LEN + NONCE_LEN) data) @ drop HEADER_LEN data"
    by (metis append_take_drop_id drop_drop add.commute HEADER_LEN_def)
  finally show "output_layout out = data"
    by (simp add: out output_layout_def)
qed

lemma from_bytes_layout:
  assumes "wf_output out"
  shows "from_bytes (output_layout out) = Ok out"
proof -
  have "HEADER_LEN \<le> length (output_layout out)"
    using assms by (simp add: wf_output_def output_layout_def len_defs)
  then show ?thesis
    using assms from_bytes_long
    by (simp add: wf_output_def output_layout_def len_defs)
qed

text \<open>The layout and its parser are a codec on well-formed outputs.\<close>

interpretation layout: codec output_layout
  "\<lambda>data. case from_bytes data of Ok out \<Rightarrow> Some out | _ \<Rightarrow> None" wf_output
  by unfold_locales (simp add: from_bytes_layout)

section \<open>Hexadecimal text\<close>

lemma hex_digit_val:
  assumes "n < 16"
  shows "hex_val (hex_digit n) = Some n"
proof -
  have "list_all (\<lambda>n. hex_val (hex_digit n) = Some n) [0..<16]"
    by code_simp
  with assms show ?thesis by (simp add: list_all_iff del: hex_val.simps upt_Suc)
qed

lemma hex_decode_hex_byte:
  assumes "hex_decode s = Some bs"
  shows "hex_decode (hex_byte b @ s) = Some (b # bs)"
proof -
  have "unat b div 16 < 16"
    using unsigned_less [where 'a = nat, of b] by (simp add: less_mult_imp_div_less)
  moreover have "16 * (unat b div 16) + unat b mod 16 = unat b"
    by simp
  ultimately show ?thesis
    using assms by (simp add: hex_byte_def hex_digit_val del: hex_val.simps)
qed

lemma hex_decode_bytes_to_hex: "hex_decode (bytes_to_hex bs) = Some bs"
  by (induction bs) (simp_all add: bytes_to_hex_def hex_decode_hex_byte)

interpretation hex: codec bytes_to_hex hex_decode "\<lambda>_. True"
  by unfold_locales (rule hex_decode_bytes_to_hex)

lemma length_bytes_to_hex: "length (bytes_to_hex bs) = 2 * length bs"
  by (induction bs) (simp_all add: bytes_to_hex_def)

section \<open>The cipher\<close>

lemma chacha_ok:
  "keystream_ok c ks fits \<Longrightarrow> fits (length buf) \<Longrightarrow>
     chacha c key nonce buf = Ok (xor_stream (ks key nonce) buf)"
  by (simp add: chacha_def keystream_ok_def)

lemma chacha_iff:
  "keystream_ok c ks fits \<Longrightarrow> chacha c key nonce buf =
     (if fits (length buf) then Ok (xor_stream (ks key nonce) buf) else Panic ''StreamCipherError'')"
  by (simp add: chacha_def keystream_ok_def expect_def)

lemma chacha_twice:
  "keystream_ok c ks fits \<Longrightarrow> fits (length buf) \<Longrightarrow>
     chacha c key nonce (xor_stream (ks key nonce) buf) = Ok buf"
  by (simp add: chacha_ok xor_stream_involution)

section \<open>Properties\<close>

text \<open>
  C35: the parser of public values never reads out of bounds.  It accepts exactly the inputs of at least
  76 bytes, splits them into fields of 32, 12 and 32 bytes and a ciphertext of the remaining length,
  and loses nothing: the fields in order are the input.  A shorter input is an error, and no input
  makes it panic.
\<close>

theorem from_bytes_bounds:
  "(length data < 76 \<longrightarrow> from_bytes data = Err ''Input too short for header'') \<and>
   (76 \<le> length data \<longrightarrow>
     (\<exists>out. from_bytes data = Ok out \<and> length (privkey_hash out) = 32 \<and> length (zk_nonce out) = 12 \<and>
        length (plaintext_hash out) = 32 \<and> length (ciphertext out) = length data - 76 \<and>
        privkey_hash out @ zk_nonce out @ plaintext_hash out @ ciphertext out = data))"
proof (cases "length data < HEADER_LEN")
  case True
  then show ?thesis using from_bytes_short [OF True] by (simp add: len_defs)
next
  case False
  then obtain out where out: "from_bytes data = Ok out" "ciphertext out = drop HEADER_LEN data"
    using from_bytes_long [of data] by simp
  with from_bytes_Ok_D [OF out(1)] False show ?thesis
    by (simp add: wf_output_def output_layout_def len_defs)
qed

text \<open>The smallest input that is accepted, and the largest that is not.\<close>

theorem from_bytes_bounds_witness:
  "from_bytes (replicate 75 0) = Err ''Input too short for header'' \<and>
   (\<exists>out. from_bytes (replicate 76 0) = Ok out \<and> ciphertext out = [])"
  using from_bytes_bounds [of "replicate 75 0"] from_bytes_bounds [of "replicate 76 0"] by auto

end
