(* ===== verification/Chacha_Program.thy ===== *)
theory Chacha_Program
  imports Zkvm_Common
begin

text \<open>
  The zkVM guest (\<open>zkVM/sp1/program-chacha/src/main.rs\<close>): it reads key, nonce and plaintext from
  the host's input stream, commits to the hash of the key, the nonce, the hash of the plaintext and
  the ciphertext, in this order, and panics on inputs of the wrong size.  The committed bytes are
  the public values of the proof.

  The lemmas show which inputs the guest accepts, that its output is exactly the layout
  \<open>ZkvmOutput::from_bytes\<close> parses, and that the holder of the key recovers the plaintext whose hash
  is committed.
\<close>

section \<open>The guest's input and output\<close>

text \<open>
  The host writes slices with \<open>SP1Stdin::write_slice\<close>; the guest takes them one by one with
  \<open>read_vec\<close>, which aborts on an empty stream.  \<open>commit_slice\<close> appends to the public values.
\<close>

fun read_vec :: "bytes list \<Rightarrow> ('e, bytes \<times> bytes list) res" where
  "read_vec [] = Panic ''input stream is empty''"
| "read_vec (v # vs) = Ok (v, vs)"

definition commit_slice :: "bytes \<Rightarrow> bytes \<Rightarrow> bytes" where
  "commit_slice out bs = out @ bs"

section \<open>The program\<close>

definition program_main :: "'z crypto_scheme \<Rightarrow> bytes list \<Rightarrow> (string, bytes) res" where
  "program_main c stdin =
     res_bind (read_vec stdin) (\<lambda>(key, in1).
     res_bind (read_vec in1) (\<lambda>(nonce, in2).
     res_bind (read_vec in2) (\<lambda>(buffer, in3).
       let key_hash = sha256 c key;
           out1 = commit_slice [] key_hash
       in res_bind (try_into_array NONCE_LEN ''nonce=12B'' nonce) (\<lambda>nonce.
       let out2 = commit_slice out1 nonce;
           plaintext_hash = sha256 c buffer;
           out3 = commit_slice out2 plaintext_hash
       in res_bind (try_into_array KEY_LEN ''key=32B'' key) (\<lambda>key.
          res_bind (chacha c key nonce buffer) (\<lambda>buffer.
            Ok (commit_slice out3 buffer)))))))"

text \<open>The sizes the guest insists on.\<close>

definition guest_input_ok :: "bytes \<Rightarrow> bytes \<Rightarrow> bool" where
  "guest_input_ok key nonce \<longleftrightarrow> length key = KEY_LEN \<and> length nonce = NONCE_LEN"

section \<open>A concrete instance of the parameters\<close>

text \<open>
  A hash of 32 bytes and a cipher with a constant key stream: small enough to evaluate, and an
  instance of the laws.
\<close>

definition demo_crypto :: crypto where
  "demo_crypto = \<lparr>sha256 = (\<lambda>d. replicate HASH_LEN (of_nat (length d))),
     apply_keystream = (\<lambda>key nonce buf. Some (xor_stream (\<lambda>i. 85) buf))\<rparr>"

section \<open>What the guest accepts\<close>

lemma read_vec_iff [res_simps]:
  "read_vec vs = Ok r \<longleftrightarrow> (\<exists>v vs'. vs = v # vs' \<and> r = (v, vs'))"
  "read_vec vs = Panic p \<longleftrightarrow> vs = [] \<and> p = ''input stream is empty''"
  "read_vec vs \<noteq> Err e"
  by (cases vs; auto)+

lemma program_main_three:
  "program_main c (key # nonce # pt # rest) =
     (if length nonce \<noteq> NONCE_LEN then Panic ''nonce=12B''
      else if length key \<noteq> KEY_LEN then Panic ''key=32B''
      else res_bind (chacha c key nonce pt)
             (\<lambda>ct. Ok (sha256 c key @ nonce @ sha256 c pt @ ct)))"
  by (simp add: program_main_def try_into_array_def commit_slice_def Let_def)

text \<open>Inversion: a run that commits read three slices of the right sizes.\<close>

lemma program_main_Ok_D:
  assumes "program_main c stdin = Ok out"
  obtains key nonce pt rest ct where
    "stdin = key # nonce # pt # rest" "guest_input_ok key nonce"
    "chacha c key nonce pt = (Ok ct :: (string, bytes) res)"
    "out = sha256 c key @ nonce @ sha256 c pt @ ct"
proof -
  from assms obtain key nonce pt rest where three: "stdin = key # nonce # pt # rest"
    by (auto simp: program_main_def res_simps)
  with assms show ?thesis
    by (auto simp: program_main_three guest_input_ok_def res_simps split: if_splits intro!: that)
qed

lemma program_main_not_Err: "program_main c stdin \<noteq> Err e"
  by (auto simp: program_main_def res_simps Let_def chacha_def)

text \<open>What a completed run committed, read back by the host.\<close>

lemma committed_run:
  assumes "program_main c (key # nonce # pt # rest) = Ok out"
    and "sha256_ok c" and "keystream_ok c ks fits"
  shows "\<exists>o'. from_bytes out = Ok o' \<and> wf_output o' \<and>
      privkey_hash o' = sha256 c key \<and> plaintext_hash o' = sha256 c pt \<and> zk_nonce o' = nonce \<and>
      chacha c key (zk_nonce o') (ciphertext o') = Ok pt"
proof -
  let ?o = "\<lparr>privkey_hash = sha256 c key, zk_nonce = nonce,
          plaintext_hash = sha256 c pt, ciphertext = xor_stream (ks key nonce) pt\<rparr>"
  have fits: "fits (length pt)" and len: "length nonce = NONCE_LEN" and out: "out = output_layout ?o"
    using assms(1)
    by (auto simp: program_main_three chacha_iff [OF assms(3)] output_layout_def split: if_splits)
  have "wf_output ?o"
    using assms(2) len by (simp add: wf_output_def sha256_ok_def)
  moreover from this have "from_bytes out = Ok ?o"
    by (simp add: out from_bytes_layout)
  moreover have "chacha c key nonce (xor_stream (ks key nonce) pt) = Ok pt"
    using assms(3) fits by (rule chacha_twice)
  ultimately show ?thesis by auto
qed

section \<open>Properties\<close>

text \<open>
  C33: on a 32-byte key, a 12-byte nonce and a plaintext within the key stream, the guest does not
  panic and commits exactly \<open>SHA256(key) | nonce | SHA256(plaintext) | plaintext XOR keystream\<close>.
\<close>

theorem program_main_output:
  assumes "keystream_ok c ks fits" and "fits (length pt)"
    and "length key = KEY_LEN" and "length nonce = NONCE_LEN"
  shows "program_main c [key, nonce, pt] =
    Ok (output_layout \<lparr>privkey_hash = sha256 c key, zk_nonce = nonce,
          plaintext_hash = sha256 c pt, ciphertext = xor_stream (ks key nonce) pt\<rparr>)"
  using assms by (simp add: program_main_three chacha_ok output_layout_def)

text \<open>
  C34: the guest panics on exactly the other inputs: fewer than three slices, a nonce that is not
  12 bytes, a key that is not 32 bytes, or a plaintext longer than the key stream.  No proof of
  such a run exists.
\<close>

theorem program_main_panics:
  assumes "keystream_ok c ks fits"
  shows "is_panic (program_main c stdin) \<longleftrightarrow>
    \<not> (\<exists>key nonce pt rest. stdin = key # nonce # pt # rest \<and>
         length key = KEY_LEN \<and> length nonce = NONCE_LEN \<and> fits (length pt))"
proof (cases "\<exists>key nonce pt rest. stdin = key # nonce # pt # rest")
  case True
  then obtain key nonce pt rest where stdin: "stdin = key # nonce # pt # rest"
    by blast
  show ?thesis
    by (simp add: stdin program_main_three chacha_iff [OF assms])
next
  case False
  have "is_panic (program_main c stdin)"
  proof (cases "program_main c stdin")
    case (Ok out)
    then obtain key nonce pt rest where "stdin = key # nonce # pt # rest"
      by (rule program_main_Ok_D)
    with False show ?thesis by blast
  next
    case (Err e)
    then show ?thesis by (simp add: program_main_not_Err)
  next
    case (Panic p)
    then show ?thesis by simp
  qed
  with False show ?thesis by auto
qed

text \<open>
  C32: whatever a completed run committed, the host's parser reads it back, the header names the
  hashes of the key and of the plaintext the run used, and applying the cipher with that key to the
  parsed ciphertext under the parsed nonce gives back that plaintext.
\<close>

theorem program_main_decrypts:
  assumes "program_main c (key # nonce # pt # rest) = Ok out"
    and "sha256_ok c" and "keystream_ok c ks fits"
  shows "\<exists>o'. from_bytes out = Ok o' \<and> wf_output o' \<and>
      privkey_hash o' = sha256 c key \<and> plaintext_hash o' = sha256 c pt \<and> zk_nonce o' = nonce \<and>
      chacha c key (zk_nonce o') (ciphertext o') = (Ok pt :: (string, bytes) res)"
  using committed_run [OF assms] by blast

section \<open>Witnesses\<close>

lemma demo_crypto_ok:
  "sha256_ok demo_crypto" "keystream_ok demo_crypto (\<lambda>_ _ _. 85) (\<lambda>_. True)"
  by (simp_all add: demo_crypto_def sha256_ok_def keystream_ok_def)

lemma demo_guest_input: "length (replicate KEY_LEN (7 :: byte)) = KEY_LEN"
    "length (replicate NONCE_LEN (9 :: byte)) = NONCE_LEN"
  by simp_all

theorem program_main_output_witness:
  "program_main demo_crypto [replicate KEY_LEN 7, replicate NONCE_LEN 9, [1, 2, 3]] =
    Ok (output_layout \<lparr>privkey_hash = replicate HASH_LEN 32, zk_nonce = replicate NONCE_LEN 9,
          plaintext_hash = replicate HASH_LEN 3, ciphertext = [84, 87, 86]\<rparr>)"
proof -
  have "sha256 demo_crypto (replicate KEY_LEN 7) = replicate HASH_LEN 32"
    "sha256 demo_crypto [1, 2, 3] = replicate HASH_LEN 3"
    "xor_stream (\<lambda>i. 85) [1, 2, 3] = [84, 87, 86 :: byte]"
    by (simp_all add: demo_crypto_def KEY_LEN_def xor_stream_def)
  then show ?thesis
    using program_main_output [OF demo_crypto_ok(2) _ demo_guest_input, of "[1, 2, 3]"]
    by simp
qed

theorem program_main_panics_witness:
  "is_panic (program_main demo_crypto [[1, 2], replicate NONCE_LEN 9, [3]])"
  using program_main_panics [OF demo_crypto_ok(2), of "[[1, 2], replicate NONCE_LEN 9, [3]]"]
  by (simp add: len_defs)

theorem program_main_decrypts_witness:
  "\<exists>out o'. program_main demo_crypto [replicate KEY_LEN 7, replicate NONCE_LEN 9, [1, 2, 3]] = Ok out
     \<and> from_bytes out = Ok o'
     \<and> chacha demo_crypto (replicate KEY_LEN 7) (zk_nonce o') (ciphertext o') =
         (Ok [1, 2, 3] :: (string, bytes) res)"
proof -
  obtain out where out:
    "program_main demo_crypto [replicate KEY_LEN 7, replicate NONCE_LEN 9, [1, 2, 3]] = Ok out"
    by (simp add: program_main_three chacha_ok [OF demo_crypto_ok(2)])
  show ?thesis
    using out program_main_decrypts [OF out demo_crypto_ok(1) demo_crypto_ok(2)] by auto
qed

end
