(* ===== verification/Job.thy ===== *)
theory Job
  imports Zkvm_Common
begin

text \<open>
  The data of the service: errors (\<open>service/src/internal/error.rs\<close>), jobs and the states of a job
  (\<open>service/src/internal/job.rs\<close>), with the texts their \<open>Display\<close> and \<open>Debug\<close> instances print.

  \<open>SP1ProofWithPublicValues\<close> is a type of the SP1 SDK: the code reads its public values and
  passes the rest on, so the rest is a type parameter \<open>'p\<close>.
\<close>

section \<open>Errors\<close>

datatype pda_runner_error =
    InternalError string
  | ZkClientError string
  | DaClientError string
  | InvalidParameter string

fun error_display :: "pda_runner_error \<Rightarrow> string" where
  "error_display (InternalError s) = ''Service: '' @ s"
| "error_display (ZkClientError s) = ''ZK Prover: '' @ s"
| "error_display (DaClientError s) = ''Data Availability Node: '' @ s"
| "error_display (InvalidParameter s) = ''Invalid parameter: '' @ s"

fun error_debug :: "pda_runner_error \<Rightarrow> string" where
  "error_debug (InternalError s) = ''InternalError('' @ s @ '')''"
| "error_debug (ZkClientError s) = ''ZkClientError('' @ s @ '')''"
| "error_debug (DaClientError s) = ''DaClientError('' @ s @ '')''"
| "error_debug (InvalidParameter s) = ''InvalidParameter('' @ s @ '')''"

section \<open>Jobs\<close>

record anchor =
  anchor_data :: bytes

record input =
  input_data :: bytes

record job =
  job_anchor :: anchor
  job_input :: input

definition anchor_debug :: "anchor \<Rightarrow> string" where
  "anchor_debug a = debug_struct ''Anchor'' [(''data (hex)'', debug_str (bytes_to_hex (anchor_data a)))]"

text \<open>The derived \<open>Debug\<close> of \<open>Input\<close> and \<open>Job\<close>: every field, so the plaintext too.\<close>

definition input_debug :: "input \<Rightarrow> string" where
  "input_debug i = debug_struct ''Input'' [(''data'', debug_bytes (input_data i))]"

definition job_debug :: "job \<Rightarrow> string" where
  "job_debug j =
     debug_struct ''Job''
       [(''anchor'', anchor_debug (job_anchor j)), (''input'', input_debug (job_input j))]"

section \<open>Proofs and the states of a job\<close>

record 'p sp1_proof =
  sp1_proof_rest :: 'p
  public_values :: bytes

datatype 'p job_status =
    LocalZkProofPending
  | RemoteZkProofRequesting
  | RemoteZkProofPending bytes
  | ZkProofFinished "'p sp1_proof"
  | Failed pda_runner_error "'p job_status option"

fun job_status_debug :: "'p job_status \<Rightarrow> string" where
  "job_status_debug LocalZkProofPending = ''LocalZkProofPending''"
| "job_status_debug RemoteZkProofRequesting = ''RemoteZkProofRequesting''"
| "job_status_debug (RemoteZkProofPending i) = ''RemoteZkProofPending''"
| "job_status_debug (ZkProofFinished p) = ''ZkProofFinished''"
| "job_status_debug (Failed e r) = ''Failed''"

text \<open>
  The two kinds of status the two trees are meant to hold: work in progress in the queue, results
  in the finished tree.  A retry-able failure remembers the status to retry with, and the only one
  the runner stores is \<open>RemoteZkProofRequesting\<close>.
\<close>

fun pending_status :: "'p job_status \<Rightarrow> bool" where
  "pending_status LocalZkProofPending = True"
| "pending_status RemoteZkProofRequesting = True"
| "pending_status (RemoteZkProofPending i) = True"
| "pending_status (ZkProofFinished p) = False"
| "pending_status (Failed e r) = False"

fun final_status :: "'p job_status \<Rightarrow> bool" where
  "final_status (ZkProofFinished p) = True"
| "final_status (Failed e None) = True"
| "final_status (Failed e (Some RemoteZkProofRequesting)) = True"
| "final_status _ = False"

lemma pending_not_final: "pending_status st \<Longrightarrow> \<not> final_status st"
  by (cases st) auto

section \<open>The text of a job contains its plaintext\<close>

lemma debug_struct_field:
  assumes "(k, v) \<in> set fs"
  shows "\<exists>pre post. debug_struct name fs = pre @ v @ post"
proof -
  from assms have "k @ '': '' @ v \<in> set (map (\<lambda>(k, v). k @ '': '' @ v) fs)"
    by force
  then obtain pre post where
    "join '', '' (map (\<lambda>(k, v). k @ '': '' @ v) fs) = pre @ (k @ '': '' @ v) @ post"
    using join_infix by blast
  then have "debug_struct name fs = (name @ '' { '' @ pre @ k @ '': '') @ v @ (post @ '' }'')"
    by (simp add: debug_struct_def)
  then show ?thesis by blast
qed

lemma job_debug_plaintext:
  "\<exists>pre post. job_debug j = pre @ debug_bytes (input_data (job_input j)) @ post"
proof -
  obtain p1 q1 where 1: "job_debug j = p1 @ input_debug (job_input j) @ q1"
    unfolding job_debug_def
    using debug_struct_field [of "''input''" "input_debug (job_input j)"] by fastforce
  obtain p2 q2 where 2: "input_debug (job_input j) = p2 @ debug_bytes (input_data (job_input j)) @ q2"
    unfolding input_debug_def
    using debug_struct_field [of "''data''" "debug_bytes (input_data (job_input j))"] by fastforce
  have "job_debug j = (p1 @ p2) @ debug_bytes (input_data (job_input j)) @ (q2 @ q1)"
    by (simp add: 1 2)
  then show ?thesis by blast
qed

end
