(* ===== verification/Crates.thy ===== *)
theory Crates
  imports Chacha_Program Job
begin

text \<open>
  The third-party code the service calls, as parameters of the model, and the laws the service
  relies on, as named predicates.

  \<^item> \<open>crates\<close> holds the functions that always answer the same: the serialiser \<open>bincode\<close>, the \<open>hex\<close>
    crate, the proof verifier, the embedded guest binary (a build product).
  \<^item> \<open>world\<close> holds the answers of the environment during one call of a service operation: the
    environment variables, which database accesses fail, the random bytes, the prover clients and
    what the provers return.

  \<open>bincode_ok\<close>: decoding what was encoded gives the value back, a byte vector is a self-delimiting
  prefix, and there is nothing to read in an empty input.  \<open>world_ok\<close>: a proof
  the provers return is one of the guest's run on the given input, and it verifies.  Both are satisfied by a concrete instance, \<open>demo_crates\<close> and
  \<open>demo_world\<close> in the theory \<open>Demo\<close>.
\<close>

section \<open>Setup of a zkVM program\<close>

record ('pk, 'vk) sp1_proof_setup =
  setup_pk :: 'pk
  setup_vk :: 'vk

definition setup_from :: "'pk \<times> 'vk \<Rightarrow> ('pk, 'vk) sp1_proof_setup" where
  "setup_from tuple = \<lparr>setup_pk = fst tuple, setup_vk = snd tuple\<rparr>"

section \<open>Errors of the prover SDK\<close>

text \<open>
  The variants the service matches on; their payload is opaque.  A prover call fails with an
  \<open>anyhow\<close> error, which either is such an error underneath or only has a text.
\<close>

datatype sp1_network_error =
    SimulationFailed
  | RequestUnexecutable string
  | RequestUnfulfillable string
  | RequestTimedOut string
  | RpcError string
  | OtherNetworkError string

datatype prover_error = NetworkErr sp1_network_error | UnhandledErr string

section \<open>Parameters\<close>

record ('p, 'pk, 'vk, 'cl) crates = crypto +
  vec_ser :: "bytes \<Rightarrow> string + bytes"
  vec_de :: "bytes \<Rightarrow> string + bytes \<times> bytes"
  status_ser :: "'p job_status \<Rightarrow> string + bytes"
  status_de :: "bytes \<Rightarrow> string + 'p job_status"
  setup_ser :: "('pk, 'vk) sp1_proof_setup \<Rightarrow> string + bytes"
  setup_de :: "bytes \<Rightarrow> string + ('pk, 'vk) sp1_proof_setup"
  proof_ser :: "'p sp1_proof \<Rightarrow> string + bytes"
  proof_de :: "bytes \<Rightarrow> string + 'p sp1_proof"
  from_hex32 :: "string \<Rightarrow> bytes option"
  hex_encode :: "bytes \<Rightarrow> string"
  chacha_elf :: bytes
  sp1_verify :: "'cl \<Rightarrow> 'p sp1_proof \<Rightarrow> 'vk \<Rightarrow> string option"
  from_str_name :: "string \<Rightarrow> int option"
  network_error_display :: "sp1_network_error \<Rightarrow> string"

text \<open>The accesses of the embedded database that can fail.\<close>

datatype db_op =
    FinishedGet | QueueGet | QueueInsert | ConfigGet | ConfigInsert | TxRemove | TxInsert | TxCommit

record ('p, 'pk, 'vk, 'cl) world =
  env_var :: env_vars
  fault :: "db_op \<Rightarrow> string option"
  closed_msg :: string \<comment> \<open>text of the channel's send error\<close>
  os_rng :: "nat \<Rightarrow> bytes option"
  client_from_env :: "'cl option" \<comment> \<open>None: the builder panics\<close>
  client_network :: "'cl option"
  run_setup :: "'cl \<Rightarrow> bytes \<Rightarrow> string + 'pk \<times> 'vk"
  run_prove :: "'cl \<Rightarrow> 'pk \<Rightarrow> bytes list \<Rightarrow> prover_error + 'p sp1_proof"
  request_proof :: "'cl \<Rightarrow> 'pk \<Rightarrow> bytes list \<Rightarrow> int \<Rightarrow> nat \<Rightarrow> prover_error + bytes"
  wait_proof :: "'cl \<Rightarrow> bytes \<Rightarrow> prover_error + 'p sp1_proof"

section \<open>Serialisation of anchors and jobs\<close>

text \<open>
  The derived \<open>Serialize\<close> and \<open>Deserialize\<close> of the structs in \<open>job.rs\<close> under \<open>bincode\<close>: the fields
  in order, with nothing around them.  \<open>bincode::deserialize\<close> ignores bytes left over.
\<close>

definition anchor_ser :: "('p, 'pk, 'vk, 'cl, 'z) crates_scheme \<Rightarrow> anchor \<Rightarrow> string + bytes" where
  "anchor_ser c a = vec_ser c (anchor_data a)"

definition job_de :: "('p, 'pk, 'vk, 'cl, 'z) crates_scheme \<Rightarrow> bytes \<Rightarrow> string + job" where
  "job_de c bs =
     (case vec_de c bs of
        Inl e \<Rightarrow> Inl e
      | Inr (a, rest) \<Rightarrow>
          (case vec_de c rest of
             Inl e \<Rightarrow> Inl e
           | Inr (d, _) \<Rightarrow>
               Inr \<lparr>job_anchor = \<lparr>anchor_data = a\<rparr>, job_input = \<lparr>input_data = d\<rparr>\<rparr>))"

text \<open>The jobs the proxy builds: the anchor is the hash of the input.\<close>

definition job_of :: "'z crypto_scheme \<Rightarrow> bytes \<Rightarrow> job" where
  "job_of c d = \<lparr>job_anchor = \<lparr>anchor_data = sha256 c d\<rparr>, job_input = \<lparr>input_data = d\<rparr>\<rparr>"

definition job_wf :: "'z crypto_scheme \<Rightarrow> job \<Rightarrow> bool" where
  "job_wf c j \<longleftrightarrow> j = job_of c (input_data (job_input j))"

section \<open>The encryption key\<close>

text \<open>Every reader of the key does the same two steps, each with a panic.\<close>

definition encryption_key ::
  "('p, 'pk, 'vk, 'cl, 'z) crates_scheme \<Rightarrow> env_vars \<Rightarrow> ('e, bytes) res" where
  "encryption_key c env =
     res_bind (expect ''Missing ENCRYPTION_KEY env var'' (env ''ENCRYPTION_KEY''))
       (\<lambda>txt. expect ''ENCRYPTION_KEY must be 32 bytes, hex encoded (ex: `1234...abcd`)''
                (from_hex32 c txt))"

section \<open>Laws\<close>

definition bincode_ok :: "('p, 'pk, 'vk, 'cl, 'z) crates_scheme \<Rightarrow> bool" where
  "bincode_ok c \<longleftrightarrow>
     (\<forall>v b r. vec_ser c v = Inr b \<longrightarrow> vec_de c (b @ r) = Inr (v, r)) \<and>
     (\<forall>x. vec_de c [] \<noteq> Inr x) \<and>
     (\<forall>st b. status_ser c st = Inr b \<longrightarrow> status_de c b = Inr st) \<and>
     (\<forall>st b. setup_ser c st = Inr b \<longrightarrow> setup_de c b = Inr st) \<and>
     (\<forall>pf b. proof_ser c pf = Inr b \<longrightarrow> proof_de c b = Inr pf)"

text \<open>Serialising to memory does not fail.\<close>

definition bincode_total :: "('p, 'pk, 'vk, 'cl, 'z) crates_scheme \<Rightarrow> bool" where
  "bincode_total c \<longleftrightarrow>
     (\<forall>v. \<exists>b. vec_ser c v = Inr b) \<and> (\<forall>st. \<exists>b. status_ser c st = Inr b) \<and>
     (\<forall>st. \<exists>b. setup_ser c st = Inr b) \<and> (\<forall>pf. \<exists>b. proof_ser c pf = Inr b)"

definition hex_ok :: "('p, 'pk, 'vk, 'cl, 'z) crates_scheme \<Rightarrow> bool" where
  "hex_ok c \<longleftrightarrow> (\<forall>txt k. from_hex32 c txt = Some k \<longrightarrow> length k = KEY_LEN)"

text \<open>
  \<open>EK pk vk\<close>: the keys belong to the embedded guest.  \<open>RQ rid stdin\<close>: the prover network issued the
  request identifier \<open>rid\<close> for the input \<open>stdin\<close>.  A verifier accepts only proofs of completed runs.
\<close>

definition verify_ok ::
  "('p, 'pk, 'vk, 'cl, 'z) crates_scheme \<Rightarrow> ('pk \<Rightarrow> 'vk \<Rightarrow> bool) \<Rightarrow> bool" where
  "verify_ok c EK \<longleftrightarrow>
     (\<forall>cl pf pk vk. EK pk vk \<longrightarrow> sp1_verify c cl pf vk = None \<longrightarrow>
        (\<exists>stdin. program_main c stdin = Ok (public_values pf)))"

text \<open>A proof of the guest's run on an input: its public values are the run's, and it verifies.\<close>

definition proof_ok ::
  "('p, 'pk, 'vk, 'cl, 'z) crates_scheme \<Rightarrow> ('pk \<Rightarrow> 'vk \<Rightarrow> bool) \<Rightarrow> bytes list \<Rightarrow> 'p sp1_proof \<Rightarrow> bool"
  where
  "proof_ok c EK stdin pf \<longleftrightarrow>
     program_main c stdin = Ok (public_values pf) \<and>
     (\<forall>cl pk vk. EK pk vk \<longrightarrow> sp1_verify c cl pf vk = None)"

definition world_ok ::
  "('p, 'pk, 'vk, 'cl, 'z) crates_scheme \<Rightarrow> env_vars \<Rightarrow> ('pk \<Rightarrow> 'vk \<Rightarrow> bool) \<Rightarrow>
     (bytes \<Rightarrow> bytes list \<Rightarrow> bool) \<Rightarrow> ('p, 'pk, 'vk, 'cl) world \<Rightarrow> bool" where
  "world_ok c E EK RQ w \<longleftrightarrow>
     env_var w = E \<and>
     (\<forall>n b. os_rng w n = Some b \<longrightarrow> length b = n) \<and>
     (\<forall>cl pk vk. run_setup w cl (chacha_elf c) = Inr (pk, vk) \<longrightarrow> EK pk vk) \<and>
     (\<forall>cl pk vk stdin pf. EK pk vk \<longrightarrow> run_prove w cl pk stdin = Inr pf \<longrightarrow>
        proof_ok c EK stdin pf) \<and>
     (\<forall>cl pk vk stdin strat t rid. EK pk vk \<longrightarrow>
        request_proof w cl pk stdin strat t = Inr rid \<longrightarrow> RQ rid stdin) \<and>
     (\<forall>cl rid stdin pf. RQ rid stdin \<longrightarrow> wait_proof w cl rid = Inr pf \<longrightarrow>
        proof_ok c EK stdin pf)"

named_theorems crate_laws \<open>consequences of the laws of the third-party code\<close>

lemma bincode_okD [crate_laws]:
  assumes "bincode_ok c"
  shows "vec_ser c v = Inr b \<Longrightarrow> vec_de c (b @ r) = Inr (v, r)"
    and "status_ser c st = Inr b \<Longrightarrow> status_de c b = Inr st"
    and "setup_ser c su = Inr b \<Longrightarrow> setup_de c b = Inr su"
    and "proof_ser c pf = Inr b \<Longrightarrow> proof_de c b = Inr pf"
  using assms unfolding bincode_ok_def by blast+

lemma vec_de_all [crate_laws]:
  "bincode_ok c \<Longrightarrow> vec_ser c v = Inr b \<Longrightarrow> vec_de c b = Inr (v, [])"
  using bincode_okD(1) [of c v b "[]"] by simp

lemma vec_de_empty [crate_laws]: "bincode_ok c \<Longrightarrow> \<exists>e. vec_de c [] = Inl e"
  unfolding bincode_ok_def by (cases "vec_de c []") auto

lemma world_okD:
  assumes "world_ok c E EK RQ w"
  shows "env_var w = E"
    and "os_rng w n = Some b \<Longrightarrow> length b = n"
    and "run_setup w cl (chacha_elf c) = Inr (pk, vk) \<Longrightarrow> EK pk vk"
    and "EK pk vk \<Longrightarrow> run_prove w cl pk stdin = Inr pf \<Longrightarrow> proof_ok c EK stdin pf"
    and "EK pk vk \<Longrightarrow> request_proof w cl pk stdin strat t = Inr rid \<Longrightarrow> RQ rid stdin"
    and "RQ rid stdin \<Longrightarrow> wait_proof w cl rid = Inr pf \<Longrightarrow> proof_ok c EK stdin pf"
  by (insert assms, unfold world_ok_def) metis+

text \<open>Keys of different anchors differ.\<close>

lemma vec_ser_inj:
  "bincode_ok c \<Longrightarrow> vec_ser c v = Inr k \<Longrightarrow> vec_ser c v' = Inr k \<Longrightarrow> v = v'"
  using vec_de_all [of c v k] vec_de_all [of c v' k] by simp

lemma encryption_key_len:
  "hex_ok c \<Longrightarrow> encryption_key c E = Ok k \<Longrightarrow> length k = KEY_LEN"
  by (auto simp: encryption_key_def hex_ok_def res_simps)

lemma encryption_key_Ok_any:
  "encryption_key c E = (Ok k :: ('e, bytes) res) \<longleftrightarrow>
   encryption_key c E = (Ok k :: ('f, bytes) res)"
  by (auto simp: encryption_key_def res_simps)

lemma encryption_key_not_Err: "encryption_key c E \<noteq> Err e"
  by (auto simp: encryption_key_def res_simps)

lemma job_wfD:
  "job_wf c j \<Longrightarrow> anchor_data (job_anchor j) = sha256 c (input_data (job_input j))"
  by (metis job_wf_def job_of_def anchor.select_convs(1) job.select_convs(1))

lemma job_of_wf [simp]: "job_wf c (job_of c d)"
  by (simp add: job_wf_def job_of_def)

lemma job_of_simps [simp]:
  "anchor_data (job_anchor (job_of c d)) = sha256 c d" "input_data (job_input (job_of c d)) = d"
  by (simp_all add: job_of_def)

end
