(* ===== verification/Job_Store.thy ===== *)
theory Job_Store
  imports Crates
begin

text \<open>
  The state of \<open>PdaRunner\<close> (\<open>service/src/internal/runner.rs\<close>) and the two operations that move a
  job between its trees: \<open>finalize_job\<close> and \<open>send_job_with_new_status\<close>.

  A sled tree is a map from byte keys to byte values; every access can fail with an I/O error,
  which is the \<open>fault\<close> of the call's \<open>world\<close>.  A transaction takes effect as a whole or not at all.
  The unbounded channel is the list of messages sent and not yet received; sending fails once the
  receiver is gone.  The \<open>OnceCell\<close>s, two of them static, are options that are set once.

  The locale \<open>job_table\<close> states what the rest of the runner relies on: a finalised job is in the
  finished tree only, a resent job in the queue only, and a failed operation leaves both trees as
  they were.  It is interpreted on the operations below.
\<close>

section \<open>State\<close>

type_synonym tree = "bytes \<rightharpoonup> bytes"

record ('pk, 'vk, 'cl) pda_runner =
  zk_proof_gen_timeout_remote :: nat
  config_db :: tree
  queue_db :: tree
  finished_db :: tree
  job_channel :: "job option list"
  receiver_open :: bool
  zk_client_handle_local :: "'cl option"
  zk_client_handle_remote :: "'cl option"
  chacha_id :: "bytes option"
  chacha_setup :: "('pk, 'vk) sp1_proof_setup option"

text \<open>\<open>PdaRunner::new\<close> on the opened trees, with the channel open and every cell empty.\<close>

definition new_runner :: "nat \<Rightarrow> tree \<Rightarrow> tree \<Rightarrow> tree \<Rightarrow> ('pk, 'vk, 'cl) pda_runner" where
  "new_runner timeout cdb qdb fdb =
     \<lparr>zk_proof_gen_timeout_remote = timeout, config_db = cdb, queue_db = qdb, finished_db = fdb,
      job_channel = [], receiver_open = True,
      zk_client_handle_local = None, zk_client_handle_remote = None,
      chacha_id = None, chacha_setup = None\<rparr>"

section \<open>Chaining operations with errors\<close>

text \<open>
  \<open>db_try\<close> and \<open>ext_try\<close> are \<open>.map_err(|e| PdaRunnerError::InternalError(e.to_string()))?\<close> on a
  database access and on a call into a crate; \<open>and_then\<close> is \<open>?\<close> on a call of the service's own.
\<close>

definition db_try ::
  "('p, 'pk, 'vk, 'cl) world \<Rightarrow> db_op \<Rightarrow> 's \<Rightarrow> (pda_runner_error, 'a) res \<times> 's \<Rightarrow>
     (pda_runner_error, 'a) res \<times> 's" where
  "db_try w op s k = (case fault w op of Some e \<Rightarrow> (Err (InternalError e), s) | None \<Rightarrow> k)"

definition ext_try ::
  "string + 'v \<Rightarrow> 's \<Rightarrow> ('v \<Rightarrow> (pda_runner_error, 'a) res \<times> 's) \<Rightarrow>
     (pda_runner_error, 'a) res \<times> 's" where
  "ext_try x s k = (case x of Inl e \<Rightarrow> (Err (InternalError e), s) | Inr v \<Rightarrow> k v)"

definition and_then ::
  "('e, 'a) res \<times> 's \<Rightarrow> ('a \<Rightarrow> 's \<Rightarrow> ('e, 'b) res \<times> 's) \<Rightarrow> ('e, 'b) res \<times> 's" where
  "and_then m k =
     (case m of (Ok a, s) \<Rightarrow> k a s | (Err e, s) \<Rightarrow> (Err e, s) | (Panic p, s) \<Rightarrow> (Panic p, s))"

section \<open>Operations\<close>

definition chan_send ::
  "('p, 'pk, 'vk, 'cl) world \<Rightarrow> ('pk, 'vk, 'cl) pda_runner \<Rightarrow> job option \<Rightarrow>
     (pda_runner_error, unit) res \<times> ('pk, 'vk, 'cl) pda_runner" where
  "chan_send w s m =
     (if receiver_open s then (Ok (), s\<lparr>job_channel := job_channel s @ [m]\<rparr>)
      else (Err (InternalError (closed_msg w)), s))"

definition finalize_job ::
  "('p, 'pk, 'vk, 'cl, 'z) crates_scheme \<Rightarrow> ('p, 'pk, 'vk, 'cl) world \<Rightarrow>
     ('pk, 'vk, 'cl) pda_runner \<Rightarrow> bytes \<Rightarrow> 'p job_status \<Rightarrow>
     (pda_runner_error, unit) res \<times> ('pk, 'vk, 'cl) pda_runner" where
  "finalize_job c w s job_key job_status =
     db_try w TxRemove s
       (case status_ser c job_status of
          Inl _ \<Rightarrow> (Panic ''Always given serializable job status'', s)
        | Inr b \<Rightarrow>
            db_try w TxInsert s
              (db_try w TxCommit s
                 (Ok (), s\<lparr>queue_db := (queue_db s)(job_key := None),
                           finished_db := (finished_db s)(job_key \<mapsto> b)\<rparr>)))"

definition send_job_with_new_status ::
  "('p, 'pk, 'vk, 'cl, 'z) crates_scheme \<Rightarrow> ('p, 'pk, 'vk, 'cl) world \<Rightarrow>
     ('pk, 'vk, 'cl) pda_runner \<Rightarrow> bytes \<Rightarrow> 'p job_status \<Rightarrow> job \<Rightarrow>
     (pda_runner_error, unit) res \<times> ('pk, 'vk, 'cl) pda_runner" where
  "send_job_with_new_status c w s job_key update_status job =
     and_then
       (db_try w TxRemove s
          (case status_ser c update_status of
             Inl _ \<Rightarrow> (Panic ''Always given serializable job status'', s)
           | Inr b \<Rightarrow>
               db_try w TxInsert s
                 (db_try w TxCommit s
                    (Ok (), s\<lparr>finished_db := (finished_db s)(job_key := None),
                              queue_db := (queue_db s)(job_key \<mapsto> b)\<rparr>))))
       (\<lambda>_ s'. chan_send w s' (Some job))"

text \<open>\<open>shutdown\<close> ends the worker's loop by sending \<open>None\<close>; a send error is dropped.\<close>

definition shutdown ::
  "('p, 'pk, 'vk, 'cl) world \<Rightarrow> ('pk, 'vk, 'cl) pda_runner \<Rightarrow> ('pk, 'vk, 'cl) pda_runner" where
  "shutdown w s = snd (chan_send w s None)"

section \<open>Reading the trees\<close>

definition lookup_status ::
  "('p, 'pk, 'vk, 'cl, 'z) crates_scheme \<Rightarrow> tree \<Rightarrow> bytes \<Rightarrow> 'p job_status option" where
  "lookup_status c t k =
     (case t k of
        None \<Rightarrow> None
      | Some b \<Rightarrow> (case status_de c b of Inl _ \<Rightarrow> None | Inr st \<Rightarrow> Some st))"

text \<open>Every entry of a tree satisfies a property of key and value; every value decodes.\<close>

definition tree_all :: "(bytes \<Rightarrow> bytes \<Rightarrow> bool) \<Rightarrow> tree \<Rightarrow> bool" where
  "tree_all P t \<longleftrightarrow> (\<forall>k b. t k = Some b \<longrightarrow> P k b)"

definition entry_ok ::
  "('p, 'pk, 'vk, 'cl, 'z) crates_scheme \<Rightarrow> (bytes \<Rightarrow> 'p job_status \<Rightarrow> bool) \<Rightarrow> bytes \<Rightarrow> bytes \<Rightarrow> bool"
  where
  "entry_ok c P k b \<longleftrightarrow> (\<exists>st. status_de c b = Inr st \<and> P k st)"

text \<open>A key is in at most one of two trees.\<close>

definition disjoint_trees :: "tree \<Rightarrow> tree \<Rightarrow> bool" where
  "disjoint_trees t u \<longleftrightarrow> (\<forall>k. t k = None \<or> u k = None)"

section \<open>Lemmas on trees\<close>

lemma tree_all_empty [simp]: "tree_all P Map.empty"
  by (simp add: tree_all_def)

lemma tree_all_upd: "tree_all P t \<Longrightarrow> P k b \<Longrightarrow> tree_all P (t(k \<mapsto> b))"
  by (simp add: tree_all_def)

lemma tree_all_del: "tree_all P t \<Longrightarrow> tree_all P (t(k := None))"
  by (simp add: tree_all_def)

lemma tree_allD: "tree_all P t \<Longrightarrow> t k = Some b \<Longrightarrow> P k b"
  by (simp add: tree_all_def)

lemma entry_ok_ser: "bincode_ok c \<Longrightarrow> status_ser c st = Inr b \<Longrightarrow> P k st \<Longrightarrow> entry_ok c P k b"
  by (auto simp: entry_ok_def dest: bincode_okD(2))

lemma lookup_status_simps [simp]:
  "t k = None \<Longrightarrow> lookup_status c t k = None"
  "t k = Some b \<Longrightarrow> status_de c b = Inr st \<Longrightarrow> lookup_status c t k = Some st"
  by (simp_all add: lookup_status_def)

lemma disjoint_trees_move:
  assumes "disjoint_trees t u"
  shows "disjoint_trees (t(k := None)) (u(k \<mapsto> b))" "disjoint_trees (t(k \<mapsto> b)) (u(k := None))"
  using assms by (simp_all add: disjoint_trees_def)

lemma disjoint_treesD: "disjoint_trees t u \<Longrightarrow> t k \<noteq> None \<Longrightarrow> u k = None"
  unfolding disjoint_trees_def by metis

lemma disjoint_trees_add:
  "disjoint_trees t u \<Longrightarrow> u k = None \<Longrightarrow> disjoint_trees (t(k \<mapsto> b)) u"
  by (simp add: disjoint_trees_def)

section \<open>The interface of the job table\<close>

locale job_table =
  fixes queue :: "'s \<Rightarrow> tree"
    and finished :: "'s \<Rightarrow> tree"
    and ser :: "'st \<Rightarrow> string + bytes"
    and finalize :: "'s \<Rightarrow> bytes \<Rightarrow> 'st \<Rightarrow> ('e, unit) res \<times> 's"
    and resend :: "'s \<Rightarrow> bytes \<Rightarrow> 'st \<Rightarrow> job \<Rightarrow> ('e, unit) res \<times> 's"
  assumes finalize_effect: "finalize s k st = (r, s') \<Longrightarrow>
      (r \<noteq> Ok () \<and> s' = s) \<or>
      (r = Ok () \<and> (\<exists>b. ser st = Inr b \<and> queue s' = (queue s)(k := None) \<and>
                       finished s' = (finished s)(k \<mapsto> b)))"
    and resend_effect: "resend s k st j = (r, s') \<Longrightarrow>
      (r \<noteq> Ok () \<and> queue s' = queue s \<and> finished s' = finished s) \<or>
      (\<exists>b. ser st = Inr b \<and> queue s' = (queue s)(k \<mapsto> b) \<and> finished s' = (finished s)(k := None))"
begin

text \<open>A job is in at most one of the two trees.\<close>

lemma finalize_disjoint:
  assumes "disjoint_trees (queue s) (finished s)" and "finalize s k st = (r, s')"
  shows "disjoint_trees (queue s') (finished s')"
  using finalize_effect [OF assms(2)] assms(1) by (auto simp: disjoint_trees_move)

lemma resend_disjoint:
  assumes "disjoint_trees (queue s) (finished s)" and "resend s k st j = (r, s')"
  shows "disjoint_trees (queue s') (finished s')"
  using resend_effect [OF assms(2)] assms(1) by (auto simp: disjoint_trees_move)

text \<open>Properties of all entries survive when the new value has them.\<close>

lemma finalize_entries:
  assumes "finalize s k st = (r, s')" and "tree_all P (queue s)" and "tree_all Q (finished s)"
    and "\<And>b. ser st = Inr b \<Longrightarrow> Q k b"
  shows "tree_all P (queue s') \<and> tree_all Q (finished s')"
  using finalize_effect [OF assms(1)] assms(2-4) by (auto intro: tree_all_upd tree_all_del)

lemma resend_entries:
  assumes "resend s k st j = (r, s')" and "tree_all P (queue s)" and "tree_all Q (finished s)"
    and "\<And>b. ser st = Inr b \<Longrightarrow> P k b"
  shows "tree_all P (queue s') \<and> tree_all Q (finished s')"
  using resend_effect [OF assms(1)] assms(2-4) by (auto intro: tree_all_upd tree_all_del)

text \<open>Other keys are untouched.\<close>

lemma finalize_frame:
  "finalize s k st = (r, s') \<Longrightarrow> k' \<noteq> k \<Longrightarrow> queue s' k' = queue s k' \<and> finished s' k' = finished s k'"
  by (drule finalize_effect) auto

lemma resend_frame:
  "resend s k st j = (r, s') \<Longrightarrow> k' \<noteq> k \<Longrightarrow> queue s' k' = queue s k' \<and> finished s' k' = finished s k'"
  by (drule resend_effect) auto

end

section \<open>Lemmas on chaining\<close>

lemma db_try_simps [simp]:
  "fault w op = None \<Longrightarrow> db_try w op s k = k"
  "fault w op = Some e \<Longrightarrow> db_try w op s k = (Err (InternalError e), s)"
  by (simp_all add: db_try_def)

lemma ext_try_simps [simp]:
  "ext_try (Inr v) s k = k v"
  "ext_try (Inl e) s k = (Err (InternalError e), s)"
  by (simp_all add: ext_try_def)

lemma and_then_simps [simp]:
  "and_then (Ok a, s) k = k a s"
  "and_then (Err e, s) k = (Err e, s)"
  "and_then (Panic p, s) k = (Panic p, s)"
  by (simp_all add: and_then_def)

lemma and_then_eq_iff [res_simps]:
  "and_then m k = (Ok b, t) \<longleftrightarrow> (\<exists>a s. m = (Ok a, s) \<and> k a s = (Ok b, t))"
  by (cases m; cases "fst m") (auto simp: and_then_def)

lemma and_then_cases:
  assumes "and_then m k = (r, t)"
  obtains (ok) a s where "m = (Ok a, s)" and "k a s = (r, t)"
    | (fail) x where "m = (x, t)" and "\<And>b. r \<noteq> Ok b"
  using assms by (cases m; cases "fst m") auto

text \<open>Rules for a property of the final state: they follow the shape of an operation.\<close>

named_theorems keep \<open>introduction rules: a property of states survives an operation\<close>

lemma keep_db_try [keep]: "I s \<Longrightarrow> I (snd k) \<Longrightarrow> I (snd (db_try w op s k))"
  by (simp add: db_try_def split: option.split)

lemma keep_ext_try [keep]: "I s \<Longrightarrow> (\<And>v. x = Inr v \<Longrightarrow> I (snd (k v))) \<Longrightarrow> I (snd (ext_try x s k))"
  by (simp add: ext_try_def split: sum.split)

lemma keep_and_then [keep]:
  "I (snd m) \<Longrightarrow> (\<And>a s. m = (Ok a, s) \<Longrightarrow> I s \<Longrightarrow> I (snd (k a s))) \<Longrightarrow> I (snd (and_then m k))"
  by (cases m; cases "fst m") auto

section \<open>The operations implement the interface\<close>

lemma finalize_job_effect:
  assumes "finalize_job c w s k st = (r, s')"
  shows "(r \<noteq> Ok () \<and> s' = s) \<or>
    (r = Ok () \<and> (\<exists>b. status_ser c st = Inr b \<and>
       s' = s\<lparr>queue_db := (queue_db s)(k := None), finished_db := (finished_db s)(k \<mapsto> b)\<rparr>))"
  using assms
  by (auto simp: finalize_job_def db_try_def split: option.splits sum.splits)

lemma send_job_effect:
  assumes "send_job_with_new_status c w s k st j = (r, s')"
  shows "(r \<noteq> Ok () \<and> s' = s) \<or>
    (\<exists>b. status_ser c st = Inr b \<and>
       s' = s\<lparr>finished_db := (finished_db s)(k := None), queue_db := (queue_db s)(k \<mapsto> b),
              job_channel := (if receiver_open s then job_channel s @ [Some j] else job_channel s)\<rparr> \<and>
       (r = Ok () \<longleftrightarrow> receiver_open s))"
  using assms
  by (auto simp: send_job_with_new_status_def db_try_def chan_send_def
      split: option.splits sum.splits if_splits)

interpretation store: job_table queue_db finished_db "status_ser c"
  "finalize_job c w" "send_job_with_new_status c w"
  for c :: "('p, 'pk, 'vk, 'cl, 'z) crates_scheme" and w :: "('p, 'pk, 'vk, 'cl) world"
proof unfold_locales
  fix s :: "('pk, 'vk, 'cl) pda_runner" and k st r s'
  assume "finalize_job c w s k st = (r, s')"
  then show "(r \<noteq> Ok () \<and> s' = s) \<or>
      (r = Ok () \<and> (\<exists>b. status_ser c st = Inr b \<and> queue_db s' = (queue_db s)(k := None) \<and>
                       finished_db s' = (finished_db s)(k \<mapsto> b)))"
    by (auto dest: finalize_job_effect)
next
  fix s :: "('pk, 'vk, 'cl) pda_runner" and k st j r s'
  assume "send_job_with_new_status c w s k st j = (r, s')"
  then show "(r \<noteq> Ok () \<and> queue_db s' = queue_db s \<and> finished_db s' = finished_db s) \<or>
      (\<exists>b. status_ser c st = Inr b \<and> queue_db s' = (queue_db s)(k \<mapsto> b) \<and>
           finished_db s' = (finished_db s)(k := None))"
    by (auto dest: send_job_effect)
qed

end
