(* ===== verification/Runner.thy ===== *)
theory Runner
  imports Job_Store
begin

text \<open>
  The operations of \<open>PdaRunner\<close> (\<open>service/src/internal/runner.rs\<close>): the request for a verifiable
  encryption, the worker's processing of one job, the setup cache, the calls to the local prover
  and to the prover network, and the classification of prover errors.

  Each operation takes the crates, the world of this call and the runner's state, and returns its
  result with the new state.  Logging is left out.
\<close>

section \<open>Program identifier, clients and setup\<close>

definition get_program_id ::
  "('p, 'pk, 'vk, 'cl, 'z) crates_scheme \<Rightarrow> ('pk, 'vk, 'cl) pda_runner \<Rightarrow>
     bytes \<times> ('pk, 'vk, 'cl) pda_runner" where
  "get_program_id c s =
     (case chacha_id s of
        Some i \<Rightarrow> (i, s)
      | None \<Rightarrow> (let i = sha256 c (chacha_elf c) in (i, s\<lparr>chacha_id := Some i\<rparr>)))"

definition get_zk_client_local ::
  "('p, 'pk, 'vk, 'cl) world \<Rightarrow> ('pk, 'vk, 'cl) pda_runner \<Rightarrow>
     (pda_runner_error, 'cl) res \<times> ('pk, 'vk, 'cl) pda_runner" where
  "get_zk_client_local w s =
     (case zk_client_handle_local s of
        Some cl \<Rightarrow> (Ok cl, s)
      | None \<Rightarrow>
          (case client_from_env w of
             None \<Rightarrow> (Panic ''ProverClient::from_env'', s)
           | Some cl \<Rightarrow> (Ok cl, s\<lparr>zk_client_handle_local := Some cl\<rparr>)))"

definition get_zk_client_remote ::
  "('p, 'pk, 'vk, 'cl) world \<Rightarrow> ('pk, 'vk, 'cl) pda_runner \<Rightarrow>
     (pda_runner_error, 'cl) res \<times> ('pk, 'vk, 'cl) pda_runner" where
  "get_zk_client_remote w s =
     (case zk_client_handle_remote s of
        Some cl \<Rightarrow> (Ok cl, s)
      | None \<Rightarrow>
          (case client_network w of
             None \<Rightarrow> (Panic ''ProverClient::builder().network()'', s)
           | Some cl \<Rightarrow> (Ok cl, s\<lparr>zk_client_handle_remote := Some cl\<rparr>)))"

text \<open>
  The initialiser both setup functions pass to \<open>CHACHA_SETUP.get_or_try_init\<close>: take the setup from
  the config tree, or compute it on a blocking thread and store it.
\<close>

definition proof_setup_init ::
  "('p, 'pk, 'vk, 'cl, 'z) crates_scheme \<Rightarrow> ('p, 'pk, 'vk, 'cl) world \<Rightarrow>
     ('pk, 'vk, 'cl) pda_runner \<Rightarrow> bytes \<Rightarrow> 'cl \<Rightarrow>
     (pda_runner_error, ('pk, 'vk) sp1_proof_setup) res \<times> ('pk, 'vk, 'cl) pda_runner" where
  "proof_setup_init c w s zk_program_elf_sha2 cl =
     db_try w ConfigGet s
       (case config_db s zk_program_elf_sha2 of
          Some precomputed \<Rightarrow> ext_try (setup_de c precomputed) s (\<lambda>su. (Ok su, s))
        | None \<Rightarrow>
            ext_try (run_setup w cl (chacha_elf c)) s (\<lambda>tuple.
              let new_proof_setup = setup_from tuple
              in ext_try (setup_ser c new_proof_setup) s (\<lambda>b.
                 db_try w ConfigInsert s
                   (Ok new_proof_setup,
                    s\<lparr>config_db := (config_db s)(zk_program_elf_sha2 \<mapsto> b)\<rparr>))))"

definition get_proof_setup_local ::
  "('p, 'pk, 'vk, 'cl, 'z) crates_scheme \<Rightarrow> ('p, 'pk, 'vk, 'cl) world \<Rightarrow>
     ('pk, 'vk, 'cl) pda_runner \<Rightarrow> bytes \<Rightarrow> 'cl \<Rightarrow>
     (pda_runner_error, ('pk, 'vk) sp1_proof_setup) res \<times> ('pk, 'vk, 'cl) pda_runner" where
  "get_proof_setup_local c w s zk_program_elf_sha2 cl =
     (case chacha_setup s of
        Some su \<Rightarrow> (Ok su, s)
      | None \<Rightarrow>
          and_then (proof_setup_init c w s zk_program_elf_sha2 cl)
            (\<lambda>su s'. (Ok su, s'\<lparr>chacha_setup := Some su\<rparr>)))"

text \<open>The same text in the source, for the network client; the cell and the tree are shared.\<close>

definition get_proof_setup_remote ::
  "('p, 'pk, 'vk, 'cl, 'z) crates_scheme \<Rightarrow> ('p, 'pk, 'vk, 'cl) world \<Rightarrow>
     ('pk, 'vk, 'cl) pda_runner \<Rightarrow> bytes \<Rightarrow> 'cl \<Rightarrow>
     (pda_runner_error, ('pk, 'vk) sp1_proof_setup) res \<times> ('pk, 'vk, 'cl) pda_runner" where
  "get_proof_setup_remote c w s zk_program_elf_sha2 cl =
     (case chacha_setup s of
        Some su \<Rightarrow> (Ok su, s)
      | None \<Rightarrow>
          and_then (proof_setup_init c w s zk_program_elf_sha2 cl)
            (\<lambda>su s'. (Ok su, s'\<lparr>chacha_setup := Some su\<rparr>)))"

section \<open>Prover errors\<close>

text \<open>\<open>format!("<prefix>{zk_client_error} occurred for {job:?}<suffix>")\<close>.\<close>

definition zk_error_text :: "string \<Rightarrow> job \<Rightarrow> string \<Rightarrow> string \<Rightarrow> string" where
  "zk_error_text shown job prefix suffix =
     prefix @ shown @ '' occurred for '' @ job_debug job @ suffix"

text \<open>The error to report and the status to store, by the variant of the network error.\<close>

fun classify_zk_error ::
  "('p, 'pk, 'vk, 'cl, 'z) crates_scheme \<Rightarrow> sp1_network_error \<Rightarrow> job \<Rightarrow>
     pda_runner_error \<times> 'p job_status" where
  "classify_zk_error c zk_client_error job =
     (let text = zk_error_text (network_error_display c zk_client_error) job;
          critical = ZkClientError (text ''ZKP program critical failure: '' '' PLEASE REPORT!'');
          netfail = ZkClientError (text ''ZKP network failure: '' '' PLEASE REPORT!'');
          timeout = ZkClientError (text ''ZKP network: '' '' - callback to start the job over'')
      in case zk_client_error of
           SimulationFailed \<Rightarrow> (critical, Failed critical None)
         | RequestUnexecutable _ \<Rightarrow> (critical, Failed critical None)
         | RequestUnfulfillable _ \<Rightarrow> (netfail, Failed netfail None)
         | RequestTimedOut _ \<Rightarrow> (timeout, Failed timeout (Some RemoteZkProofRequesting))
         | RpcError _ \<Rightarrow> (netfail, Failed netfail (Some RemoteZkProofRequesting))
         | OtherNetworkError _ \<Rightarrow> (netfail, Failed netfail (Some RemoteZkProofRequesting)))"

declare classify_zk_error.simps [simp del]

definition handle_zk_client_error ::
  "('p, 'pk, 'vk, 'cl, 'z) crates_scheme \<Rightarrow> ('p, 'pk, 'vk, 'cl) world \<Rightarrow>
     ('pk, 'vk, 'cl) pda_runner \<Rightarrow> sp1_network_error \<Rightarrow> job \<Rightarrow> bytes \<Rightarrow>
     (pda_runner_error, pda_runner_error) res \<times> ('pk, 'vk, 'cl) pda_runner" where
  "handle_zk_client_error c w s zk_client_error job job_key =
     (case classify_zk_error c zk_client_error job of
        (e, job_status) \<Rightarrow>
          (case finalize_job c w s job_key job_status of
             (Ok _, s') \<Rightarrow> (Ok e, s')
           | (Err internal_err, s') \<Rightarrow> (Ok internal_err, s')
           | (Panic p, s') \<Rightarrow> (Panic p, s')))"

text \<open>
  The closure every prover call passes to \<open>map_err\<close>: an error that is a network error underneath
  finalises the job, any other error is only reported.
\<close>

definition prover_result ::
  "('p, 'pk, 'vk, 'cl, 'z) crates_scheme \<Rightarrow> ('p, 'pk, 'vk, 'cl) world \<Rightarrow>
     ('pk, 'vk, 'cl) pda_runner \<Rightarrow> job \<Rightarrow> bytes \<Rightarrow> prover_error + 'v \<Rightarrow>
     (pda_runner_error, 'v) res \<times> ('pk, 'vk, 'cl) pda_runner" where
  "prover_result c w s job job_key x =
     (case x of
        Inr v \<Rightarrow> (Ok v, s)
      | Inl (NetworkErr down) \<Rightarrow>
          and_then (handle_zk_client_error c w s down job job_key) (\<lambda>e s'. (Err e, s'))
      | Inl (UnhandledErr m) \<Rightarrow>
          (Err (ZkClientError (''Unhandled Error: '' @ m @ '' PLEASE REPORT'')), s))"

section \<open>Proving\<close>

text \<open>\<open>util::random_nonce\<close>; the shared crate has a function of its own for the command line tool.\<close>

definition util_random_nonce :: "(nat \<Rightarrow> bytes option) \<Rightarrow> ('e, bytes) res" where
  "util_random_nonce rng = expect ''Rng->buffer'' (rng 12)"

definition zk_proof_local ::
  "('p, 'pk, 'vk, 'cl, 'z) crates_scheme \<Rightarrow> ('p, 'pk, 'vk, 'cl) world \<Rightarrow>
     ('pk, 'vk, 'cl) pda_runner \<Rightarrow> bytes \<Rightarrow> job \<Rightarrow> bytes \<Rightarrow>
     (pda_runner_error, 'p sp1_proof) res \<times> ('pk, 'vk, 'cl) pda_runner" where
  "zk_proof_local c w s program_id job job_key =
     and_then (get_zk_client_local w s) (\<lambda>cl s1.
     and_then (get_proof_setup_local c w s1 program_id cl) (\<lambda>su s2.
     and_then (encryption_key c (env_var w), s2) (\<lambda>key s3.
     and_then (util_random_nonce (os_rng w), s3) (\<lambda>nonce s4.
       let stdin = [key, nonce, input_data (job_input job)]
       in prover_result c w s4 job job_key (run_prove w cl (setup_pk su) stdin)))))"

definition zk_proof_remote ::
  "('p, 'pk, 'vk, 'cl, 'z) crates_scheme \<Rightarrow> ('p, 'pk, 'vk, 'cl) world \<Rightarrow>
     ('pk, 'vk, 'cl) pda_runner \<Rightarrow> bytes \<Rightarrow> job \<Rightarrow> bytes \<Rightarrow>
     (pda_runner_error, bytes) res \<times> ('pk, 'vk, 'cl) pda_runner" where
  "zk_proof_remote c w s program_id job job_key =
     and_then (get_zk_client_remote w s) (\<lambda>cl s1.
     and_then (get_proof_setup_remote c w s1 program_id cl) (\<lambda>su s2.
     and_then (expect ''Missing SP1_FULFILLMENT_STRATEGY env var''
                 (env_var w ''SP1_FULFILLMENT_STRATEGY''), s2) (\<lambda>fs_string s3.
     and_then (ok_or (InternalError ''SP1_FULFILLMENT_STRATEGY env var malformed'')
                 (from_str_name c fs_string), s3) (\<lambda>strategy s4.
     and_then (encryption_key c (env_var w), s4) (\<lambda>key s5.
     and_then (util_random_nonce (os_rng w), s5) (\<lambda>nonce s6.
       let stdin = [key, nonce, input_data (job_input job)]
       in prover_result c w s6 job job_key
            (request_proof w cl (setup_pk su) stdin strategy (zk_proof_gen_timeout_remote s6))))))))"

definition wait_for_zk_proof ::
  "('p, 'pk, 'vk, 'cl, 'z) crates_scheme \<Rightarrow> ('p, 'pk, 'vk, 'cl) world \<Rightarrow>
     ('pk, 'vk, 'cl) pda_runner \<Rightarrow> job \<Rightarrow> bytes \<Rightarrow> bytes \<Rightarrow>
     (pda_runner_error, 'p sp1_proof) res \<times> ('pk, 'vk, 'cl) pda_runner" where
  "wait_for_zk_proof c w s job job_key request_id =
     and_then (get_zk_client_remote w s) (\<lambda>cl s1.
       prover_result c w s1 job job_key (wait_proof w cl request_id))"

text \<open>One step of a job in the worker, from the status the queue holds for it.\<close>

definition prove ::
  "('p, 'pk, 'vk, 'cl, 'z) crates_scheme \<Rightarrow> ('p, 'pk, 'vk, 'cl) world \<Rightarrow>
     ('pk, 'vk, 'cl) pda_runner \<Rightarrow> job \<Rightarrow>
     (pda_runner_error, unit) res \<times> ('pk, 'vk, 'cl) pda_runner" where
  "prove c w s job =
     ext_try (anchor_ser c (job_anchor job)) s (\<lambda>job_key.
     db_try w QueueGet s
       (case queue_db s job_key of
          None \<Rightarrow> (Ok (), s)
        | Some queue_data \<Rightarrow>
            ext_try (status_de c queue_data) s (\<lambda>job_status.
              case job_status of
                RemoteZkProofRequesting \<Rightarrow>
                  (case get_program_id c s of (pid, s1) \<Rightarrow>
                     (case zk_proof_remote c w s1 pid job job_key of
                        (Ok zk_job_id, s2) \<Rightarrow>
                          send_job_with_new_status c w s2 job_key (RemoteZkProofPending zk_job_id) job
                      | (Err e, s2) \<Rightarrow> (Ok (), s2)
                      | (Panic p, s2) \<Rightarrow> (Panic p, s2)))
              | RemoteZkProofPending zk_request_id \<Rightarrow>
                  (case wait_for_zk_proof c w s job job_key zk_request_id of
                     (Ok zk_proof, s1) \<Rightarrow> finalize_job c w s1 job_key (ZkProofFinished zk_proof)
                   | (Err e, s1) \<Rightarrow> (Ok (), s1)
                   | (Panic p, s1) \<Rightarrow> (Panic p, s1))
              | LocalZkProofPending \<Rightarrow>
                  (case get_program_id c s of (pid, s1) \<Rightarrow>
                     (case zk_proof_local c w s1 pid job job_key of
                        (Ok zk_proof, s2) \<Rightarrow> finalize_job c w s2 job_key (ZkProofFinished zk_proof)
                      | (Err e, s2) \<Rightarrow> (Ok (), s2)
                      | (Panic p, s2) \<Rightarrow> (Panic p, s2)))
              | _ \<Rightarrow> (Ok (), s))))"

section \<open>Requests\<close>

text \<open>The status a new job starts with, by the configured prover.\<close>

definition initial_status :: "string \<Rightarrow> (pda_runner_error, 'p job_status) res" where
  "initial_status prover_type =
     (if prover_type = ''network'' then Ok RemoteZkProofRequesting
      else if prover_type = ''cuda'' \<or> prover_type = ''cpu'' \<or> prover_type = ''mock''
      then Ok LocalZkProofPending
      else Err (InternalError (''SP1_PROVER is unkown: '' @ prover_type)))"

text \<open>The part of \<open>get_verifiable_encryption\<close> for a job that has an entry in the finished tree.\<close>

definition answer_finished ::
  "('p, 'pk, 'vk, 'cl, 'z) crates_scheme \<Rightarrow> ('p, 'pk, 'vk, 'cl) world \<Rightarrow>
     ('pk, 'vk, 'cl) pda_runner \<Rightarrow> job \<Rightarrow> bytes \<Rightarrow> 'p job_status \<Rightarrow>
     (pda_runner_error, 'p sp1_proof option) res \<times> ('pk, 'vk, 'cl) pda_runner" where
  "answer_finished c w s job job_key job_status =
     (case job_status of
        ZkProofFinished pf \<Rightarrow> (Ok (Some pf), s)
      | Failed e maybe_status \<Rightarrow>
          (case maybe_status of
             None \<Rightarrow> (Err (InternalError (error_debug e)), s)
           | Some retry_status \<Rightarrow>
               (case send_job_with_new_status c w s job_key retry_status job of
                  (Ok _, s') \<Rightarrow>
                    (Err (InternalError (''Retrying! Previous error: '' @ error_debug e)), s')
                | (Err e', s') \<Rightarrow>
                    (Err (InternalError
                       (''PLEASE REPORT! Internal error, cannot retry: '' @ error_debug e')), s')
                | (Panic p, s') \<Rightarrow> (Panic p, s')))
      | _ \<Rightarrow> (Err (InternalError ''PLEASE REPORT! Finished DB is in invalid state''), s))"

text \<open>The part for a job that is in the queue.\<close>

definition answer_queued ::
  "('p, 'pk, 'vk, 'cl, 'z) crates_scheme \<Rightarrow> ('pk, 'vk, 'cl) pda_runner \<Rightarrow> bytes \<Rightarrow> 'p job_status \<Rightarrow>
     (pda_runner_error, 'p sp1_proof option) res \<times> ('pk, 'vk, 'cl) pda_runner" where
  "answer_queued c s job_key job_status =
     (case job_status of
        LocalZkProofPending \<Rightarrow> (Ok None, s)
      | RemoteZkProofRequesting \<Rightarrow> (Ok None, s)
      | RemoteZkProofPending _ \<Rightarrow> (Ok None, s)
      | _ \<Rightarrow> (Err (InternalError (''0x'' @ hex_encode c job_key @
                 '' - Job queue is in invalid state'')), s))"

text \<open>The part for a new job: choose its status, enter it into the queue, wake the worker.\<close>

definition enqueue_new ::
  "('p, 'pk, 'vk, 'cl, 'z) crates_scheme \<Rightarrow> ('p, 'pk, 'vk, 'cl) world \<Rightarrow>
     ('pk, 'vk, 'cl) pda_runner \<Rightarrow> job \<Rightarrow> bytes \<Rightarrow>
     (pda_runner_error, 'p sp1_proof option) res \<times> ('pk, 'vk, 'cl) pda_runner" where
  "enqueue_new c w s job job_key =
     and_then (expect ''Missing SP1_PROVER env var'' (env_var w ''SP1_PROVER''), s) (\<lambda>prover_type s0.
     and_then (initial_status prover_type, s0) (\<lambda>status s1.
     ext_try (status_ser c status) s1 (\<lambda>b.
     db_try w QueueInsert s1
       (and_then (chan_send w (s1\<lparr>queue_db := (queue_db s1)(job_key \<mapsto> b)\<rparr>) (Some job))
          (\<lambda>_ s2. (Ok None, s2))))))"

definition get_verifiable_encryption ::
  "('p, 'pk, 'vk, 'cl, 'z) crates_scheme \<Rightarrow> ('p, 'pk, 'vk, 'cl) world \<Rightarrow>
     ('pk, 'vk, 'cl) pda_runner \<Rightarrow> job \<Rightarrow>
     (pda_runner_error, 'p sp1_proof option) res \<times> ('pk, 'vk, 'cl) pda_runner" where
  "get_verifiable_encryption c w s job =
     ext_try (anchor_ser c (job_anchor job)) s (\<lambda>job_key.
     db_try w FinishedGet s
       (case finished_db s job_key of
          Some proof_data \<Rightarrow>
            ext_try (status_de c proof_data) s (\<lambda>st. answer_finished c w s job job_key st)
        | None \<Rightarrow>
            db_try w QueueGet s
              (case queue_db s job_key of
                 Some queue_data \<Rightarrow>
                   ext_try (status_de c queue_data) s (\<lambda>st. answer_queued c s job_key st)
               | None \<Rightarrow> enqueue_new c w s job job_key)))"

section \<open>The two nonce functions agree\<close>

lemma util_random_nonce_same [simp]: "util_random_nonce rng = random_nonce rng"
  by (simp add: util_random_nonce_def random_nonce_def NONCE_LEN_def)

end
