(* ===== verification/Proxy.thy ===== *)
theory Proxy
  imports Runner
begin

text \<open>
  The proxy (\<open>service/src/main.rs\<close>): the handler of one HTTP request, from the authorization check
  over the encryption of submitted blobs to the decryption of the node's answer.

  JSON values (\<open>serde_json\<close>), blobs (\<open>celestia_types\<close>), header texts and URIs (\<open>http\<close>) belong to
  crates: a JSON value is of an opaque type \<open>'j\<close> with the accesses the code makes, a blob has the two
  fields the code touches and an opaque rest.  The record \<open>net\<close> holds these parameters, \<open>net_ok\<close> and
  \<open>blob_ok\<close> their laws.  The upstream node is a function from requests to answers.

  A handler returns an \<open>anyhow\<close> error as its text.
\<close>

section \<open>Parameters\<close>

record ('n, 'b) blob =
  blob_namespace :: 'n
  blob_data :: bytes
  blob_rest :: 'b

record ('j, 'n, 'b) net =
  json_from_slice :: "bytes \<Rightarrow> string + 'j"
  json_to_vec :: "'j \<Rightarrow> string + bytes" \<comment> \<open>\<open>to_vec\<close>, and the bytes of \<open>to_string\<close>\<close>
  json_get :: "'j \<Rightarrow> string \<Rightarrow> 'j option"
  json_set :: "'j \<Rightarrow> string \<Rightarrow> 'j \<Rightarrow> 'j" \<comment> \<open>assignment through \<open>get_mut\<close>\<close>
  json_as_str :: "'j \<Rightarrow> string option"
  json_as_array :: "'j \<Rightarrow> 'j list option"
  json_array :: "'j list \<Rightarrow> 'j"
  json_str :: "string \<Rightarrow> 'j"
  json_int :: "int \<Rightarrow> 'j"
  json_object :: "(string \<times> 'j) list \<Rightarrow> 'j"
  blob_from_value :: "'j \<Rightarrow> string + ('n, 'b) blob"
  blob_to_value :: "('n, 'b) blob \<Rightarrow> string + 'j"
  blobs_from_value :: "'j \<Rightarrow> string + ('n, 'b) blob list"
  blobs_to_value :: "('n, 'b) blob list \<Rightarrow> string + 'j"
  blob_new :: "'n \<Rightarrow> bytes \<Rightarrow> string + ('n, 'b) blob"
  header_to_str :: "bytes \<Rightarrow> string option"
  path_and_query :: "string \<Rightarrow> string option"
  uri_parse :: "string \<Rightarrow> string option"

section \<open>HTTP messages\<close>

text \<open>
  Header names are in lower case, as in \<open>HeaderMap\<close>.  The body of an incoming message is what
  \<open>collect\<close> yields: the bytes, or the error that broke the stream.
\<close>

type_synonym headers = "(string \<times> bytes) list"

record ('m, 'body) http_request =
  req_head :: 'm \<comment> \<open>method, version, extensions\<close>
  req_uri :: string
  req_headers :: headers
  req_body :: 'body

record 'body http_response =
  resp_status :: nat
  resp_headers :: headers
  resp_body :: 'body

definition header_get :: "headers \<Rightarrow> string \<Rightarrow> bytes option" where
  "header_get hs name = map_of hs name"

definition header_remove :: "headers \<Rightarrow> string \<Rightarrow> headers" where
  "header_remove hs name = filter (\<lambda>(k, v). k \<noteq> name) hs"

text \<open>The bytes of an ASCII text.\<close>

definition str_bytes :: "string \<Rightarrow> bytes" where
  "str_bytes s = map (\<lambda>ch. of_nat (of_char ch)) s"

section \<open>Responses of the proxy itself\<close>

definition new_response_from :: "bytes \<Rightarrow> nat \<Rightarrow> bytes http_response" where
  "new_response_from raw_json status =
     \<lparr>resp_status = status, resp_headers = [], resp_body = raw_json\<rparr>"

definition quote :: string where "quote = [CHR 0x22]"

definition pending_response :: "bytes http_response" where
  "pending_response =
     new_response_from (str_bytes
       (''{ '' @ quote @ ''id'' @ quote @ '': 1, '' @ quote @ ''jsonrpc'' @ quote @ '': '' @ quote @ ''2.0'' @
        quote @ '', '' @ quote @ ''status'' @ quote @ '': '' @ quote @
        ''[pda-proxy] Verifiable encryption processing... Call back for result'' @ quote @ '' }'')) 202"

definition bad_auth_response :: "bytes http_response" where
  "bad_auth_response =
     new_response_from (str_bytes
       (''{ '' @ quote @ ''id'' @ quote @ '': 1, '' @ quote @ ''jsonrpc'' @ quote @ '': '' @ quote @ ''2.0'' @
        quote @ '', '' @ quote @ ''error'' @ quote @ '': { '' @ quote @ ''message'' @ quote @ '': '' @ quote @
        ''Missing or malformed Authorization header. Expected format: Bearer <token>'' @ quote @
        '' } }'')) 401"

definition internal_error_response ::
  "('j, 'n, 'b) net \<Rightarrow> string \<Rightarrow> (string, bytes http_response) res" where
  "internal_error_response n error =
     (let json_obj = json_object n
            [(''id'', json_int n 1), (''jsonrpc'', json_str n ''2.0''),
             (''error'', json_object n
                [(''message'', json_str n (''[pda-proxy] internal error: '' @ error))])]
      in case json_to_vec n json_obj of
           Inl _ \<Rightarrow> Panic ''JSON serialization should never fail''
         | Inr body_string \<Rightarrow> Ok (new_response_from body_string 500))"

section \<open>Inbound\<close>

text \<open>
  The loop over the blobs of a submission.  \<open>ws i\<close> is the environment of the request for blob \<open>i\<close>.
  The first blob that has no proof yet ends the loop.
\<close>

fun encrypt_blobs ::
  "('p, 'pk, 'vk, 'cl, 'z) crates_scheme \<Rightarrow> ('j, 'n, 'b) net \<Rightarrow> (nat \<Rightarrow> ('p, 'pk, 'vk, 'cl) world) \<Rightarrow>
     ('pk, 'vk, 'cl) pda_runner \<Rightarrow> ('n, 'b) blob list \<Rightarrow> ('n, 'b) blob list \<Rightarrow>
     (string, ('n, 'b) blob list option) res \<times> ('pk, 'vk, 'cl) pda_runner" where
  "encrypt_blobs c n ws s [] encrypted_blobs = (Ok (Some encrypted_blobs), s)"
| "encrypt_blobs c n ws s (blob # blobs) encrypted_blobs =
     (case get_verifiable_encryption c (ws 0) s (job_of c (blob_data blob)) of
        (Ok (Some proof_with_values), s') \<Rightarrow>
          (case proof_ser c proof_with_values of
             Inl e \<Rightarrow> (Err e, s')
           | Inr encrypted_data \<Rightarrow>
               (case blob_new n (blob_namespace blob) encrypted_data of
                  Inl e \<Rightarrow> (Err e, s')
                | Inr encrypted_blob \<Rightarrow>
                    encrypt_blobs c n (\<lambda>i. ws (Suc i)) s' blobs (encrypted_blobs @ [encrypted_blob])))
      | (Ok None, s') \<Rightarrow> (Ok None, s')
      | (Err e, s') \<Rightarrow> (Err (error_display e), s')
      | (Panic p, s') \<Rightarrow> (Panic p, s'))"

text \<open>The branch \<open>"blob.Submit"\<close>: the new JSON body, \<open>None\<close> while a blob is pending.\<close>

definition intercept_submit ::
  "('p, 'pk, 'vk, 'cl, 'z) crates_scheme \<Rightarrow> ('j, 'n, 'b) net \<Rightarrow> (nat \<Rightarrow> ('p, 'pk, 'vk, 'cl) world) \<Rightarrow>
     ('pk, 'vk, 'cl) pda_runner \<Rightarrow> 'j \<Rightarrow> (string, 'j option) res \<times> ('pk, 'vk, 'cl) pda_runner" where
  "intercept_submit c n ws s body_json =
     (case json_get n body_json ''params'' of
        None \<Rightarrow> (Ok (Some body_json), s)
      | Some params_raw \<Rightarrow>
          (case json_as_array n params_raw of
             None \<Rightarrow> (Err ''Expected 'params' to be a JSON array'', s)
           | Some [] \<Rightarrow> (Ok (Some body_json), s)
           | Some (blobs_value # rest) \<Rightarrow>
               (case blobs_from_value n blobs_value of
                  Inl e \<Rightarrow> (Err e, s)
                | Inr blobs \<Rightarrow>
                    and_then (encrypt_blobs c n ws s blobs []) (\<lambda>x s'.
                      case x of
                        None \<Rightarrow> (Ok None, s')
                      | Some encrypted_blobs \<Rightarrow>
                          (case blobs_to_value n encrypted_blobs of
                             Inl e \<Rightarrow> (Err e, s')
                           | Inr v \<Rightarrow>
                               (Ok (Some (json_set n body_json ''params'' (json_array n (v # rest)))), s'))))))"

text \<open>
  The request to forward, if any, the method it names (the out-parameter \<open>request_method\<close>, empty
  before the call) and the runner's new state.
\<close>

definition inbound_handler ::
  "('p, 'pk, 'vk, 'cl, 'z) crates_scheme \<Rightarrow> ('j, 'n, 'b) net \<Rightarrow> (nat \<Rightarrow> ('p, 'pk, 'vk, 'cl) world) \<Rightarrow>
     ('pk, 'vk, 'cl) pda_runner \<Rightarrow> ('m, string + bytes) http_request \<Rightarrow>
     (string, ('m, bytes) http_request option) res \<times> string \<times> ('pk, 'vk, 'cl) pda_runner" where
  "inbound_handler c n ws s req =
     (case req_body req of
        Inl e \<Rightarrow> (Err e, [], s)
      | Inr body_bytes \<Rightarrow>
          (case json_from_slice n body_bytes of
             Inl e \<Rightarrow> (Err e, [], s)
           | Inr body_json \<Rightarrow>
               (let method = Option.bind (json_get n body_json ''method'') (json_as_str n);
                    request_method = (case method of None \<Rightarrow> [] | Some m \<Rightarrow> m)
                in case (if method = Some ''blob.Submit'' then intercept_submit c n ws s body_json
                         else (Ok (Some body_json), s)) of
                     (Err e, s') \<Rightarrow> (Err e, request_method, s')
                   | (Panic p, s') \<Rightarrow> (Panic p, request_method, s')
                   | (Ok None, s') \<Rightarrow> (Ok None, request_method, s')
                   | (Ok (Some body_json'), s') \<Rightarrow>
                       (case json_to_vec n body_json' of
                          Inl e \<Rightarrow> (Err e, request_method, s')
                        | Inr json_bytes \<Rightarrow>
                            (Ok (Some \<lparr>req_head = req_head req, req_uri = req_uri req,
                                       req_headers = header_remove (req_headers req) ''content-length'',
                                       req_body = json_bytes\<rparr>), request_method, s')))))"

section \<open>Outbound\<close>

text \<open>\<open>?\<close> on a runner's error inside an \<open>anyhow\<close> function.\<close>

definition anyhow :: "(pda_runner_error, 'a) res \<times> 's \<Rightarrow> (string, 'a) res \<times> 's" where
  "anyhow m = (map_err error_display (fst m), snd m)"

definition extract_verified_proof_output ::
  "('p, 'pk, 'vk, 'cl, 'z) crates_scheme \<Rightarrow> ('p, 'pk, 'vk, 'cl) world \<Rightarrow>
     ('pk, 'vk, 'cl) pda_runner \<Rightarrow> 'p sp1_proof \<Rightarrow>
     (string, zkvm_output) res \<times> ('pk, 'vk, 'cl) pda_runner" where
  "extract_verified_proof_output c w s pf =
     and_then (anyhow (get_zk_client_local w s)) (\<lambda>zk_client_local s1.
       case get_program_id c s1 of (pid, s2) \<Rightarrow>
         and_then (anyhow (get_proof_setup_local c w s2 pid zk_client_local)) (\<lambda>su s3.
           case sp1_verify c zk_client_local pf (setup_vk su) of
             Some e \<Rightarrow> (Err e, s3)
           | None \<Rightarrow> (from_bytes (public_values pf), s3)))"

definition verify_decrypt_blob ::
  "('p, 'pk, 'vk, 'cl, 'z) crates_scheme \<Rightarrow> ('p, 'pk, 'vk, 'cl) world \<Rightarrow>
     ('pk, 'vk, 'cl) pda_runner \<Rightarrow> ('n, 'b) blob \<Rightarrow> bytes \<Rightarrow>
     (string, ('n, 'b) blob) res \<times> ('pk, 'vk, 'cl) pda_runner" where
  "verify_decrypt_blob c w s blob key =
     (case proof_de c (blob_data blob) of
        Inl e \<Rightarrow> (Err e, s)
      | Inr pf \<Rightarrow>
          and_then (extract_verified_proof_output c w s pf) (\<lambda>out s'.
          and_then (chacha c key (zk_nonce out) (ciphertext out), s') (\<lambda>buffer s''.
            (Ok (blob\<lparr>blob_data := buffer\<rparr>), s''))))"

text \<open>The loop over the answer to \<open>blob.GetAll\<close>: the first failure ends it.\<close>

fun decrypt_all ::
  "('p, 'pk, 'vk, 'cl, 'z) crates_scheme \<Rightarrow> ('j, 'n, 'b) net \<Rightarrow> ('p, 'pk, 'vk, 'cl) world \<Rightarrow>
     ('pk, 'vk, 'cl) pda_runner \<Rightarrow> 'j list \<Rightarrow> bytes \<Rightarrow> 'j list \<Rightarrow>
     (string, 'j list) res \<times> ('pk, 'vk, 'cl) pda_runner" where
  "decrypt_all c n w s [] key plaintext_blobs = (Ok plaintext_blobs, s)"
| "decrypt_all c n w s (blob_val # rest) key plaintext_blobs =
     (case blob_from_value n blob_val of
        Inl e \<Rightarrow> (Err e, s)
      | Inr blob \<Rightarrow>
          (case verify_decrypt_blob c w s blob key of
             (Err e, s') \<Rightarrow> (Err e, s')
           | (Panic p, s') \<Rightarrow> (Panic p, s')
           | (Ok plain, s') \<Rightarrow>
               (case blob_to_value n plain of
                  Inl e \<Rightarrow> (Err e, s')
                | Inr v \<Rightarrow> decrypt_all c n w s' rest key (plaintext_blobs @ [v]))))"

text \<open>The block \<open>try_mutate_response\<close>: the mutated body.\<close>

definition try_mutate_response ::
  "('p, 'pk, 'vk, 'cl, 'z) crates_scheme \<Rightarrow> ('j, 'n, 'b) net \<Rightarrow> ('p, 'pk, 'vk, 'cl) world \<Rightarrow>
     ('pk, 'vk, 'cl) pda_runner \<Rightarrow> 'j \<Rightarrow> string \<Rightarrow> (string, 'j) res \<times> ('pk, 'vk, 'cl) pda_runner" where
  "try_mutate_response c n w s body_json request_method =
     (case json_get n body_json ''result'' of
        None \<Rightarrow> (Err ''Missing 'result' field'', s)
      | Some result_raw \<Rightarrow>
          and_then (encryption_key c (env_var w), s) (\<lambda>key s1.
            if request_method = ''blob.Get'' then
              (case blob_from_value n result_raw of
                 Inl e \<Rightarrow> (Err e, s1)
               | Inr blob \<Rightarrow>
                   and_then (verify_decrypt_blob c w s1 blob key) (\<lambda>plain s2.
                     case blob_to_value n plain of
                       Inl e \<Rightarrow> (Err e, s2)
                     | Inr v \<Rightarrow> (Ok (json_set n body_json ''result'' v), s2)))
            else if request_method = ''blob.GetAll'' then
              (case json_as_array n result_raw of
                 None \<Rightarrow> (Err ''Expected 'result' to be an array'', s1)
               | Some original_array \<Rightarrow>
                   and_then (decrypt_all c n w s1 original_array key []) (\<lambda>plaintext_blobs s2.
                     (Ok (json_set n body_json ''result'' (json_array n plaintext_blobs)), s2)))
            else (Ok body_json, s1)))"

definition outbound_handler ::
  "('p, 'pk, 'vk, 'cl, 'z) crates_scheme \<Rightarrow> ('j, 'n, 'b) net \<Rightarrow> ('p, 'pk, 'vk, 'cl) world \<Rightarrow>
     ('pk, 'vk, 'cl) pda_runner \<Rightarrow> (string + bytes) http_response \<Rightarrow> string \<Rightarrow>
     (string, bytes http_response) res \<times> ('pk, 'vk, 'cl) pda_runner" where
  "outbound_handler c n w s resp request_method =
     (case resp_body resp of
        Inl e \<Rightarrow> (Err e, s)
      | Inr body_bytes \<Rightarrow>
          if resp_status resp = 401 then (Ok bad_auth_response, s)
          else
            (case json_from_slice n body_bytes of
               Inl e \<Rightarrow> (Err e, s)
             | Inr body_json \<Rightarrow>
                 (case try_mutate_response c n w s body_json request_method of
                    (Panic p, s') \<Rightarrow> (Panic p, s')
                  | (Err e, s') \<Rightarrow>
                      (Ok \<lparr>resp_status = resp_status resp, resp_headers = resp_headers resp,
                           resp_body = body_bytes\<rparr>, s')
                  | (Ok body_json', s') \<Rightarrow>
                      (case json_to_vec n body_json' of
                         Inl e \<Rightarrow> (Err e, s')
                       | Inr json \<Rightarrow>
                           (Ok \<lparr>resp_status = resp_status resp,
                                resp_headers = header_remove (resp_headers resp) ''content-length'',
                                resp_body = json\<rparr>, s')))))"

section \<open>One request\<close>

definition upstream_uri :: "('j, 'n, 'b) net \<Rightarrow> env_vars \<Rightarrow> string \<Rightarrow> string \<Rightarrow> string" where
  "upstream_uri n env da_node_socket uri =
     (if env ''UNSAFE_HTTP_UPSTREAM'' \<noteq> None then ''http'' else ''https'') @ ''://'' @ da_node_socket @
     (case path_and_query n uri of Some x \<Rightarrow> x | None \<Rightarrow> ''/'')"

definition starts_with :: "string \<Rightarrow> string \<Rightarrow> bool" where
  "starts_with pre s \<longleftrightarrow> take (length pre) s = pre"

definition auth_ok :: "('j, 'n, 'b) net \<Rightarrow> headers \<Rightarrow> bool" where
  "auth_ok n hs =
     (case Option.bind (header_get hs ''authorization'') (header_to_str n) of
        None \<Rightarrow> False
      | Some auth \<Rightarrow> starts_with ''Bearer '' auth)"

text \<open>
  What one request leads to: the response, the request sent upstream, if any, and the runner's new
  state.  \<open>ws\<close> and \<open>w\<close> are the environments of the inbound and the outbound half, \<open>up\<close> is the node.
\<close>

record ('m, 's) outcome =
  out_response :: "(string, bytes http_response) res"
  forwarded :: "('m, bytes) http_request option"
  out_state :: 's

definition service ::
  "('p, 'pk, 'vk, 'cl, 'z) crates_scheme \<Rightarrow> ('j, 'n, 'b) net \<Rightarrow> env_vars \<Rightarrow>
     (nat \<Rightarrow> ('p, 'pk, 'vk, 'cl) world) \<Rightarrow> ('p, 'pk, 'vk, 'cl) world \<Rightarrow>
     (('m, bytes) http_request \<Rightarrow> string + (string + bytes) http_response) \<Rightarrow> string \<Rightarrow>
     ('pk, 'vk, 'cl) pda_runner \<Rightarrow> ('m, string + bytes) http_request \<Rightarrow>
     ('m, ('pk, 'vk, 'cl) pda_runner) outcome" where
  "service c n env ws w up da_node_socket s req0 =
     (case uri_parse n (upstream_uri n env da_node_socket (req_uri req0)) of
        None \<Rightarrow> \<lparr>out_response = Panic ''uri_string.parse().unwrap()'', forwarded = None, out_state = s\<rparr>
      | Some uri \<Rightarrow>
          (let plaintext_req = req0\<lparr>req_uri := uri\<rparr>
           in if \<not> auth_ok n (req_headers plaintext_req)
              then \<lparr>out_response = Ok bad_auth_response, forwarded = None, out_state = s\<rparr>
              else
                (case inbound_handler c n ws s plaintext_req of
                   (Panic p, _, s') \<Rightarrow> \<lparr>out_response = Panic p, forwarded = None, out_state = s'\<rparr>
                 | (Err e, _, s') \<Rightarrow>
                     \<lparr>out_response = internal_error_response n e, forwarded = None, out_state = s'\<rparr>
                 | (Ok None, _, s') \<Rightarrow>
                     \<lparr>out_response = Ok pending_response, forwarded = None, out_state = s'\<rparr>
                 | (Ok (Some wrapped_req), request_method, s') \<Rightarrow>
                     (case up wrapped_req of
                        Inl e \<Rightarrow>
                          \<lparr>out_response = internal_error_response n (''DA Client: '' @ e),
                           forwarded = Some wrapped_req, out_state = s'\<rparr>
                      | Inr resp \<Rightarrow>
                          (case outbound_handler c n w s' resp request_method of
                             (Ok returned, s'') \<Rightarrow>
                               \<lparr>out_response = Ok returned, forwarded = Some wrapped_req, out_state = s''\<rparr>
                           | (Err e, s'') \<Rightarrow>
                               \<lparr>out_response = internal_error_response n (''Outbound Handler: '' @ e),
                                forwarded = Some wrapped_req, out_state = s''\<rparr>
                           | (Panic p, s'') \<Rightarrow>
                               \<lparr>out_response = Panic p, forwarded = Some wrapped_req, out_state = s''\<rparr>)))))"

section \<open>Laws of the parameters\<close>

text \<open>
  Reading back what was written: \<open>from_slice\<close> after \<open>to_vec\<close>, a field after its assignment, the
  elements of an array, the JSON form of blobs.
\<close>

definition net_ok :: "('j, 'n, 'b) net \<Rightarrow> bool" where
  "net_ok n \<longleftrightarrow>
     (\<forall>j b. json_to_vec n j = Inr b \<longrightarrow> json_from_slice n b = Inr j) \<and>
     (\<forall>j k v. json_get n j k \<noteq> None \<longrightarrow> json_get n (json_set n j k v) k = Some v) \<and>
     (\<forall>j k v k'. k' \<noteq> k \<longrightarrow> json_get n (json_set n j k v) k' = json_get n j k') \<and>
     (\<forall>vs. json_as_array n (json_array n vs) = Some vs) \<and>
     (\<forall>bl v. blob_to_value n bl = Inr v \<longrightarrow> blob_from_value n v = Inr bl) \<and>
     (\<forall>bls v. blobs_to_value n bls = Inr v \<longrightarrow> blobs_from_value n v = Inr bls)"

text \<open>A new blob has the namespace and the data it was made of.\<close>

definition blob_ok :: "('j, 'n, 'b) net \<Rightarrow> bool" where
  "blob_ok n \<longleftrightarrow>
     (\<forall>ns d bl. blob_new n ns d = Inr bl \<longrightarrow> blob_namespace bl = ns \<and> blob_data bl = d)"

text \<open>JSON and blobs can always be serialised.\<close>

definition net_total :: "('j, 'n, 'b) net \<Rightarrow> bool" where
  "net_total n \<longleftrightarrow>
     (\<forall>j. \<exists>b. json_to_vec n j = Inr b) \<and> (\<forall>bl. \<exists>v. blob_to_value n bl = Inr v) \<and>
     (\<forall>bls. \<exists>v. blobs_to_value n bls = Inr v)"

end
