(* ===== verification/Runner_Effect.thy ===== *)
theory Runner_Effect
  imports Runner
begin

text \<open>
  What the operations of the runner do to the job table.  The relation \<open>job_move\<close> lists the five
  things that can happen to the trees and the channel in one call; the two effect theorems say that
  \<open>get_verifiable_encryption\<close> and \<open>prove\<close> do nothing else, whatever the environment answers, and
  that a proof they store is a proof of the guest's run on the job's own plaintext under the
  configured key.
\<close>

section \<open>The job table\<close>

definition table ::
  "('pk, 'vk, 'cl) pda_runner \<Rightarrow> tree \<times> tree \<times> job option list \<times> bool" where
  "table s = (queue_db s, finished_db s, job_channel s, receiver_open s)"

definition pushed :: "('pk, 'vk, 'cl) pda_runner \<Rightarrow> job \<Rightarrow> job option list" where
  "pushed s j = (if receiver_open s then job_channel s @ [Some j] else job_channel s)"

text \<open>A proof of the guest's run for the anchor under key \<open>k\<close>, made with the configured key.\<close>

definition genuine ::
  "('p, 'pk, 'vk, 'cl, 'z) crates_scheme \<Rightarrow> env_vars \<Rightarrow> ('pk \<Rightarrow> 'vk \<Rightarrow> bool) \<Rightarrow> bytes \<Rightarrow>
     'p sp1_proof \<Rightarrow> bool" where
  "genuine c E EK k pf \<longleftrightarrow>
     (\<exists>key nonce d. encryption_key c E = (Ok key :: (pda_runner_error, bytes) res) \<and>
        proof_ok c EK [key, nonce, d] pf \<and> vec_ser c (sha256 c d) = Inr k)"

definition requested ::
  "('p, 'pk, 'vk, 'cl, 'z) crates_scheme \<Rightarrow> env_vars \<Rightarrow> (bytes \<Rightarrow> bytes list \<Rightarrow> bool) \<Rightarrow>
     bytes \<Rightarrow> bytes \<Rightarrow> bool" where
  "requested c E RQ k rid \<longleftrightarrow>
     (\<exists>key nonce d. encryption_key c E = (Ok key :: (pda_runner_error, bytes) res) \<and>
        RQ rid [key, nonce, d] \<and> vec_ser c (sha256 c d) = Inr k)"

text \<open>What the queue and the finished tree may hold for a key.\<close>

definition queue_ok ::
  "('p, 'pk, 'vk, 'cl, 'z) crates_scheme \<Rightarrow> env_vars \<Rightarrow> (bytes \<Rightarrow> bytes list \<Rightarrow> bool) \<Rightarrow>
     bytes \<Rightarrow> 'p job_status \<Rightarrow> bool" where
  "queue_ok c E RQ k st \<longleftrightarrow>
     pending_status st \<and> (\<forall>rid. st = RemoteZkProofPending rid \<longrightarrow> requested c E RQ k rid)"

definition finished_ok ::
  "('p, 'pk, 'vk, 'cl, 'z) crates_scheme \<Rightarrow> env_vars \<Rightarrow> ('pk \<Rightarrow> 'vk \<Rightarrow> bool) \<Rightarrow> bytes \<Rightarrow>
     'p job_status \<Rightarrow> bool" where
  "finished_ok c E EK k st \<longleftrightarrow>
     final_status st \<and> (\<forall>pf. st = ZkProofFinished pf \<longrightarrow> genuine c E EK k pf)"

definition setup_inv ::
  "('p, 'pk, 'vk, 'cl, 'z) crates_scheme \<Rightarrow> ('pk \<Rightarrow> 'vk \<Rightarrow> bool) \<Rightarrow>
     ('pk, 'vk, 'cl) pda_runner \<Rightarrow> bool" where
  "setup_inv c EK s \<longleftrightarrow>
     (\<forall>su. chacha_setup s = Some su \<longrightarrow> EK (setup_pk su) (setup_vk su)) \<and>
     (\<forall>b. config_db s (sha256 c (chacha_elf c)) = Some b \<longrightarrow>
        (\<exists>su. setup_de c b = Inr su \<and> EK (setup_pk su) (setup_vk su))) \<and>
     (\<forall>i. chacha_id s = Some i \<longrightarrow> i = sha256 c (chacha_elf c))"

section \<open>Moves of a job\<close>

text \<open>A request moves new and failed jobs into the queue; a worker moves queued jobs on.\<close>

datatype actor = Requester | Worker

inductive job_move ::
  "('p, 'pk, 'vk, 'cl, 'z) crates_scheme \<Rightarrow> env_vars \<Rightarrow> ('pk \<Rightarrow> 'vk \<Rightarrow> bool) \<Rightarrow>
     (bytes \<Rightarrow> bytes list \<Rightarrow> bool) \<Rightarrow> actor \<Rightarrow> job \<Rightarrow>
     ('pk, 'vk, 'cl) pda_runner \<Rightarrow> ('pk, 'vk, 'cl) pda_runner \<Rightarrow> bool"
  for c E EK RQ a j s s' where
  stay: "table s' = table s \<Longrightarrow> job_move c E EK RQ a j s s'"
| enqueue: "a = Requester \<Longrightarrow> anchor_ser c (job_anchor j) = Inr k \<Longrightarrow> queue_db s k = None \<Longrightarrow> finished_db s k = None \<Longrightarrow>
    st = LocalZkProofPending \<or> st = RemoteZkProofRequesting \<Longrightarrow> status_ser c st = Inr b \<Longrightarrow>
    table s' = ((queue_db s)(k \<mapsto> b), finished_db s, pushed s j, receiver_open s) \<Longrightarrow>
    job_move c E EK RQ a j s s'"
| retry: "a = Requester \<Longrightarrow> anchor_ser c (job_anchor j) = Inr k \<Longrightarrow>
    lookup_status c (finished_db s) k = Some (Failed e (Some st)) \<Longrightarrow> status_ser c st = Inr b \<Longrightarrow>
    table s' = ((queue_db s)(k \<mapsto> b), (finished_db s)(k := None), pushed s j, receiver_open s) \<Longrightarrow>
    job_move c E EK RQ a j s s'"
| advance: "a = Worker \<Longrightarrow> anchor_ser c (job_anchor j) = Inr k \<Longrightarrow>
    lookup_status c (queue_db s) k = Some RemoteZkProofRequesting \<Longrightarrow> requested c E RQ k rid \<Longrightarrow>
    status_ser c (RemoteZkProofPending rid) = Inr b \<Longrightarrow>
    table s' = ((queue_db s)(k \<mapsto> b), (finished_db s)(k := None), pushed s j, receiver_open s) \<Longrightarrow>
    job_move c E EK RQ a j s s'"
| finish: "a = Worker \<Longrightarrow> anchor_ser c (job_anchor j) = Inr k \<Longrightarrow>
    lookup_status c (queue_db s) k = Some st0 \<Longrightarrow> pending_status st0 \<Longrightarrow> finished_ok c E EK k st \<Longrightarrow>
    st0 \<noteq> RemoteZkProofRequesting \<or> (\<exists>e f. st = Failed e f) \<Longrightarrow>
    status_ser c st = Inr b \<Longrightarrow>
    table s' = ((queue_db s)(k := None), (finished_db s)(k \<mapsto> b), job_channel s, receiver_open s) \<Longrightarrow>
    job_move c E EK RQ a j s s'"

inductive_cases job_moveE: "job_move c E EK RQ a j s s'"

section \<open>Clients, identifier and setup leave the table alone\<close>

lemma table_simps [simp]:
  "table (s\<lparr>config_db := x\<rparr>) = table s" "table (s\<lparr>chacha_setup := y\<rparr>) = table s"
  "table (s\<lparr>chacha_id := i\<rparr>) = table s" "table (s\<lparr>zk_client_handle_local := l\<rparr>) = table s"
  "table (s\<lparr>zk_client_handle_remote := l\<rparr>) = table s"
  by (simp_all add: table_def)

lemma table_eqD:
  "table s' = table s \<Longrightarrow> queue_db s' = queue_db s" "table s' = table s \<Longrightarrow> finished_db s' = finished_db s"
  "table s' = table s \<Longrightarrow> job_channel s' = job_channel s"
  "table s' = table s \<Longrightarrow> receiver_open s' = receiver_open s"
  "table s' = table s \<Longrightarrow> pushed s' j = pushed s j"
  by (auto simp: table_def pushed_def)

lemma get_program_id_effect:
  assumes "get_program_id c s = (pid, s')" and "setup_inv c EK s"
  shows "pid = sha256 c (chacha_elf c) \<and> table s' = table s \<and> setup_inv c EK s'"
  using assms by (auto simp: get_program_id_def setup_inv_def Let_def split: option.splits)

lemma get_zk_client_local_effect:
  assumes "get_zk_client_local w s = (r, s')" and "setup_inv c EK s"
  shows "table s' = table s \<and> setup_inv c EK s'"
  using assms by (auto simp: get_zk_client_local_def setup_inv_def split: option.splits)

lemma get_zk_client_remote_effect:
  assumes "get_zk_client_remote w s = (r, s')" and "setup_inv c EK s"
  shows "table s' = table s \<and> setup_inv c EK s'"
  using assms by (auto simp: get_zk_client_remote_def setup_inv_def split: option.splits)

lemma proof_setup_init_effect:
  assumes "proof_setup_init c w s (sha256 c (chacha_elf c)) cl = (r, s')"
    and "setup_inv c EK s" and "world_ok c E EK RQ w" and "bincode_ok c"
  shows "table s' = table s \<and> setup_inv c EK s' \<and>
    (\<forall>su. r = Ok su \<longrightarrow> EK (setup_pk su) (setup_vk su))"
proof -
  have new: "EK pk vk" if "run_setup w cl (chacha_elf c) = Inr (pk, vk)" for pk vk
    using assms(3) that by (auto simp: world_ok_def)
  show ?thesis
    using assms(1,2) new bincode_okD(3) [OF assms(4)]
    by (auto simp: proof_setup_init_def db_try_def ext_try_def setup_inv_def setup_from_def Let_def
        split: option.splits sum.splits)
qed

lemma get_proof_setup_effect:
  assumes "get_proof_setup_local c w s (sha256 c (chacha_elf c)) cl = (r, s') \<or>
           get_proof_setup_remote c w s (sha256 c (chacha_elf c)) cl = (r, s')"
    and "setup_inv c EK s" and "world_ok c E EK RQ w" and "bincode_ok c"
  shows "table s' = table s \<and> setup_inv c EK s' \<and>
    (\<forall>su. r = Ok su \<longrightarrow> EK (setup_pk su) (setup_vk su))"
proof (cases "chacha_setup s")
  case (Some su)
  with assms(1,2) show ?thesis
    by (auto simp: get_proof_setup_local_def get_proof_setup_remote_def setup_inv_def)
next
  case None
  obtain r1 s1 where init: "proof_setup_init c w s (sha256 c (chacha_elf c)) cl = (r1, s1)"
    by fastforce
  note eff = proof_setup_init_effect [OF init assms(2-4)]
  from assms(1) None init
  have "(\<exists>su. r1 = Ok su \<and> r = Ok su \<and> s' = s1\<lparr>chacha_setup := Some su\<rparr>) \<or>
        (s' = s1 \<and> (\<forall>su. r \<noteq> Ok su))"
    by (cases r1) (auto simp: get_proof_setup_local_def get_proof_setup_remote_def)
  with eff show ?thesis by (auto simp: setup_inv_def)
qed

section \<open>Prover calls\<close>

text \<open>The table after \<open>finalize_job\<close> with status \<open>st\<close>.\<close>

definition moved_to_finished ::
  "('p, 'pk, 'vk, 'cl, 'z) crates_scheme \<Rightarrow> bytes \<Rightarrow> 'p job_status \<Rightarrow>
     ('pk, 'vk, 'cl) pda_runner \<Rightarrow> ('pk, 'vk, 'cl) pda_runner \<Rightarrow> bool" where
  "moved_to_finished c k st s s' \<longleftrightarrow>
     (\<exists>b. status_ser c st = Inr b \<and>
        table s' = ((queue_db s)(k := None), (finished_db s)(k \<mapsto> b), job_channel s, receiver_open s))"

lemma moved_cong:
  "table s1 = table s \<Longrightarrow> moved_to_finished c k st s1 s' \<longleftrightarrow> moved_to_finished c k st s s'"
  by (auto simp: moved_to_finished_def table_def)

lemma finalize_job_moved:
  assumes "finalize_job c w s k st = (r, s')"
  shows "(s' = s \<or> moved_to_finished c k st s s') \<and> (setup_inv c EK s \<longrightarrow> setup_inv c EK s')"
  using finalize_job_effect [OF assms]
  by (auto simp: moved_to_finished_def table_def setup_inv_def)

lemma classify_final:
  assumes "classify_zk_error c z j = (e, st)"
  shows "final_status st \<and> (\<exists>r. st = Failed e r)"
  using assms by (cases z) (auto simp: classify_zk_error.simps Let_def)

lemma handle_zk_client_error_effect:
  assumes "handle_zk_client_error c w s z j k = (r, s')" and "setup_inv c EK s"
  shows "setup_inv c EK s' \<and>
    (s' = s \<or> (\<exists>e f. final_status (Failed e f) \<and> moved_to_finished c k (Failed e f) s s'))"
proof -
  obtain e st where cl: "classify_zk_error c z j = (e, st)" by fastforce
  obtain r1 s1 where fin: "finalize_job c w s k st = (r1, s1)" by fastforce
  have "s' = s1"
    using assms(1) cl fin by (cases r1) (auto simp: handle_zk_client_error_def)
  with finalize_job_moved [OF fin] classify_final [OF cl] assms(2) show ?thesis
    by blast
qed

lemma prover_result_effect:
  assumes "prover_result c w s j k x = (r, s')" and "setup_inv c EK s"
  shows "setup_inv c EK s' \<and> (\<forall>v. r = Ok v \<longrightarrow> x = Inr v \<and> s' = s) \<and>
    (s' = s \<or> (\<exists>e f. final_status (Failed e f) \<and> moved_to_finished c k (Failed e f) s s'))"
proof (cases x)
  case (Inr v)
  with assms show ?thesis by (auto simp: prover_result_def)
next
  case (Inl pe)
  show ?thesis
  proof (cases pe)
    case (UnhandledErr m)
    with Inl assms show ?thesis by (auto simp: prover_result_def)
  next
    case (NetworkErr z)
    obtain r1 s1 where h: "handle_zk_client_error c w s z j k = (r1, s1)" by fastforce
    with assms(1) Inl NetworkErr have "s' = s1 \<and> (\<forall>v. r \<noteq> Ok v)"
      by (cases r1) (auto simp: prover_result_def)
    with handle_zk_client_error_effect [OF h assms(2)] show ?thesis by blast
  qed
qed

text \<open>
  Both proving functions prepare a client, the setup, the key and a nonce, and then call the prover
  on the guest's three inputs; a failed preparation leaves the table alone.
\<close>

definition prover_called ::
  "('p, 'pk, 'vk, 'cl, 'z) crates_scheme \<Rightarrow> ('p, 'pk, 'vk, 'cl) world \<Rightarrow> env_vars \<Rightarrow>
     ('pk \<Rightarrow> 'vk \<Rightarrow> bool) \<Rightarrow> ('cl \<Rightarrow> 'pk \<Rightarrow> bytes list \<Rightarrow> prover_error + 'v) \<Rightarrow> job \<Rightarrow> bytes \<Rightarrow>
     ('pk, 'vk, 'cl) pda_runner \<Rightarrow> (pda_runner_error, 'v) res \<Rightarrow> ('pk, 'vk, 'cl) pda_runner \<Rightarrow> bool"
  where
  "prover_called c w E EK call j k s r s' \<longleftrightarrow>
     (\<exists>cl pk vk key nonce s2. table s2 = table s \<and> setup_inv c EK s2 \<and>
       EK pk vk \<and>
       encryption_key c E = (Ok key :: (pda_runner_error, bytes) res) \<and>
       prover_result c w s2 j k (call cl pk [key, nonce, input_data (job_input j)]) = (r, s'))"

lemma prover_calledI:
  assumes "prover_result c w s2 j k (call cl pk [key, nonce, input_data (job_input j)]) = (r, s')"
    and "encryption_key c E = (Ok key :: (pda_runner_error, bytes) res)"
    and "table s2 = table s" and "setup_inv c EK s2" and "EK pk vk"
  shows "prover_called c w E EK call j k s r s'"
  using assms unfolding prover_called_def by blast

lemma prover_called_effect:
  assumes "prover_called c w E EK call j k s r s'"
    and "\<forall>cl pk vk stdin v. EK pk vk \<longrightarrow> call cl pk stdin = Inr v \<longrightarrow> Good stdin v"
  shows "setup_inv c EK s' \<and>
    (\<forall>v. r = Ok v \<longrightarrow> table s' = table s \<and>
       (\<exists>key nonce. encryption_key c E = (Ok key :: (pda_runner_error, bytes) res) \<and>
          Good [key, nonce, input_data (job_input j)] v)) \<and>
    (table s' = table s \<or>
     (\<exists>e f. final_status (Failed e f) \<and> moved_to_finished c k (Failed e f) s s'))"
proof -
  from assms(1) obtain cl pk vk key nonce s2 where
      t: "table s2 = table s" and inv: "setup_inv c EK s2" and ek: "EK pk vk"
      and key: "encryption_key c E = (Ok key :: (pda_runner_error, bytes) res)"
      and pr: "prover_result c w s2 j k
        (call cl pk [key, nonce, input_data (job_input j)]) = (r, s')"
    unfolding prover_called_def by blast
  note eff = prover_result_effect [OF pr inv]
  have "Good [key, nonce, input_data (job_input j)] v" if "r = Ok v" for v
    using that eff assms(2) ek by blast
  with eff key t moved_cong [OF t] show ?thesis by metis
qed

lemma zk_proof_local_prepared:
  assumes "zk_proof_local c w s (sha256 c (chacha_elf c)) j k = (r, s')"
    and "setup_inv c EK s" and "world_ok c E EK RQ w" and "bincode_ok c"
  shows "((\<forall>v. r \<noteq> Ok v) \<and> table s' = table s \<and> setup_inv c EK s') \<or>
    prover_called c w E EK (run_prove w) j k s r s'"
proof -
  have env: "env_var w = E" using assms(3) by (simp add: world_ok_def)
  note su_eff = get_proof_setup_effect [OF disjI1 _ assms(3,4)]
  show ?thesis
    using assms(1,2) unfolding zk_proof_local_def env Let_def
    by (elim and_then_cases)
      (auto dest!: get_zk_client_local_effect [where EK = EK] su_eff intro: prover_calledI)
qed

lemma zk_proof_remote_prepared:
  assumes "zk_proof_remote c w s (sha256 c (chacha_elf c)) j k = (r, s')"
    and "setup_inv c EK s" and "world_ok c E EK RQ w" and "bincode_ok c"
  shows "((\<forall>v. r \<noteq> Ok v) \<and> table s' = table s \<and> setup_inv c EK s') \<or>
    (\<exists>strat t. prover_called c w E EK (\<lambda>cl pk stdin. request_proof w cl pk stdin strat t) j k s r s')"
proof -
  have env: "env_var w = E" using assms(3) by (simp add: world_ok_def)
  note su_eff = get_proof_setup_effect [OF disjI2 _ assms(3,4)]
  show ?thesis
    using assms(1,2) unfolding zk_proof_remote_def env Let_def
    by (elim and_then_cases)
      (auto dest!: get_zk_client_remote_effect [where EK = EK] su_eff
        intro!: exI prover_calledI [where call = "\<lambda>cl pk stdin. request_proof w cl pk stdin _ _"])
qed

lemma zk_proof_local_effect:
  assumes "zk_proof_local c w s (sha256 c (chacha_elf c)) j k = (r, s')"
    and "setup_inv c EK s" and "world_ok c E EK RQ w" and "bincode_ok c"
    and "job_wf c j" and "anchor_ser c (job_anchor j) = Inr k"
  shows "setup_inv c EK s' \<and> (\<forall>pf. r = Ok pf \<longrightarrow> table s' = table s \<and> genuine c E EK k pf) \<and>
    (table s' = table s \<or>
     (\<exists>e f. final_status (Failed e f) \<and> moved_to_finished c k (Failed e f) s s'))"
  using zk_proof_local_prepared [OF assms(1-4)]
proof (elim disjE)
  assume call: "prover_called c w E EK (run_prove w) j k s r s'"
  have "\<forall>cl pk vk stdin pf. EK pk vk \<longrightarrow> run_prove w cl pk stdin = Inr pf \<longrightarrow>
      proof_ok c EK stdin pf"
    using world_okD(4) [OF assms(3)] by blast
  note eff = prover_called_effect [where Good = "\<lambda>stdin pf. proof_ok c EK stdin pf",
      OF call this]
  have "vec_ser c (sha256 c (input_data (job_input j))) = Inr k"
    using assms(6) job_wfD [OF assms(5)] by (simp add: anchor_ser_def)
  with eff show ?thesis unfolding genuine_def by blast
qed auto

lemma zk_proof_remote_effect:
  assumes "zk_proof_remote c w s (sha256 c (chacha_elf c)) j k = (r, s')"
    and "setup_inv c EK s" and "world_ok c E EK RQ w" and "bincode_ok c"
    and "job_wf c j" and "anchor_ser c (job_anchor j) = Inr k"
  shows "setup_inv c EK s' \<and> (\<forall>rid. r = Ok rid \<longrightarrow> table s' = table s \<and> requested c E RQ k rid) \<and>
    (table s' = table s \<or>
     (\<exists>e f. final_status (Failed e f) \<and> moved_to_finished c k (Failed e f) s s'))"
  using zk_proof_remote_prepared [OF assms(1-4)]
proof (elim disjE exE)
  fix strat t
  let ?call = "\<lambda>cl pk stdin. request_proof w cl pk stdin strat t"
  assume call: "prover_called c w E EK ?call j k s r s'"
  have "\<forall>cl pk vk stdin rid. EK pk vk \<longrightarrow> ?call cl pk stdin = Inr rid \<longrightarrow> RQ rid stdin"
    using world_okD(5) [OF assms(3)] by blast
  note eff = prover_called_effect [where Good = "\<lambda>stdin rid. RQ rid stdin", OF call this]
  have "vec_ser c (sha256 c (input_data (job_input j))) = Inr k"
    using assms(6) job_wfD [OF assms(5)] by (simp add: anchor_ser_def)
  with eff show ?thesis unfolding requested_def by blast
qed auto

lemma wait_for_zk_proof_effect:
  assumes "wait_for_zk_proof c w s j k rid = (r, s')"
    and "setup_inv c EK s" and "world_ok c E EK RQ w" and "requested c E RQ k rid"
  shows "setup_inv c EK s' \<and> (\<forall>pf. r = Ok pf \<longrightarrow> table s' = table s \<and> genuine c E EK k pf) \<and>
    (table s' = table s \<or>
     (\<exists>e f. final_status (Failed e f) \<and> moved_to_finished c k (Failed e f) s s'))"
  using assms(1) unfolding wait_for_zk_proof_def
proof (cases rule: and_then_cases)
  case (fail x)
  with get_zk_client_remote_effect [OF fail(1) assms(2)] show ?thesis by auto
next
  case (ok cl s1)
  note eff1 = get_zk_client_remote_effect [OF ok(1) assms(2)]
  then have inv: "setup_inv c EK s1" and t: "table s1 = table s" by auto
  note eff2 = prover_result_effect [OF ok(2) inv]
  have "genuine c E EK k pf" if "wait_proof w cl rid = Inr pf" for pf
    using assms(4) world_okD(6) [OF assms(3) _ that] unfolding requested_def genuine_def by blast
  with eff2 t moved_cong [OF t] show ?thesis by metis
qed

section \<open>Effect of a worker step\<close>

lemma finalize_finish:
  assumes "finalize_job c w s1 k st = (r, s')" and "table s1 = table s" and "setup_inv c EK s1"
    and "anchor_ser c (job_anchor j) = Inr k" and "lookup_status c (queue_db s) k = Some st0"
    and "pending_status st0" and "finished_ok c E EK k st"
    and "st0 \<noteq> RemoteZkProofRequesting \<or> (\<exists>e f. st = Failed e f)"
  shows "setup_inv c EK s' \<and> job_move c E EK RQ Worker j s s'"
proof -
  from finalize_job_moved [OF assms(1)] assms(2,3)
  have inv: "setup_inv c EK s'" and m: "table s' = table s \<or> moved_to_finished c k st s s'"
    using moved_cong [OF assms(2)] by metis+
  from m have "job_move c E EK RQ Worker j s s'"
  proof
    assume "moved_to_finished c k st s s'"
    then show ?thesis
      using assms(4-8) unfolding moved_to_finished_def by (blast intro: job_move.finish)
  qed (rule job_move.stay)
  with inv show ?thesis by blast
qed

lemma failed_finish:
  assumes "table s' = table s \<or>
     (\<exists>e f. final_status (Failed e f :: 'p job_status) \<and> moved_to_finished c k (Failed e f) s s')"
    and "anchor_ser c (job_anchor j) = Inr k" and "lookup_status c (queue_db s) k = Some st0"
    and "pending_status st0"
  shows "job_move c E EK RQ Worker j s s'"
  using assms(1)
proof (elim disjE exE conjE)
  fix e and f :: "'p job_status option"
  assume "final_status (Failed e f)" and "moved_to_finished c k (Failed e f) s s'"
  moreover from this(1) have "finished_ok c E EK k (Failed e f)"
    by (simp add: finished_ok_def)
  ultimately show ?thesis
    using assms(2-4) unfolding moved_to_finished_def by (blast intro: job_move.finish)
qed (rule job_move.stay)

lemma prove_local_effect:
  assumes "zk_proof_local c w s1 (sha256 c (chacha_elf c)) j k = (x, s2)"
    and "(case x of Ok pf \<Rightarrow> finalize_job c w s2 k (ZkProofFinished pf)
          | Err e \<Rightarrow> (Ok (), s2) | Panic p \<Rightarrow> (Panic p, s2)) = (r, s')"
    and "table s1 = table s" and "setup_inv c EK s1" and "world_ok c E EK RQ w" and "bincode_ok c"
    and "job_wf c j" and "anchor_ser c (job_anchor j) = Inr k"
    and "lookup_status c (queue_db s) k = Some st0" and "pending_status st0"
    and "st0 \<noteq> RemoteZkProofRequesting"
  shows "setup_inv c EK s' \<and> job_move c E EK RQ Worker j s s'"
proof -
  note eff = zk_proof_local_effect [OF assms(1,4-8)]
  have t: "table s2 = table s \<or>
     (\<exists>e f. final_status (Failed e f) \<and> moved_to_finished c k (Failed e f) s s2)"
    using eff assms(3) moved_cong [OF assms(3)] by metis
  show ?thesis
  proof (cases x)
    case (Ok pf)
    with eff assms(3) have "table s2 = table s" "finished_ok c E EK k (ZkProofFinished pf)"
      by (auto simp: finished_ok_def)
    with Ok assms(2) eff show ?thesis
      using finalize_finish [OF _ _ _ assms(8-10) _ disjI1 [OF assms(11)]] by auto
  qed (use assms(2) eff failed_finish [OF t assms(8-10)] in auto)
qed

lemma prove_remote_effect:
  assumes "zk_proof_remote c w s1 (sha256 c (chacha_elf c)) j k = (x, s2)"
    and "(case x of Ok rid \<Rightarrow> send_job_with_new_status c w s2 k (RemoteZkProofPending rid) j
          | Err e \<Rightarrow> (Ok (), s2) | Panic p \<Rightarrow> (Panic p, s2)) = (r, s')"
    and "table s1 = table s" and "setup_inv c EK s1" and "world_ok c E EK RQ w" and "bincode_ok c"
    and "job_wf c j" and "anchor_ser c (job_anchor j) = Inr k"
    and "lookup_status c (queue_db s) k = Some RemoteZkProofRequesting"
  shows "setup_inv c EK s' \<and> job_move c E EK RQ Worker j s s'"
proof -
  note eff = zk_proof_remote_effect [OF assms(1,4-8)]
  have t: "table s2 = table s \<or>
     (\<exists>e f. final_status (Failed e f) \<and> moved_to_finished c k (Failed e f) s s2)"
    using eff assms(3) moved_cong [OF assms(3)] by metis
  show ?thesis
  proof (cases x)
    case (Ok rid)
    with eff assms(3) have t2: "table s2 = table s" and rq: "requested c E RQ k rid" by auto
    from Ok assms(2) have "send_job_with_new_status c w s2 k (RemoteZkProofPending rid) j = (r, s')"
      by simp
    from send_job_effect [OF this] show ?thesis
    proof (elim disjE exE conjE)
      fix b
      assume ser: "status_ser c (RemoteZkProofPending rid) = Inr b"
        and s': "s' = s2\<lparr>finished_db := (finished_db s2)(k := None), queue_db := (queue_db s2)(k \<mapsto> b),
          job_channel := (if receiver_open s2 then job_channel s2 @ [Some j] else job_channel s2)\<rparr>"
      have "table s' = ((queue_db s)(k \<mapsto> b), (finished_db s)(k := None), pushed s j, receiver_open s)"
        using t2 by (auto simp: s' table_def pushed_def)
      moreover have "setup_inv c EK s'" using eff by (simp add: s' setup_inv_def)
      ultimately show ?thesis using assms(8,9) rq ser by (blast intro: job_move.advance)
    qed (use eff t2 in \<open>auto intro: job_move.stay\<close>)
  qed (use assms(2,9) eff failed_finish [OF t assms(8)] in auto)
qed

lemma prove_wait_effect:
  assumes "wait_for_zk_proof c w s j k rid = (x, s1)"
    and "(case x of Ok pf \<Rightarrow> finalize_job c w s1 k (ZkProofFinished pf)
          | Err e \<Rightarrow> (Ok (), s1) | Panic p \<Rightarrow> (Panic p, s1)) = (r, s')"
    and "setup_inv c EK s" and "world_ok c E EK RQ w" and "requested c E RQ k rid"
    and "anchor_ser c (job_anchor j) = Inr k"
    and "lookup_status c (queue_db s) k = Some st0" and "pending_status st0"
    and "st0 \<noteq> RemoteZkProofRequesting"
  shows "setup_inv c EK s' \<and> job_move c E EK RQ Worker j s s'"
proof -
  note eff = wait_for_zk_proof_effect [OF assms(1,3-5)]
  show ?thesis
  proof (cases x)
    case (Ok pf)
    with eff have "table s1 = table s" "finished_ok c E EK k (ZkProofFinished pf)"
      by (auto simp: finished_ok_def)
    with Ok assms(2) eff show ?thesis
      using finalize_finish [OF _ _ _ assms(6-8) _ disjI1 [OF assms(9)]] by auto
  qed (use assms(2) eff failed_finish [OF _ assms(6-8)] in auto)
qed

theorem prove_effect:
  assumes "prove c w s j = (r, s')"
    and "setup_inv c EK s" and "world_ok c E EK RQ w" and "bincode_ok c" and "job_wf c j"
    and queue: "tree_all (entry_ok c (queue_ok c E RQ)) (queue_db s)"
  shows "setup_inv c EK s' \<and> job_move c E EK RQ Worker j s s'"
proof (cases "\<exists>k b. anchor_ser c (job_anchor j) = Inr k \<and> fault w QueueGet = None \<and> queue_db s k = Some b")
  case False
  then have "s' = s"
    using assms(1) by (auto simp: prove_def ext_try_def db_try_def split: sum.splits option.splits)
  with assms(2) show ?thesis by (auto intro: job_move.stay)
next
  case True
  then obtain k b where k: "anchor_ser c (job_anchor j) = Inr k" "fault w QueueGet = None"
    and b: "queue_db s k = Some b" by blast
  obtain st where st: "status_de c b = Inr st" and qok: "queue_ok c E RQ k st"
    using tree_allD [OF queue b] by (auto simp: entry_ok_def)
  have look: "lookup_status c (queue_db s) k = Some st" using b st by simp
  obtain s1 where pid: "get_program_id c s = (sha256 c (chacha_elf c), s1)"
    using get_program_id_effect [OF _ assms(2)] by (metis surj_pair)
  note eff1 = get_program_id_effect [OF pid assms(2)]
  show ?thesis
  proof (cases st)
    case LocalZkProofPending
    obtain x s2 where call: "zk_proof_local c w s1 (sha256 c (chacha_elf c)) j k = (x, s2)" by fastforce
    then show ?thesis
      using assms(1) k b st LocalZkProofPending pid look eff1
      by (intro prove_local_effect [OF call _ _ _ assms(3,4,5) k(1)])
        (auto simp: prove_def split: res.splits)
  next
    case RemoteZkProofRequesting
    obtain x s2 where call: "zk_proof_remote c w s1 (sha256 c (chacha_elf c)) j k = (x, s2)" by fastforce
    then show ?thesis
      using assms(1) k b st RemoteZkProofRequesting pid look eff1
      by (intro prove_remote_effect [OF call _ _ _ assms(3,4,5) k(1)])
        (auto simp: prove_def split: res.splits)
  next
    case (RemoteZkProofPending rid)
    obtain x s2 where call: "wait_for_zk_proof c w s j k rid = (x, s2)" by fastforce
    then show ?thesis
      using assms(1) k b st RemoteZkProofPending look qok
      by (intro prove_wait_effect [OF call _ assms(2,3) _ k(1) look])
        (auto simp: prove_def queue_ok_def split: res.splits)
  qed (use qok in \<open>auto simp: queue_ok_def\<close>)
qed

section \<open>Effect of a request\<close>

lemma enqueue_new_effect:
  assumes "enqueue_new c w s j k = (r, s')"
  shows "s' = s \<or> (\<exists>st b. (st = LocalZkProofPending \<or> st = RemoteZkProofRequesting) \<and>
     status_ser c st = Inr b \<and> s' = s\<lparr>queue_db := (queue_db s)(k \<mapsto> b), job_channel := pushed s j\<rparr>)"
proof -
  have st: "st = LocalZkProofPending \<or> st = RemoteZkProofRequesting"
    if "initial_status p = Ok st" for p and st :: "'a job_status"
    using that by (auto simp: initial_status_def split: if_splits)
  show ?thesis
    using assms unfolding enqueue_new_def
    by (elim and_then_cases)
      (auto simp: ext_try_def db_try_def chan_send_def pushed_def dest!: st
        split: sum.splits option.splits if_splits)
qed

lemma answer_finished_effect:
  assumes "answer_finished c w s j k st = (r, s')"
  shows "s' = s \<or> (\<exists>e st' b. st = Failed e (Some st') \<and> status_ser c st' = Inr b \<and>
     s' = s\<lparr>finished_db := (finished_db s)(k := None), queue_db := (queue_db s)(k \<mapsto> b),
            job_channel := pushed s j\<rparr>)"
proof (cases "\<exists>e st'. st = Failed e (Some st')")
  case False
  then show ?thesis
    using assms by (auto simp: answer_finished_def split: job_status.splits option.splits)
next
  case True
  then obtain e st' where st: "st = Failed e (Some st')" by blast
  obtain x t where send: "send_job_with_new_status c w s k st' j = (x, t)" by fastforce
  with assms st have "s' = t" by (auto simp: answer_finished_def split: res.splits)
  with send_job_effect [OF send] st show ?thesis by (auto simp: pushed_def)
qed

theorem get_verifiable_encryption_effect:
  assumes "get_verifiable_encryption c w s j = (r, s')" and "setup_inv c EK s"
  shows "setup_inv c EK s' \<and> job_move c E EK RQ Requester j s s'"
proof -
  have "s' = s \<or>
    (\<exists>k b st. anchor_ser c (job_anchor j) = Inr k \<and> finished_db s k = Some b \<and>
       status_de c b = Inr st \<and> answer_finished c w s j k st = (r, s')) \<or>
    (\<exists>k. anchor_ser c (job_anchor j) = Inr k \<and> finished_db s k = None \<and> queue_db s k = None \<and>
       enqueue_new c w s j k = (r, s'))"
    using assms(1)
    by (auto simp: get_verifiable_encryption_def ext_try_def db_try_def answer_queued_def
        split: sum.splits option.splits job_status.splits)
  then show ?thesis
  proof (elim disjE exE conjE)
    fix k b st
    assume k: "anchor_ser c (job_anchor j) = Inr k" and "finished_db s k = Some b"
      "status_de c b = Inr st" and ans: "answer_finished c w s j k st = (r, s')"
    then have "lookup_status c (finished_db s) k = Some st" by simp
    with answer_finished_effect [OF ans] k assms(2) show ?thesis
      by (auto simp: setup_inv_def table_def intro: job_move.retry job_move.stay)
  next
    fix k
    assume "anchor_ser c (job_anchor j) = Inr k" "finished_db s k = None" "queue_db s k = None"
      and enq: "enqueue_new c w s j k = (r, s')"
    with enqueue_new_effect [OF enq] assms(2) show ?thesis
      by (auto simp: setup_inv_def table_def intro: job_move.enqueue job_move.stay)
  qed (use assms(2) in \<open>auto intro: job_move.stay\<close>)
qed

end
