(* ===== verification/Transition.thy ===== *)
theory Transition
  imports Prelude
begin

text \<open>
  Transition systems: reachability, invariants and simulation.  The locales are the interfaces the
  runner's state machines implement: a system that provides an initial condition, a step relation
  and the two preservation laws gets its invariant in every reachable state; a system that
  simulates another gets the other's reachable states as the image of its own.
\<close>

section \<open>Reachable states\<close>

inductive reach :: "('s \<Rightarrow> bool) \<Rightarrow> ('s \<Rightarrow> 's \<Rightarrow> bool) \<Rightarrow> 's \<Rightarrow> bool"
  for init :: "'s \<Rightarrow> bool" and step :: "'s \<Rightarrow> 's \<Rightarrow> bool" where
  reach_init: "init s \<Longrightarrow> reach init step s"
| reach_step: "reach init step s \<Longrightarrow> step s t \<Longrightarrow> reach init step t"

text \<open>The states that can follow a given one.\<close>

abbreviation runs :: "('s \<Rightarrow> 's \<Rightarrow> bool) \<Rightarrow> 's \<Rightarrow> 's \<Rightarrow> bool" where
  "runs step s \<equiv> reach (\<lambda>u. u = s) step"

lemma runs_refl [intro!]: "runs step s s"
  by (rule reach_init) simp

lemma runs_one [intro]: "step s t \<Longrightarrow> runs step s t"
  by (rule reach_step [OF runs_refl])

lemma reach_runs:
  assumes "runs step s t" and "reach init step s"
  shows "reach init step t"
  using assms by (induction rule: reach.induct) (auto intro: reach_step)

lemmas runs_trans = reach_runs [where init = "\<lambda>u. u = s" for s]

lemma runs_then [trans]: "runs step s t \<Longrightarrow> runs step t u \<Longrightarrow> runs step s u"
  by (rule reach_runs)

lemma runs_first:
  assumes "step s t" and "runs step t u"
  shows "runs step s u"
  by (rule runs_trans [OF assms(2)]) (rule runs_one [where step = step, OF assms(1)])

section \<open>Invariants\<close>

locale invariant_system =
  fixes init :: "'s \<Rightarrow> bool"
    and step :: "'s \<Rightarrow> 's \<Rightarrow> bool"
    and inv :: "'s \<Rightarrow> bool"
  assumes inv_init: "init s \<Longrightarrow> inv s"
    and inv_step: "inv s \<Longrightarrow> step s t \<Longrightarrow> inv t"
begin

lemma reach_inv: "reach init step s \<Longrightarrow> inv s"
  by (induction rule: reach.induct) (auto intro: inv_init inv_step)

lemma reach_step_inv: "reach init step s \<Longrightarrow> step s t \<Longrightarrow> inv s \<and> inv t"
  using reach_inv inv_step by blast

end

text \<open>An invariant proved with the help of another one.\<close>

locale layered_invariant = invariant_system +
  fixes inv' :: "'s \<Rightarrow> bool"
  assumes inv'_init: "init s \<Longrightarrow> inv' s"
    and inv'_step: "inv s \<Longrightarrow> inv t \<Longrightarrow> inv' s \<Longrightarrow> step s t \<Longrightarrow> inv' t"
begin

sublocale both: invariant_system init step "\<lambda>s. inv s \<and> inv' s"
  by unfold_locales (auto intro: inv_init inv'_init inv_step inv'_step)

lemma reach_inv': "reach init step s \<Longrightarrow> inv' s"
  using both.reach_inv by blast

end

section \<open>Simulation\<close>

text \<open>
  Every step of the concrete system is matched by a step of the abstract one or leaves the
  abstract state alone (a stutter), in the states that satisfy the concrete invariant.
\<close>

locale simulation = invariant_system +
  fixes ainit :: "'a \<Rightarrow> bool"
    and astep :: "'a \<Rightarrow> 'a \<Rightarrow> bool"
    and abst :: "'s \<Rightarrow> 'a"
  assumes sim_init: "init s \<Longrightarrow> ainit (abst s)"
    and sim_step: "inv s \<Longrightarrow> step s t \<Longrightarrow> astep (abst s) (abst t) \<or> abst t = abst s"
begin

lemma reach_abst: "reach init step s \<Longrightarrow> reach ainit astep (abst s)"
proof (induction rule: reach.induct)
  case (reach_init s)
  then show ?case by (intro reach.reach_init sim_init)
next
  case (reach_step s t)
  then have "astep (abst s) (abst t) \<or> abst t = abst s"
    using reach_inv sim_step by blast
  with reach_step.IH show ?case
    by (auto intro: reach.reach_step)
qed

lemma abstract_safety:
  assumes "\<And>a. reach ainit astep a \<Longrightarrow> P a" and "reach init step s"
  shows "P (abst s)"
  using assms reach_abst by blast

end

end
