(* ===== verification/Runner_System.thy ===== *)
theory Runner_System
  imports Runner_Effect Transition "HOL-Library.Multiset"
begin

text \<open>
  The runner as a transition system: any number of requests, the worker's receive loop
  (\<open>job_worker\<close>), the tasks it spawns, the warm-up task, the verification of answers and the shutdown
  signal of \<open>main\<close>, in any order.  A step is one call of an operation, run to its end; the theory \<open>Runner_Race\<close> refines this
  to single database accesses.

  Invariants: the queue holds pending states only and the finished tree results only, each key is
  in at most one of them, every stored proof is genuine, every scheduled job is a queued job and is
  scheduled once.  Refinement: seen at one key, the system follows the life cycle of a job.
\<close>

section \<open>State\<close>

record ('pk, 'vk, 'cl) sys =
  sys_runner :: "('pk, 'vk, 'cl) pda_runner"
  running :: "job list" \<comment> \<open>spawned tasks that have not run\<close>
  exited :: bool

section \<open>The worker's loop and the warm-up task\<close>

text \<open>
  One turn of \<open>while let Some(Some(job)) = job_receiver.recv().await\<close>: a job is handed to a new
  task; the message \<open>None\<close> ends the loop, the trees are flushed and the process exits with every
  task that still runs.  On an empty channel the loop waits.
\<close>

definition job_worker_recv ::
  "('pk, 'vk, 'cl) sys \<Rightarrow> ('pk, 'vk, 'cl) sys option" where
  "job_worker_recv S =
     (case job_channel (sys_runner S) of
        [] \<Rightarrow> None
      | Some j # rest \<Rightarrow>
          Some (S\<lparr>sys_runner := (sys_runner S)\<lparr>job_channel := rest\<rparr>, running := running S @ [j]\<rparr>)
      | None # rest \<Rightarrow>
          Some (S\<lparr>sys_runner := (sys_runner S)\<lparr>job_channel := rest, receiver_open := False\<rparr>,
                  exited := True\<rparr>))"

definition warm_up ::
  "('p, 'pk, 'vk, 'cl, 'z) crates_scheme \<Rightarrow> ('p, 'pk, 'vk, 'cl) world \<Rightarrow>
     ('pk, 'vk, 'cl) pda_runner \<Rightarrow> (pda_runner_error, unit) res \<times> ('pk, 'vk, 'cl) pda_runner" where
  "warm_up c w s =
     (case get_program_id c s of (pid, s1) \<Rightarrow>
        and_then (get_zk_client_local w s1) (\<lambda>cl s2.
        and_then (get_zk_client_remote w s2) (\<lambda>cr s3.
          (let s4 = snd (get_proof_setup_local c w s3 pid cl);
               s5 = snd (get_proof_setup_remote c w s4 pid cr)
           in (Ok (), s5)))))"

text \<open>The client and the setup that \<open>extract_verified_proof_output\<close> of the proxy asks for.\<close>

definition verifier_setup ::
  "('p, 'pk, 'vk, 'cl, 'z) crates_scheme \<Rightarrow> ('p, 'pk, 'vk, 'cl) world \<Rightarrow>
     ('pk, 'vk, 'cl) pda_runner \<Rightarrow>
     (pda_runner_error, 'cl \<times> ('pk, 'vk) sp1_proof_setup) res \<times> ('pk, 'vk, 'cl) pda_runner" where
  "verifier_setup c w s =
     and_then (get_zk_client_local w s) (\<lambda>cl s1.
       case get_program_id c s1 of (pid, s2) \<Rightarrow>
         and_then (get_proof_setup_local c w s2 pid cl) (\<lambda>su s3. (Ok (cl, su), s3)))"

section \<open>Steps\<close>

inductive sys_step ::
  "('p, 'pk, 'vk, 'cl, 'z) crates_scheme \<Rightarrow> env_vars \<Rightarrow> ('pk \<Rightarrow> 'vk \<Rightarrow> bool) \<Rightarrow>
     (bytes \<Rightarrow> bytes list \<Rightarrow> bool) \<Rightarrow> ('pk, 'vk, 'cl) sys \<Rightarrow> ('pk, 'vk, 'cl) sys \<Rightarrow> bool"
  for c E EK RQ where
  request: "\<not> exited S \<Longrightarrow> world_ok c E EK RQ w \<Longrightarrow>
    get_verifiable_encryption c w (sys_runner S) (job_of c d) = (r, s') \<Longrightarrow>
    sys_step c E EK RQ S (S\<lparr>sys_runner := s'\<rparr>)"
| receive: "\<not> exited S \<Longrightarrow> job_worker_recv S = Some T \<Longrightarrow> sys_step c E EK RQ S T"
| work: "\<not> exited S \<Longrightarrow> world_ok c E EK RQ w \<Longrightarrow> running S = xs @ j # ys \<Longrightarrow>
    prove c w (sys_runner S) j = (r, s') \<Longrightarrow>
    sys_step c E EK RQ S (S\<lparr>sys_runner := s', running := xs @ ys\<rparr>)"
| warm: "\<not> exited S \<Longrightarrow> world_ok c E EK RQ w \<Longrightarrow> warm_up c w (sys_runner S) = (r, s') \<Longrightarrow>
    sys_step c E EK RQ S (S\<lparr>sys_runner := s'\<rparr>)"
| verify: "\<not> exited S \<Longrightarrow> world_ok c E EK RQ w \<Longrightarrow> verifier_setup c w (sys_runner S) = (r, s') \<Longrightarrow>
    sys_step c E EK RQ S (S\<lparr>sys_runner := s'\<rparr>)"
| signal: "\<not> exited S \<Longrightarrow> world_ok c E EK RQ w \<Longrightarrow>
    sys_step c E EK RQ S (S\<lparr>sys_runner := shutdown w (sys_runner S)\<rparr>)"

inductive_cases sys_stepE: "sys_step c E EK RQ S T"

section \<open>Invariants\<close>

definition table_inv ::
  "('p, 'pk, 'vk, 'cl, 'z) crates_scheme \<Rightarrow> env_vars \<Rightarrow> ('pk \<Rightarrow> 'vk \<Rightarrow> bool) \<Rightarrow>
     (bytes \<Rightarrow> bytes list \<Rightarrow> bool) \<Rightarrow> ('pk, 'vk, 'cl) pda_runner \<Rightarrow> bool" where
  "table_inv c E EK RQ s \<longleftrightarrow>
     tree_all (entry_ok c (queue_ok c E RQ)) (queue_db s) \<and>
     tree_all (entry_ok c (finished_ok c E EK)) (finished_db s)"

text \<open>Every key is the serialised hash of some data.\<close>

definition keys_ok ::
  "('p, 'pk, 'vk, 'cl, 'z) crates_scheme \<Rightarrow> ('pk, 'vk, 'cl) pda_runner \<Rightarrow> bool" where
  "keys_ok c s \<longleftrightarrow>
     (\<forall>k. queue_db s k \<noteq> None \<or> finished_db s k \<noteq> None \<longrightarrow> (\<exists>d. vec_ser c (sha256 c d) = Inr k))"

fun chan_jobs :: "job option list \<Rightarrow> job list" where
  "chan_jobs [] = []"
| "chan_jobs (Some j # ms) = j # chan_jobs ms"
| "chan_jobs (None # ms) = chan_jobs ms"

definition sys_jobs :: "('pk, 'vk, 'cl) sys \<Rightarrow> job list" where
  "sys_jobs S = chan_jobs (job_channel (sys_runner S)) @ running S"

definition sys_inv ::
  "('p, 'pk, 'vk, 'cl, 'z) crates_scheme \<Rightarrow> env_vars \<Rightarrow> ('pk \<Rightarrow> 'vk \<Rightarrow> bool) \<Rightarrow>
     (bytes \<Rightarrow> bytes list \<Rightarrow> bool) \<Rightarrow> ('pk, 'vk, 'cl) sys \<Rightarrow> bool" where
  "sys_inv c E EK RQ S \<longleftrightarrow>
     setup_inv c EK (sys_runner S) \<and> table_inv c E EK RQ (sys_runner S) \<and>
     disjoint_trees (queue_db (sys_runner S)) (finished_db (sys_runner S)) \<and>
     keys_ok c (sys_runner S) \<and> (\<forall>j \<in> set (sys_jobs S). job_wf c j)"

text \<open>The number of jobs of a list that have the key.\<close>

definition jobs_at ::
  "('p, 'pk, 'vk, 'cl, 'z) crates_scheme \<Rightarrow> bytes \<Rightarrow> job list \<Rightarrow> nat" where
  "jobs_at c k js = length (filter (\<lambda>j. anchor_ser c (job_anchor j) = Inr k) js)"

text \<open>How often the job of a key is in the channel or in a task.\<close>

definition scheduled ::
  "('p, 'pk, 'vk, 'cl, 'z) crates_scheme \<Rightarrow> ('pk, 'vk, 'cl) sys \<Rightarrow> bytes \<Rightarrow> nat" where
  "scheduled c S k = jobs_at c k (sys_jobs S)"

definition sched_inv ::
  "('p, 'pk, 'vk, 'cl, 'z) crates_scheme \<Rightarrow> ('pk, 'vk, 'cl) sys \<Rightarrow> bool" where
  "sched_inv c S \<longleftrightarrow>
     (\<forall>k. scheduled c S k \<le> 1 \<and> (0 < scheduled c S k \<longrightarrow> queue_db (sys_runner S) k \<noteq> None))"

text \<open>
  A process starts on the trees it finds: empty, or left by an earlier process under the same key.
\<close>

definition sys_init ::
  "('p, 'pk, 'vk, 'cl, 'z) crates_scheme \<Rightarrow> env_vars \<Rightarrow> ('pk \<Rightarrow> 'vk \<Rightarrow> bool) \<Rightarrow>
     (bytes \<Rightarrow> bytes list \<Rightarrow> bool) \<Rightarrow> ('pk, 'vk, 'cl) sys \<Rightarrow> bool" where
  "sys_init c E EK RQ S \<longleftrightarrow>
     (\<exists>t cdb qdb fdb. S = \<lparr>sys_runner = new_runner t cdb qdb fdb, running = [], exited = False\<rparr>) \<and>
     sys_inv c E EK RQ S"

section \<open>The life cycle of a job\<close>

datatype 'p phase = Absent | Queued "'p job_status" | Finished "'p job_status"

definition phase ::
  "('p, 'pk, 'vk, 'cl, 'z) crates_scheme \<Rightarrow> bytes \<Rightarrow> ('pk, 'vk, 'cl) pda_runner \<Rightarrow> 'p phase" where
  "phase c k s =
     (case lookup_status c (finished_db s) k of
        Some st \<Rightarrow> Finished st
      | None \<Rightarrow> (case lookup_status c (queue_db s) k of Some st \<Rightarrow> Queued st | None \<Rightarrow> Absent))"

fun phase_ok :: "'p phase \<Rightarrow> bool" where
  "phase_ok Absent = True"
| "phase_ok (Queued st) = pending_status st"
| "phase_ok (Finished st) = final_status st"

inductive phase_step :: "'p phase \<Rightarrow> 'p phase \<Rightarrow> bool" where
  start_local: "phase_step Absent (Queued LocalZkProofPending)"
| start_remote: "phase_step Absent (Queued RemoteZkProofRequesting)"
| requested: "phase_step (Queued RemoteZkProofRequesting) (Queued (RemoteZkProofPending rid))"
| proved_local: "phase_step (Queued LocalZkProofPending) (Finished (ZkProofFinished pf))"
| proved_remote: "phase_step (Queued (RemoteZkProofPending rid)) (Finished (ZkProofFinished pf))"
| failed: "pending_status st \<Longrightarrow> final_status (Failed e f) \<Longrightarrow> phase_step (Queued st) (Finished (Failed e f))"
| retried: "phase_step (Finished (Failed e (Some RemoteZkProofRequesting))) (Queued RemoteZkProofRequesting)"

inductive_simps phase_step_done:
  "phase_step (Finished (ZkProofFinished pf)) p" "phase_step (Finished (Failed e None)) p"

section \<open>Moves keep the invariants\<close>

lemma failed_retry_final:
  "final_status (Failed e (Some st)) \<Longrightarrow> st = RemoteZkProofRequesting"
  by (cases st) auto

lemma table_parts:
  "table s' = (q, f, ch, op) \<Longrightarrow>
     queue_db s' = q \<and> finished_db s' = f \<and> job_channel s' = ch \<and> receiver_open s' = op"
  by (simp add: table_def)

lemma table_same:
  "table s' = table s \<Longrightarrow> queue_db s' = queue_db s \<and> finished_db s' = finished_db s \<and>
     job_channel s' = job_channel s \<and> receiver_open s' = receiver_open s"
  by (simp add: table_def)

lemma lookup_entry:
  "lookup_status c t k = Some st \<Longrightarrow> tree_all (entry_ok c P) t \<Longrightarrow> P k st"
  by (fastforce simp: lookup_status_def tree_all_def entry_ok_def split: option.splits sum.splits)

lemma lookup_present: "lookup_status c t k = Some st \<Longrightarrow> t k \<noteq> None"
  by (auto simp: lookup_status_def split: option.splits)

text \<open>Writing an admissible status under a key keeps the entries of both trees admissible.\<close>

lemma table_inv_queue_upd:
  assumes "table_inv c E EK RQ s" and "bincode_ok c"
    and "status_ser c st = Inr b" and "queue_ok c E RQ k st"
    and "queue_db s' = (queue_db s)(k \<mapsto> b)"
    and "finished_db s' = finished_db s \<or> finished_db s' = (finished_db s)(k := None)"
  shows "table_inv c E EK RQ s'"
proof -
  have "entry_ok c (queue_ok c E RQ) k b" using assms(2-4) by (rule entry_ok_ser)
  with assms(1,5,6) show ?thesis
    by (elim disjE) (simp_all add: table_inv_def tree_all_upd tree_all_del)
qed

lemma table_inv_finished_upd:
  assumes "table_inv c E EK RQ s" and "bincode_ok c"
    and "status_ser c st = Inr b" and "finished_ok c E EK k st"
    and "queue_db s' = (queue_db s)(k := None)" and "finished_db s' = (finished_db s)(k \<mapsto> b)"
  shows "table_inv c E EK RQ s'"
proof -
  have "entry_ok c (finished_ok c E EK) k b" using assms(2-4) by (rule entry_ok_ser)
  with assms(1,5,6) show ?thesis by (simp add: table_inv_def tree_all_upd tree_all_del)
qed

lemma job_move_table_inv:
  assumes "job_move c E EK RQ a j s s'" and inv: "table_inv c E EK RQ s" and bin: "bincode_ok c"
  shows "table_inv c E EK RQ s'"
  using assms(1)
proof (cases rule: job_move.cases)
  case stay
  then show ?thesis using inv by (auto simp: table_inv_def dest!: table_same)
next
  case (enqueue k st b)
  have "queue_ok c E RQ k st" using enqueue(5) by (auto simp: queue_ok_def)
  with table_parts [OF enqueue(7)] show ?thesis
    using table_inv_queue_upd [OF inv bin enqueue(6)] by blast
next
  case (retry k e st b)
  then have "finished_ok c E EK k (Failed e (Some st))"
    using inv lookup_entry by (auto simp: table_inv_def)
  then have "queue_ok c E RQ k st"
    using failed_retry_final by (fastforce simp: finished_ok_def queue_ok_def)
  with table_parts [OF retry(5)] show ?thesis
    using table_inv_queue_upd [OF inv bin retry(4)] by blast
next
  case (advance k rid b)
  then have "queue_ok c E RQ k (RemoteZkProofPending rid)" by (simp add: queue_ok_def)
  with table_parts [OF advance(6)] show ?thesis
    using table_inv_queue_upd [OF inv bin advance(5)] by blast
next
  case (finish k st0 st b)
  with table_parts [OF finish(8)] show ?thesis
    using table_inv_finished_upd [OF inv bin finish(7)] by blast
qed

lemma job_move_disjoint:
  assumes "job_move c E EK RQ a j s s'" and "disjoint_trees (queue_db s) (finished_db s)"
  shows "disjoint_trees (queue_db s') (finished_db s')"
  using assms
  by (cases rule: job_move.cases)
    (auto dest!: table_same table_parts intro: disjoint_trees_move disjoint_trees_add)

lemma job_move_keys:
  assumes "job_move c E EK RQ a j s s'" and "keys_ok c s" and "job_wf c j"
  shows "keys_ok c s'"
proof -
  have j: "vec_ser c (sha256 c (input_data (job_input j))) = Inr k"
    if "anchor_ser c (job_anchor j) = Inr k" for k
    using that job_wfD [OF assms(3)] by (simp add: anchor_ser_def)
  show ?thesis
    using assms(1,2)
    by (cases rule: job_move.cases)
      (auto simp: keys_ok_def dest!: table_same table_parts j split: if_splits)
qed

lemma chan_jobs_append [simp]: "chan_jobs (xs @ ys) = chan_jobs xs @ chan_jobs ys"
  by (induction xs rule: chan_jobs.induct) auto

lemma chan_jobs_pushed: "chan_jobs (pushed s j) = chan_jobs (job_channel s) @ (if receiver_open s then [j] else [])"
  by (simp add: pushed_def)

lemma job_move_jobs:
  "job_move c E EK RQ a j s s' \<Longrightarrow> set (chan_jobs (job_channel s')) \<subseteq> insert j (set (chan_jobs (job_channel s)))"
  by (cases rule: job_move.cases) (auto simp: chan_jobs_pushed dest!: table_same table_parts split: if_splits)


section \<open>Steps of the system keep the invariants\<close>

lemma warm_up_effect:
  assumes "warm_up c w s = (r, s')" and "setup_inv c EK s" and "world_ok c E EK RQ w" and "bincode_ok c"
  shows "table s' = table s \<and> setup_inv c EK s'"
proof -
  obtain s1 where pid: "get_program_id c s = (sha256 c (chacha_elf c), s1)"
    using get_program_id_effect [OF _ assms(2)] by (metis surj_pair)
  note eff1 = get_program_id_effect [OF pid assms(2)]
  have both: "table (snd (get_proof_setup_remote c w
        (snd (get_proof_setup_local c w u (sha256 c (chacha_elf c)) cl)) (sha256 c (chacha_elf c)) cr)) = table u \<and>
      setup_inv c EK (snd (get_proof_setup_remote c w
        (snd (get_proof_setup_local c w u (sha256 c (chacha_elf c)) cl)) (sha256 c (chacha_elf c)) cr))"
    if "setup_inv c EK u" for u cl cr
    using that get_proof_setup_effect [OF disjI1 _ assms(3,4)] get_proof_setup_effect [OF disjI2 _ assms(3,4)]
    by (metis prod.collapse)
  from assms(1) pid show ?thesis
    unfolding warm_up_def Let_def
    by (simp, elim and_then_cases)
      (use eff1 both in \<open>auto dest!: get_zk_client_local_effect [where EK = EK and c = c]
        get_zk_client_remote_effect [where EK = EK and c = c]\<close>)
qed

lemma verifier_setup_effect:
  assumes "verifier_setup c w s = (r, s')" and "setup_inv c EK s" and "world_ok c E EK RQ w" and "bincode_ok c"
  shows "table s' = table s \<and> setup_inv c EK s'"
  using assms(1) unfolding verifier_setup_def
proof (cases rule: and_then_cases)
  case (fail x)
  then show ?thesis using get_zk_client_local_effect [OF fail(1) assms(2)] by simp
next
  case (ok cl s1)
  note eff1 = get_zk_client_local_effect [OF ok(1) assms(2)]
  obtain s2 where pid: "get_program_id c s1 = (sha256 c (chacha_elf c), s2)"
    using get_program_id_effect [of c s1] eff1 by (metis surj_pair)
  note eff2 = get_program_id_effect [OF pid conjunct2 [OF eff1]]
  obtain r3 s3 where su: "get_proof_setup_local c w s2 (sha256 c (chacha_elf c)) cl = (r3, s3)" by fastforce
  have "setup_inv c EK s2" using eff2 by blast
  note eff3 = get_proof_setup_effect [OF disjI1 [OF su] this assms(3,4)]
  have "s' = s3" using ok(2) pid su by (cases r3) auto
  with eff1 eff2 eff3 show ?thesis by simp
qed

text \<open>What one step does, seen from the job table.\<close>

lemma sys_step_cases:
  assumes "sys_step c E EK RQ S T" and inv: "sys_inv c E EK RQ S" and bin: "bincode_ok c"
  obtains (request) d where "setup_inv c EK (sys_runner T)" "running T = running S"
      "job_move c E EK RQ Requester (job_of c d) (sys_runner S) (sys_runner T)"
    | (work) xs j ys where "setup_inv c EK (sys_runner T)" "running S = xs @ j # ys" "running T = xs @ ys"
      "job_wf c j" "job_move c E EK RQ Worker j (sys_runner S) (sys_runner T)"
    | (other) "setup_inv c EK (sys_runner T)" "queue_db (sys_runner T) = queue_db (sys_runner S)"
      "finished_db (sys_runner T) = finished_db (sys_runner S)"
      "mset (sys_jobs T) = mset (sys_jobs S)"
  using assms(1)
proof (cases rule: sys_step.cases)
  case (request w d r s')
  then show ?thesis
    using get_verifiable_encryption_effect [OF request(4)] inv that(1)
    by (auto simp: sys_inv_def)
next
  case receive
  then show ?thesis
    using inv that(3)
    by (auto simp: job_worker_recv_def sys_inv_def sys_jobs_def setup_inv_def
        split: list.splits option.splits)
next
  case (work w xs j ys r s')
  have wf: "job_wf c j" using work inv by (auto simp: sys_inv_def sys_jobs_def)
  have queue: "tree_all (entry_ok c (queue_ok c E RQ)) (queue_db (sys_runner S))"
    using inv by (simp add: sys_inv_def table_inv_def)
  have "setup_inv c EK (sys_runner S)" using inv by (simp add: sys_inv_def)
  from prove_effect [OF work(5) this work(3) bin wf queue] show ?thesis
    using work(1,4) wf that(2) by simp
next
  case (warm w r s')
  then show ?thesis
    using warm_up_effect [OF warm(4) _ warm(3) bin] inv that(3)
    by (auto simp: sys_inv_def sys_jobs_def dest!: table_same)
next
  case (verify w r s')
  then show ?thesis
    using verifier_setup_effect [OF verify(4) _ verify(3) bin] inv that(3)
    by (auto simp: sys_inv_def sys_jobs_def dest!: table_same)
next
  case (signal w)
  then show ?thesis
    using inv that(3)
    by (auto simp: sys_inv_def sys_jobs_def shutdown_def chan_send_def setup_inv_def)
qed

lemma sys_inv_step:
  assumes "sys_step c E EK RQ S T" and inv: "sys_inv c E EK RQ S" and bin: "bincode_ok c"
  shows "sys_inv c E EK RQ T"
  using assms
proof (cases rule: sys_step_cases)
  case (request d)
  with inv job_move_jobs [OF request(3)] show ?thesis
    by (auto simp: sys_inv_def sys_jobs_def job_move_table_inv [OF _ _ bin] job_move_disjoint
        dest!: job_move_keys)
next
  case (work xs j ys)
  with inv job_move_jobs [OF work(5)] show ?thesis
    by (auto simp: sys_inv_def sys_jobs_def job_move_table_inv [OF _ _ bin] job_move_disjoint
        dest!: job_move_keys)
next
  case other
  from other(4) have "set (sys_jobs T) = set (sys_jobs S)" by (rule mset_eq_setD)
  with other(1-3) inv show ?thesis
    by (auto simp: sys_inv_def table_inv_def keys_ok_def)
qed

section \<open>A job is scheduled at most once\<close>

lemma jobs_at_simps [simp]:
  "jobs_at c k [] = 0" "jobs_at c k (xs @ ys) = jobs_at c k xs + jobs_at c k ys"
  "jobs_at c k (j # js) = (if anchor_ser c (job_anchor j) = Inr k then 1 else 0) + jobs_at c k js"
  by (simp_all add: jobs_at_def)

lemma scheduled_alt:
  "scheduled c S k = jobs_at c k (chan_jobs (job_channel (sys_runner S))) + jobs_at c k (running S)"
  by (simp add: scheduled_def sys_jobs_def)

lemma scheduled_mset: "mset (sys_jobs T) = mset (sys_jobs S) \<Longrightarrow> scheduled c T k = scheduled c S k"
  unfolding scheduled_def jobs_at_def by (metis mset_filter size_mset)

text \<open>
  A move schedules only the job it moves, and only into the queue; a job that leaves the queue must
  not be scheduled elsewhere.
\<close>

lemma job_move_sched:
  assumes "job_move c E EK RQ a j s s'" and "disjoint_trees (queue_db s) (finished_db s)"
    and once: "\<And>k. n k + jobs_at c k (chan_jobs (job_channel s)) \<le> 1"
    and queued: "\<And>k. 0 < n k + jobs_at c k (chan_jobs (job_channel s)) \<Longrightarrow> queue_db s k \<noteq> None"
    and worker: "\<And>k. a = Worker \<Longrightarrow> anchor_ser c (job_anchor j) = Inr k \<Longrightarrow>
      n k + jobs_at c k (chan_jobs (job_channel s)) = 0"
  shows "n k + jobs_at c k (chan_jobs (job_channel s')) \<le> 1 \<and>
    (0 < n k + jobs_at c k (chan_jobs (job_channel s')) \<longrightarrow> queue_db s' k \<noteq> None)"
proof -
  have pushed: "jobs_at c k (chan_jobs (pushed s j)) \<le> jobs_at c k (chan_jobs (job_channel s)) +
      (if anchor_ser c (job_anchor j) = Inr k then 1 else 0)" for k
    by (simp add: chan_jobs_pushed)
  have absent: "n k + jobs_at c k (chan_jobs (job_channel s)) = 0" if "queue_db s k = None" for k
    using queued [of k] that by (metis neq0_conv)
  show ?thesis
    using assms(1)
  proof (cases rule: job_move.cases)
    case stay
    then show ?thesis using once queued by (auto dest!: table_same)
  next
    case (enqueue k' st b)
    then show ?thesis
      using once [of k] queued [of k] absent [of k'] pushed [of k] table_parts [OF enqueue(7)]
      by (cases "k = k'") (auto simp: Inr_inject)
  next
    case (retry k' e st b)
    then have "queue_db s k' = None"
      using assms(2) lookup_present [OF retry(3)] by (auto simp: disjoint_trees_def)
    with retry show ?thesis
      using once [of k] queued [of k] absent [of k'] pushed [of k] table_parts [OF retry(5)]
      by (cases "k = k'") auto
  next
    case (advance k' rid b)
    then show ?thesis
      using once [of k] queued [of k] worker [of k'] pushed [of k] table_parts [OF advance(6)]
      by (cases "k = k'") auto
  next
    case (finish k' st0 st b)
    then show ?thesis
      using once [of k] queued [of k] worker [of k'] table_parts [OF finish(8)]
      by (cases "k = k'") auto
  qed
qed

lemma sched_inv_step:
  assumes "sys_step c E EK RQ S T" and inv: "sys_inv c E EK RQ S" and bin: "bincode_ok c"
    and sched: "sched_inv c S"
  shows "sched_inv c T"
  using assms(1-3)
proof (cases rule: sys_step_cases)
  case (request d)
  have "disjoint_trees (queue_db (sys_runner S)) (finished_db (sys_runner S))"
    using inv by (simp add: sys_inv_def)
  from job_move_sched [OF request(3) this, of "\<lambda>k. jobs_at c k (running S)"] show ?thesis
    using sched request(2) unfolding sched_inv_def scheduled_alt by (simp add: add.commute)
next
  case (work xs j ys)
  have dis: "disjoint_trees (queue_db (sys_runner S)) (finished_db (sys_runner S))"
    using inv by (simp add: sys_inv_def)
  let ?n = "\<lambda>k. jobs_at c k (running T)"
  let ?ch = "\<lambda>k. jobs_at c k (chan_jobs (job_channel (sys_runner S)))"
  have split: "scheduled c S k = ?n k + ?ch k + (if anchor_ser c (job_anchor j) = Inr k then 1 else 0)" for k
    using work(2,3) by (simp add: scheduled_alt)
  have one: "scheduled c S k \<le> 1" "0 < scheduled c S k \<Longrightarrow> queue_db (sys_runner S) k \<noteq> None" for k
    using sched by (auto simp: sched_inv_def)
  have rest: "?n k + ?ch k \<le> 1" "0 < ?n k + ?ch k \<Longrightarrow> queue_db (sys_runner S) k \<noteq> None"
    "anchor_ser c (job_anchor j) = Inr k \<Longrightarrow> ?n k + ?ch k = 0" for k
    using one [of k] unfolding split [of k] by (simp_all split: if_splits)
  have "?n k + jobs_at c k (chan_jobs (job_channel (sys_runner T))) \<le> 1 \<and>
    (0 < ?n k + jobs_at c k (chan_jobs (job_channel (sys_runner T))) \<longrightarrow>
       queue_db (sys_runner T) k \<noteq> None)" for k
    by (rule job_move_sched [where n = ?n, OF work(5) dis]) (fact rest(1), fact rest(2), rule rest(3))
  then show ?thesis unfolding sched_inv_def scheduled_alt by (simp add: add.commute)
next
  case other
  with sched show ?thesis unfolding sched_inv_def scheduled_mset [OF other(4)] by simp
qed

section \<open>The life cycle\<close>

lemma phase_cong:
  "queue_db s' k = queue_db s k \<Longrightarrow> finished_db s' k = finished_db s k \<Longrightarrow> phase c k s' = phase c k s"
  by (simp add: phase_def lookup_status_def cong: option.case_cong)

lemma phase_queued:
  "queue_db s k = Some b \<Longrightarrow> status_de c b = Inr st \<Longrightarrow> finished_db s k = None \<Longrightarrow> phase c k s = Queued st"
  by (simp add: phase_def)

lemma phase_finished:
  "finished_db s k = Some b \<Longrightarrow> status_de c b = Inr st \<Longrightarrow> phase c k s = Finished st"
  by (simp add: phase_def)

text \<open>Under the invariant the phase says what is in the trees.\<close>

lemma phase_cases:
  assumes "table_inv c E EK RQ s" and "disjoint_trees (queue_db s) (finished_db s)"
  obtains (absent) "phase c k s = Absent" "queue_db s k = None" "finished_db s k = None"
    | (queued) st b where "phase c k s = Queued st" "queue_db s k = Some b" "status_de c b = Inr st"
        "finished_db s k = None" "queue_ok c E RQ k st"
    | (finished) st b where "phase c k s = Finished st" "finished_db s k = Some b"
        "status_de c b = Inr st" "queue_db s k = None" "finished_ok c E EK k st"
proof (cases "finished_db s k")
  case (Some b)
  then obtain st where st: "status_de c b = Inr st" "finished_ok c E EK k st"
    using assms(1) unfolding table_inv_def entry_ok_def by (blast dest: tree_allD)
  moreover have "queue_db s k = None" using assms(2) Some by (auto simp: disjoint_trees_def)
  ultimately show ?thesis using finished phase_finished [OF Some st(1)] Some by blast
next
  case None
  note fin = this
  show ?thesis
  proof (cases "queue_db s k")
    case (Some b)
    then obtain st where st: "status_de c b = Inr st" "queue_ok c E RQ k st"
      using assms(1) unfolding table_inv_def entry_ok_def by (blast dest: tree_allD)
    with queued phase_queued [OF Some st(1) fin] Some fin show ?thesis by blast
  next
    case None
    with fin absent show ?thesis by (simp add: phase_def)
  qed
qed

lemma phase_ok_inv:
  assumes "table_inv c E EK RQ s" and "disjoint_trees (queue_db s) (finished_db s)"
  shows "phase_ok (phase c k s)"
  using assms by (cases rule: phase_cases [where k = k]) (auto simp: queue_ok_def finished_ok_def)

lemma job_move_phase:
  assumes "job_move c E EK RQ a j s s'" and bin: "bincode_ok c"
    and inv: "table_inv c E EK RQ s" and dis: "disjoint_trees (queue_db s) (finished_db s)"
  shows "phase_step (phase c k s) (phase c k s') \<or> phase c k s' = phase c k s"
  using assms(1)
proof (cases rule: job_move.cases)
  case stay
  then show ?thesis by (auto dest!: table_same intro: phase_cong)
next
  case (enqueue k' st b)
  note new = table_parts [OF enqueue(7)] bincode_okD(2) [OF bin enqueue(6)]
  have "phase c k' s = Absent" using enqueue(3,4) by (simp add: phase_def)
  moreover have "phase c k' s' = Queued st" using new enqueue(4) by (simp add: phase_queued)
  ultimately show ?thesis
    using new enqueue(5) phase_cong [of s' k s c] by (cases "k = k'") (auto intro: phase_step.intros)
next
  case (retry k' e st b)
  note new = table_parts [OF retry(5)] bincode_okD(2) [OF bin retry(4)]
  have old: "phase c k' s = Finished (Failed e (Some st))" using retry(3) by (simp add: phase_def)
  then have "st = RemoteZkProofRequesting"
    using phase_ok_inv [OF inv dis, of k'] failed_retry_final by simp
  moreover have "phase c k' s' = Queued st" using new by (simp add: phase_queued)
  ultimately show ?thesis
    using new old phase_cong [of s' k s c] by (cases "k = k'") (auto intro: phase_step.intros)
next
  case (advance k' rid b)
  note new = table_parts [OF advance(6)] bincode_okD(2) [OF bin advance(5)]
  have "finished_db s k' = None"
    using disjoint_treesD [OF dis lookup_present [OF advance(3)]] .
  then have "phase c k' s = Queued RemoteZkProofRequesting" using advance(3) by (simp add: phase_def)
  moreover have "phase c k' s' = Queued (RemoteZkProofPending rid)" using new by (simp add: phase_queued)
  ultimately show ?thesis
    using new phase_cong [of s' k s c] by (cases "k = k'") (auto intro: phase_step.intros)
next
  case (finish k' st0 st b)
  note new = table_parts [OF finish(8)] bincode_okD(2) [OF bin finish(7)]
  have "finished_db s k' = None"
    using disjoint_treesD [OF dis lookup_present [OF finish(3)]] .
  then have old: "phase c k' s = Queued st0" using finish(3) by (simp add: phase_def)
  have now: "phase c k' s' = Finished st" using new by (simp add: phase_finished)
  have "phase_step (Queued st0) (Finished st)"
    using finish(4,5,6) unfolding finished_ok_def
    by (cases st; cases st0) (auto intro: phase_step.intros)
  with old now show ?thesis
    using new phase_cong [of s' k s c] by (cases "k = k'") auto
qed

lemma sys_step_phase:
  assumes "sys_step c E EK RQ S T" and inv: "sys_inv c E EK RQ S" and bin: "bincode_ok c"
  shows "phase_step (phase c k (sys_runner S)) (phase c k (sys_runner T)) \<or>
    phase c k (sys_runner T) = phase c k (sys_runner S)"
proof -
  have parts: "table_inv c E EK RQ (sys_runner S)"
    "disjoint_trees (queue_db (sys_runner S)) (finished_db (sys_runner S))"
    using inv by (simp_all add: sys_inv_def)
  from assms show ?thesis
  proof (cases rule: sys_step_cases)
    case (request d)
    from job_move_phase [OF request(3) bin parts] show ?thesis .
  next
    case (work xs j ys)
    from job_move_phase [OF work(5) bin parts] show ?thesis .
  next
    case other
    then show ?thesis using phase_cong [of "sys_runner T" k "sys_runner S" c] by simp
  qed
qed

section \<open>The runner implements the interfaces of transition systems\<close>

text \<open>
  The laws of the serialiser are part of the initial condition, so that the interpretations have
  no hypothesis.
\<close>

definition start ::
  "('p, 'pk, 'vk, 'cl, 'z) crates_scheme \<Rightarrow> env_vars \<Rightarrow> ('pk \<Rightarrow> 'vk \<Rightarrow> bool) \<Rightarrow>
     (bytes \<Rightarrow> bytes list \<Rightarrow> bool) \<Rightarrow> ('pk, 'vk, 'cl) sys \<Rightarrow> bool" where
  "start c E EK RQ S \<longleftrightarrow> bincode_ok c \<and> sys_init c E EK RQ S"

abbreviation reachable ::
  "('p, 'pk, 'vk, 'cl, 'z) crates_scheme \<Rightarrow> env_vars \<Rightarrow> ('pk \<Rightarrow> 'vk \<Rightarrow> bool) \<Rightarrow>
     (bytes \<Rightarrow> bytes list \<Rightarrow> bool) \<Rightarrow> ('pk, 'vk, 'cl) sys \<Rightarrow> bool" where
  "reachable c E EK RQ \<equiv> reach (start c E EK RQ) (sys_step c E EK RQ)"

lemma start_sched: "start c E EK RQ S \<Longrightarrow> sched_inv c S"
  unfolding start_def sys_init_def sched_inv_def scheduled_def sys_jobs_def
  by (elim conjE exE) (simp add: new_runner_def)

lemma start_inv: "start c E EK RQ S \<Longrightarrow> bincode_ok c \<and> sys_inv c E EK RQ S"
  by (simp add: start_def sys_init_def)

interpretation runner_sys: layered_invariant "start c E EK RQ" "sys_step c E EK RQ"
  "\<lambda>S. bincode_ok c \<and> sys_inv c E EK RQ S" "sched_inv c"
  for c :: "('p, 'pk, 'vk, 'cl, 'z) crates_scheme" and E EK RQ
  by unfold_locales (auto dest: start_inv start_sched sys_inv_step sched_inv_step)

interpretation life_cycle: simulation "start c E EK RQ" "sys_step c E EK RQ"
  "\<lambda>S. bincode_ok c \<and> sys_inv c E EK RQ S" phase_ok phase_step "\<lambda>S. phase c k (sys_runner S)"
  for c :: "('p, 'pk, 'vk, 'cl, 'z) crates_scheme" and E EK RQ k
proof unfold_locales
  fix S assume "start c E EK RQ S"
  then show "phase_ok (phase c k (sys_runner S))"
    by (auto simp: start_def sys_init_def sys_inv_def intro: phase_ok_inv)
next
  fix S T
  assume "bincode_ok c \<and> sys_inv c E EK RQ S" and "sys_step c E EK RQ S T"
  then show "phase_step (phase c k (sys_runner S)) (phase c k (sys_runner T)) \<or>
      phase c k (sys_runner T) = phase c k (sys_runner S)"
    using sys_step_phase by blast
qed

lemma reachable_parts:
  assumes "reachable c E EK RQ S"
  shows "bincode_ok c" "setup_inv c EK (sys_runner S)" "table_inv c E EK RQ (sys_runner S)"
    "disjoint_trees (queue_db (sys_runner S)) (finished_db (sys_runner S))"
    "keys_ok c (sys_runner S)" "\<And>j. j \<in> set (sys_jobs S) \<Longrightarrow> job_wf c j" "sched_inv c S"
  using runner_sys.reach_inv [OF assms] runner_sys.reach_inv' [OF assms] by (auto simp: sys_inv_def)

end
