(* ===== verification/Runner_Live.thy ===== *)
theory Runner_Live
  imports Runner_System
begin

text \<open>
  Progress of jobs.  When the database, the key and the provers work (\<open>world_up\<close>), a worker step
  takes a job to the next state of its life cycle and never loses it; so from every reachable
  state a scheduled job can be driven to its proof.  The lemmas follow the calls of \<open>prove\<close>.
\<close>

section \<open>A working environment\<close>

definition world_up ::
  "('p, 'pk, 'vk, 'cl, 'z) crates_scheme \<Rightarrow> (bytes \<Rightarrow> bytes list \<Rightarrow> bool) \<Rightarrow>
     ('p, 'pk, 'vk, 'cl) world \<Rightarrow> bool" where
  "world_up c RQ w \<longleftrightarrow>
     (\<forall>op. fault w op = None) \<and> client_from_env w \<noteq> None \<and> client_network w \<noteq> None \<and>
     os_rng w NONCE_LEN \<noteq> None \<and>
     (\<exists>key. encryption_key c (env_var w) = (Ok key :: (pda_runner_error, bytes) res)) \<and>
     (\<exists>fs strat. env_var w ''SP1_FULFILLMENT_STRATEGY'' = Some fs \<and> from_str_name c fs = Some strat) \<and>
     (\<forall>cl elf. \<exists>x. run_setup w cl elf = Inr x) \<and>
     (\<forall>cl pk stdin out. program_main c stdin = Ok out \<longrightarrow> (\<exists>pf. run_prove w cl pk stdin = Inr pf)) \<and>
     (\<forall>cl pk stdin strat t out. program_main c stdin = Ok out \<longrightarrow>
        (\<exists>rid. request_proof w cl pk stdin strat t = Inr rid)) \<and>
     (\<forall>cl rid stdin. RQ rid stdin \<longrightarrow> (\<exists>pf. wait_proof w cl rid = Inr pf))"

text \<open>The plaintext of a job is within the key stream.\<close>

definition job_fits :: "(nat \<Rightarrow> bool) \<Rightarrow> job \<Rightarrow> bool" where
  "job_fits fits j \<longleftrightarrow> fits (length (input_data (job_input j)))"

text \<open>The laws progress needs.\<close>

definition laws_up ::
  "('p, 'pk, 'vk, 'cl, 'z) crates_scheme \<Rightarrow> (bytes \<Rightarrow> bytes \<Rightarrow> nat \<Rightarrow> byte) \<Rightarrow> (nat \<Rightarrow> bool) \<Rightarrow> bool" where
  "laws_up c ks fits \<longleftrightarrow> bincode_ok c \<and> bincode_total c \<and> hex_ok c \<and> keystream_ok c ks fits"

section \<open>Preparation succeeds\<close>

lemma guest_accepts:
  assumes "laws_up c ks fits" and "encryption_key c E = (Ok key :: (pda_runner_error, bytes) res)"
    and "length nonce = NONCE_LEN" and "fits (length pt)"
  shows "\<exists>out. program_main c [key, nonce, pt] = Ok out"
proof -
  have "hex_ok c" and ks: "keystream_ok c ks fits" using assms(1) by (simp_all add: laws_up_def)
  then show ?thesis
    using assms(3,4) encryption_key_len [OF _ assms(2)]
    by (simp add: program_main_three chacha_ok [OF ks])
qed

lemma get_zk_client_local_up:
  "world_up c RQ w \<Longrightarrow> \<exists>cl s'. get_zk_client_local w s = (Ok cl, s')"
  by (auto simp: world_up_def get_zk_client_local_def split: option.splits)

lemma get_zk_client_remote_up:
  "world_up c RQ w \<Longrightarrow> \<exists>cl s'. get_zk_client_remote w s = (Ok cl, s')"
  by (auto simp: world_up_def get_zk_client_remote_def split: option.splits)

lemma proof_setup_init_up:
  assumes "world_up c RQ w" and "laws_up c ks fits" and "setup_inv c EK s"
  shows "\<exists>su s'. proof_setup_init c w s (sha256 c (chacha_elf c)) cl = (Ok su, s')"
proof (cases "config_db s (sha256 c (chacha_elf c))")
  case (Some b)
  then obtain su where "setup_de c b = Inr su" using assms(3) by (auto simp: setup_inv_def)
  with Some assms(1) show ?thesis by (simp add: proof_setup_init_def world_up_def)
next
  case None
  obtain x where x: "run_setup w cl (chacha_elf c) = Inr x"
    using assms(1) unfolding world_up_def by blast
  obtain b where "setup_ser c (setup_from x) = Inr b"
    using assms(2) unfolding laws_up_def bincode_total_def by blast
  with None x assms(1) show ?thesis by (simp add: proof_setup_init_def world_up_def Let_def)
qed

lemma get_proof_setup_up:
  assumes "world_up c RQ w" and "laws_up c ks fits" and "setup_inv c EK s"
  shows "\<exists>su s'. get_proof_setup_local c w s (sha256 c (chacha_elf c)) cl = (Ok su, s')"
    and "\<exists>su s'. get_proof_setup_remote c w s (sha256 c (chacha_elf c)) cl = (Ok su, s')"
  using proof_setup_init_up [OF assms, of cl]
  by (auto simp: get_proof_setup_local_def get_proof_setup_remote_def split: option.splits)

lemma random_nonce_up:
  assumes "world_up c RQ w" and "world_ok c E EK RQ w"
  shows "\<exists>nonce. random_nonce (os_rng w) = Ok nonce \<and> length nonce = NONCE_LEN"
  using assms world_okD(2) [OF assms(2)] by (auto simp: world_up_def random_nonce_def)

section \<open>The prover calls succeed\<close>

lemma zk_proof_local_up:
  assumes up: "world_up c RQ w" and laws: "laws_up c ks fits" and ok: "world_ok c E EK RQ w"
    and inv: "setup_inv c EK s" and "job_fits fits j"
  shows "\<exists>pf s'. zk_proof_local c w s (sha256 c (chacha_elf c)) j k = (Ok pf, s')"
proof -
  obtain cl s1 where cl: "get_zk_client_local w s = (Ok cl, s1)"
    using get_zk_client_local_up [OF up] by blast
  have "setup_inv c EK s1" using get_zk_client_local_effect [OF cl inv] by simp
  then obtain su s2 where su: "get_proof_setup_local c w s1 (sha256 c (chacha_elf c)) cl = (Ok su, s2)"
    using get_proof_setup_up(1) [OF up laws] by blast
  obtain key where key: "encryption_key c (env_var w) = (Ok key :: (pda_runner_error, bytes) res)"
    using up by (auto simp: world_up_def)
  obtain nonce where nonce: "random_nonce (os_rng w) = (Ok nonce :: (pda_runner_error, bytes) res)"
      "length nonce = NONCE_LEN"
    using random_nonce_up [OF up ok] by blast
  obtain out where "program_main c [key, nonce, input_data (job_input j)] = Ok out"
    using guest_accepts [OF laws key nonce(2)] assms(5) by (auto simp: job_fits_def)
  then obtain pf where "run_prove w cl (setup_pk su) [key, nonce, input_data (job_input j)] = Inr pf"
    using up unfolding world_up_def by blast
  with cl su key nonce(1) show ?thesis
    by (simp add: zk_proof_local_def prover_result_def)
qed

lemma zk_proof_remote_up:
  assumes up: "world_up c RQ w" and laws: "laws_up c ks fits" and ok: "world_ok c E EK RQ w"
    and inv: "setup_inv c EK s" and "job_fits fits j"
  shows "\<exists>rid s'. zk_proof_remote c w s (sha256 c (chacha_elf c)) j k = (Ok rid, s')"
proof -
  obtain cl s1 where cl: "get_zk_client_remote w s = (Ok cl, s1)"
    using get_zk_client_remote_up [OF up] by blast
  have "setup_inv c EK s1" using get_zk_client_remote_effect [OF cl inv] by simp
  then obtain su s2 where su: "get_proof_setup_remote c w s1 (sha256 c (chacha_elf c)) cl = (Ok su, s2)"
    using get_proof_setup_up(2) [OF up laws] by blast
  obtain fs strat where fs: "env_var w ''SP1_FULFILLMENT_STRATEGY'' = Some fs"
      "from_str_name c fs = Some strat"
    using up by (auto simp: world_up_def)
  obtain key where key: "encryption_key c (env_var w) = (Ok key :: (pda_runner_error, bytes) res)"
    using up by (auto simp: world_up_def)
  obtain nonce where nonce: "random_nonce (os_rng w) = (Ok nonce :: (pda_runner_error, bytes) res)"
      "length nonce = NONCE_LEN"
    using random_nonce_up [OF up ok] by blast
  obtain out where "program_main c [key, nonce, input_data (job_input j)] = Ok out"
    using guest_accepts [OF laws key nonce(2)] assms(5) by (auto simp: job_fits_def)
  then obtain rid where "request_proof w cl (setup_pk su) [key, nonce, input_data (job_input j)] strat
      (zk_proof_gen_timeout_remote s2) = Inr rid"
    using up unfolding world_up_def by blast
  with cl su fs key nonce(1) show ?thesis
    by (simp add: zk_proof_remote_def prover_result_def ok_or_def)
qed

section \<open>A worker step takes a job on\<close>

text \<open>The queue holds status \<open>st\<close> for key \<open>k\<close> of job \<open>j\<close>.\<close>

definition queued_as ::
  "('p, 'pk, 'vk, 'cl, 'z) crates_scheme \<Rightarrow> ('pk, 'vk, 'cl) pda_runner \<Rightarrow> job \<Rightarrow> bytes \<Rightarrow>
     'p job_status \<Rightarrow> bool" where
  "queued_as c s j k st \<longleftrightarrow>
     anchor_ser c (job_anchor j) = Inr k \<and> (\<exists>b. queue_db s k = Some b \<and> status_de c b = Inr st)"

lemma phase_queued_as:
  assumes "table_inv c E EK RQ s" and "disjoint_trees (queue_db s) (finished_db s)"
    and "phase c k s = Queued st" and "anchor_ser c (job_anchor j) = Inr k"
  shows "queued_as c s j k st"
  using assms(1,2)
  by (cases rule: phase_cases [where k = k]) (use assms(3,4) in \<open>auto simp: queued_as_def\<close>)

lemma queued_status:
  assumes "table_inv c E EK RQ s" and "disjoint_trees (queue_db s) (finished_db s)"
    and "queue_db s k \<noteq> None" and "anchor_ser c (job_anchor j) = Inr k"
  shows "\<exists>st. queued_as c s j k st"
  using assms(1,2)
  by (cases rule: phase_cases [where k = k]) (use assms(3,4) in \<open>auto simp: queued_as_def\<close>)

lemma finalize_job_up:
  assumes "world_up c RQ w" and "laws_up c ks fits"
  shows "\<exists>s'. finalize_job c w s k st = (Ok (), s') \<and> lookup_status c (finished_db s') k = Some st"
proof -
  obtain b where "status_ser c st = Inr b"
    using assms(2) unfolding laws_up_def bincode_total_def by blast
  moreover from this have "status_de c b = Inr st"
    using assms(2) bincode_okD(2) by (auto simp: laws_up_def)
  ultimately show ?thesis
    using assms(1) by (simp add: finalize_job_def world_up_def lookup_status_def)
qed

lemma get_program_id_up:
  assumes "setup_inv c EK s"
  obtains s1 where "get_program_id c s = (sha256 c (chacha_elf c), s1)" "setup_inv c EK s1" "table s1 = table s"
  using get_program_id_effect [OF _ assms] by (metis surj_pair)

lemma prove_local_up:
  assumes up: "world_up c RQ w" and laws: "laws_up c ks fits" and ok: "world_ok c E EK RQ w"
    and inv: "setup_inv c EK s" and "job_fits fits j" and q: "queued_as c s j k LocalZkProofPending"
  shows "\<exists>pf s'. prove c w s j = (Ok (), s') \<and> lookup_status c (finished_db s') k = Some (ZkProofFinished pf)"
proof -
  obtain s1 where pid: "get_program_id c s = (sha256 c (chacha_elf c), s1)" "setup_inv c EK s1"
    by (rule get_program_id_up [OF inv])
  obtain pf s2 where "zk_proof_local c w s1 (sha256 c (chacha_elf c)) j k = (Ok pf, s2)"
    using zk_proof_local_up [OF up laws ok pid(2) assms(5)] by blast
  with pid(1) q have "prove c w s j = finalize_job c w s2 k (ZkProofFinished pf)"
    using up by (auto simp: prove_def queued_as_def world_up_def)
  with finalize_job_up [OF up laws] show ?thesis by metis
qed

lemma prove_wait_up:
  assumes up: "world_up c RQ w" and laws: "laws_up c ks fits" and ok: "world_ok c E EK RQ w"
    and q: "queued_as c s j k (RemoteZkProofPending rid)"
    and rq: "RQ rid stdin"
  shows "\<exists>pf s'. prove c w s j = (Ok (), s') \<and> lookup_status c (finished_db s') k = Some (ZkProofFinished pf)"
proof -
  obtain cl s1 where cl: "get_zk_client_remote w s = (Ok cl, s1)"
    using get_zk_client_remote_up [OF up] by blast
  obtain pf where "wait_proof w cl rid = Inr pf" using up rq unfolding world_up_def by blast
  with cl have "wait_for_zk_proof c w s j k rid = (Ok pf, s1)"
    by (simp add: wait_for_zk_proof_def prover_result_def)
  with q have "prove c w s j = finalize_job c w s1 k (ZkProofFinished pf)"
    using up by (auto simp: prove_def queued_as_def world_up_def)
  with finalize_job_up [OF up laws] show ?thesis by metis
qed

lemma prove_request_up:
  assumes up: "world_up c RQ w" and laws: "laws_up c ks fits" and ok: "world_ok c E EK RQ w"
    and inv: "setup_inv c EK s" and q: "queued_as c s j k RemoteZkProofRequesting"
    and "receiver_open s" and "job_fits fits j"
  shows "\<exists>rid s'. prove c w s j = (Ok (), s') \<and> queued_as c s' j k (RemoteZkProofPending rid) \<and>
    job_channel s' = job_channel s @ [Some j] \<and> receiver_open s'"
proof -
  obtain s1 where pid: "get_program_id c s = (sha256 c (chacha_elf c), s1)" "setup_inv c EK s1"
      "table s1 = table s"
    by (rule get_program_id_up [OF inv])
  obtain rid s2 where call: "zk_proof_remote c w s1 (sha256 c (chacha_elf c)) j k = (Ok rid, s2)"
    using zk_proof_remote_up [OF up laws ok pid(2) assms(7)] by blast
  then have "table s2 = table s1"
    using zk_proof_remote_prepared [OF call pid(2) ok] laws
    by (auto simp: laws_up_def prover_called_def dest: prover_result_effect)
  with pid(3) have t: "table s2 = table s" by simp
  obtain b where b: "status_ser c (RemoteZkProofPending rid) = Inr b" "status_de c b = Inr (RemoteZkProofPending rid)"
    using laws bincode_okD(2) by (force simp: laws_up_def bincode_total_def)
  from call pid(1) q have "prove c w s j = send_job_with_new_status c w s2 k (RemoteZkProofPending rid) j"
    using up by (auto simp: prove_def queued_as_def world_up_def)
  with b t up q assms(6) show ?thesis
    by (auto simp: send_job_with_new_status_def chan_send_def queued_as_def world_up_def table_def)
qed

section \<open>Receiving every message\<close>

lemma receive_all:
  assumes "\<not> exited S" and "None \<notin> set (job_channel (sys_runner S))"
  shows "\<exists>T. runs (sys_step c E EK RQ) S T \<and> \<not> exited T \<and>
    sys_runner T = (sys_runner S)\<lparr>job_channel := []\<rparr> \<and>
    running T = running S @ chan_jobs (job_channel (sys_runner S))"
  using assms
proof (induction "job_channel (sys_runner S)" arbitrary: S)
  case Nil
  then show ?case by (intro exI [of _ S]) auto
next
  case (Cons m ms)
  then obtain j where m: "m = Some j" by (cases m) (metis list.set_intros(1), blast)
  let ?U = "S\<lparr>sys_runner := (sys_runner S)\<lparr>job_channel := ms\<rparr>, running := running S @ [j]\<rparr>"
  have step: "sys_step c E EK RQ S ?U"
    using Cons m by (intro sys_step.receive) (auto simp: job_worker_recv_def split: list.splits)
  have "None \<notin> set ms" using Cons(2,4) by (metis list.set_intros(2))
  then obtain T where T: "runs (sys_step c E EK RQ) ?U T" "\<not> exited T"
      "sys_runner T = (sys_runner ?U)\<lparr>job_channel := []\<rparr>"
      "running T = running ?U @ chan_jobs (job_channel (sys_runner ?U))"
    using Cons(1) [of ?U] Cons(3) by auto
  have "runs (sys_step c E EK RQ) S T" using runs_trans [OF T(1)] step by blast
  with T Cons(2) [symmetric] m show ?case by (intro exI [of _ T]) simp
qed

lemma bring_to_task:
  assumes "\<not> exited S" and "None \<notin> set (job_channel (sys_runner S))" and "j \<in> set (sys_jobs S)"
  shows "\<exists>T xs ys. runs (sys_step c E EK RQ) S T \<and> \<not> exited T \<and>
    sys_runner T = (sys_runner S)\<lparr>job_channel := []\<rparr> \<and> running T = xs @ j # ys"
proof -
  obtain T where T: "runs (sys_step c E EK RQ) S T" "\<not> exited T"
      "sys_runner T = (sys_runner S)\<lparr>job_channel := []\<rparr>"
      "running T = running S @ chan_jobs (job_channel (sys_runner S))"
    using receive_all [OF assms(1,2)] by blast
  with assms(3) have "j \<in> set (running T)" by (auto simp: sys_jobs_def)
  then obtain xs ys where "running T = xs @ j # ys" by (meson split_list)
  with T(1-3) show ?thesis by blast
qed

section \<open>Driving a job to its proof\<close>

lemma finish_task:
  assumes up: "world_up c RQ w" and laws: "laws_up c ks fits" and ok: "world_ok c E EK RQ w"
    and reach: "reachable c E EK RQ T" and live: "\<not> exited T" and run: "running T = xs @ j # ys"
    and fits: "job_fits fits j" and q: "queued_as c (sys_runner T) j k st"
    and st: "st \<noteq> RemoteZkProofRequesting"
  shows "\<exists>U pf. sys_step c E EK RQ T U \<and> \<not> exited U \<and> phase c k (sys_runner U) = Finished (ZkProofFinished pf)"
proof -
  note parts = reachable_parts [OF reach]
  have qok: "queue_ok c E RQ k st"
    using parts(3) q by (force simp: queued_as_def table_inv_def entry_ok_def dest: tree_allD)
  have "\<exists>pf s'. prove c w (sys_runner T) j = (Ok (), s') \<and>
      lookup_status c (finished_db s') k = Some (ZkProofFinished pf)"
  proof (cases st)
    case LocalZkProofPending
    then show ?thesis using prove_local_up [OF up laws ok parts(2) fits] q by blast
  next
    case (RemoteZkProofPending rid)
    then obtain stdin where "RQ rid stdin" using qok by (auto simp: queue_ok_def requested_def)
    then show ?thesis using prove_wait_up [OF up laws ok] q RemoteZkProofPending by blast
  qed (use qok st in \<open>auto simp: queue_ok_def\<close>)
  then obtain pf s' where pf: "prove c w (sys_runner T) j = (Ok (), s')"
      "lookup_status c (finished_db s') k = Some (ZkProofFinished pf)" by blast
  from sys_step.work [OF live ok run pf(1)] pf(2) live show ?thesis
    by (intro exI [of _ "T\<lparr>sys_runner := s', running := xs @ ys\<rparr>"] exI [of _ pf]) (simp add: phase_def)
qed

lemma request_task:
  assumes up: "world_up c RQ w" and laws: "laws_up c ks fits" and ok: "world_ok c E EK RQ w"
    and reach: "reachable c E EK RQ T" and live: "\<not> exited T" and run: "running T = xs @ j # ys"
    and fits: "job_fits fits j" and q: "queued_as c (sys_runner T) j k RemoteZkProofRequesting"
    and op: "receiver_open (sys_runner T)"
  shows "\<exists>U rid. sys_step c E EK RQ T U \<and> \<not> exited U \<and>
    queued_as c (sys_runner U) j k (RemoteZkProofPending rid) \<and>
    job_channel (sys_runner U) = job_channel (sys_runner T) @ [Some j]"
proof -
  obtain rid s' where pr: "prove c w (sys_runner T) j = (Ok (), s')"
      "queued_as c s' j k (RemoteZkProofPending rid)" "job_channel s' = job_channel (sys_runner T) @ [Some j]"
    using prove_request_up [OF up laws ok reachable_parts(2) [OF reach] q op fits] by blast
  from sys_step.work [OF live ok run pr(1)] live pr show ?thesis
    by (intro exI [of _ "T\<lparr>sys_runner := s', running := xs @ ys\<rparr>"] exI [of _ rid]) simp
qed

lemma finish_scheduled:
  assumes up: "world_up c RQ w" and laws: "laws_up c ks fits" and ok: "world_ok c E EK RQ w"
    and reach: "reachable c E EK RQ S" and live: "\<not> exited S"
    and chan: "None \<notin> set (job_channel (sys_runner S))"
    and j: "j \<in> set (sys_jobs S)" and fits: "job_fits fits j" and q: "queued_as c (sys_runner S) j k st"
    and st: "st \<noteq> RemoteZkProofRequesting"
  shows "\<exists>U pf. runs (sys_step c E EK RQ) S U \<and> \<not> exited U \<and>
    phase c k (sys_runner U) = Finished (ZkProofFinished pf)"
proof -
  obtain T xs ys where T: "runs (sys_step c E EK RQ) S T" "\<not> exited T"
      "sys_runner T = (sys_runner S)\<lparr>job_channel := []\<rparr>" "running T = xs @ j # ys"
    using bring_to_task [OF live chan j] by blast
  have "queued_as c (sys_runner T) j k st" using q T(3) by (simp add: queued_as_def)
  from finish_task [OF up laws ok reach_runs [OF T(1) reach] T(2,4) fits this st] T(1)
  show ?thesis by (blast intro: reach_step)
qed

lemma drive_job:
  assumes up: "world_up c RQ w" and laws: "laws_up c ks fits" and ok: "world_ok c E EK RQ w"
    and reach: "reachable c E EK RQ S" and live: "\<not> exited S"
    and chan: "None \<notin> set (job_channel (sys_runner S))" and op: "receiver_open (sys_runner S)"
    and j: "j \<in> set (sys_jobs S)" and fits: "job_fits fits j" and q: "queued_as c (sys_runner S) j k st"
  shows "\<exists>U pf. runs (sys_step c E EK RQ) S U \<and> \<not> exited U \<and>
    phase c k (sys_runner U) = Finished (ZkProofFinished pf)"
proof (cases "st = RemoteZkProofRequesting")
  case False
  then show ?thesis using finish_scheduled [OF up laws ok reach live chan j fits q] by blast
next
  case True
  obtain T xs ys where T: "runs (sys_step c E EK RQ) S T" "\<not> exited T"
      "sys_runner T = (sys_runner S)\<lparr>job_channel := []\<rparr>" "running T = xs @ j # ys"
    using bring_to_task [OF live chan j] by blast
  have "queued_as c (sys_runner T) j k RemoteZkProofRequesting" "receiver_open (sys_runner T)"
    using q True op T(3) by (simp_all add: queued_as_def)
  from request_task [OF up laws ok reach_runs [OF T(1) reach] T(2,4) fits this]
  obtain U rid where U: "sys_step c E EK RQ T U" "\<not> exited U"
      "queued_as c (sys_runner U) j k (RemoteZkProofPending rid)" "job_channel (sys_runner U) = [Some j]"
    using T(3) by auto
  have runs: "runs (sys_step c E EK RQ) S U" using T(1) U(1) by (rule reach_step)
  have "None \<notin> set (job_channel (sys_runner U))" "j \<in> set (sys_jobs U)"
    using U(4) by (simp_all add: sys_jobs_def)
  from finish_scheduled [OF up laws ok reach_runs [OF runs reach] U(2) this fits U(3)]
  obtain V pf where V: "runs (sys_step c E EK RQ) U V" "\<not> exited V" "phase c k (sys_runner V) = Finished (ZkProofFinished pf)"
    by blast
  from runs_trans [OF V(1) runs] V(2,3) show ?thesis by blast
qed

section \<open>Jobs nobody works on\<close>

text \<open>
  A job that is in the queue, but neither in the channel nor in a task, stays there: requests only
  look at its status and the worker never hears of it.
\<close>

definition orphaned ::
  "('p, 'pk, 'vk, 'cl, 'z) crates_scheme \<Rightarrow> bytes \<Rightarrow> 'p job_status \<Rightarrow> ('pk, 'vk, 'cl) sys \<Rightarrow> bool" where
  "orphaned c k st S \<longleftrightarrow> phase c k (sys_runner S) = Queued st \<and> scheduled c S k = 0"

lemma job_move_elsewhere:
  assumes "job_move c E EK RQ a j s s'" and "phase c k s = Queued st"
    and "a = Worker \<Longrightarrow> anchor_ser c (job_anchor j) \<noteq> Inr k"
  shows "phase c k s' = Queued st \<and>
    jobs_at c k (chan_jobs (job_channel s')) = jobs_at c k (chan_jobs (job_channel s))"
proof -
  have q: "queue_db s k \<noteq> None" "lookup_status c (finished_db s) k = None"
    using assms(2) by (auto simp: phase_def lookup_status_def split: option.splits sum.splits)
  have other: "?thesis"
    if "k' \<noteq> k" "anchor_ser c (job_anchor j) = Inr k'" "queue_db s' = (queue_db s)(k' := x)"
      "finished_db s' = (finished_db s)(k' := y) \<or> finished_db s' = finished_db s"
      "job_channel s' = pushed s j \<or> job_channel s' = job_channel s" for k' x y
    using that assms(2) phase_cong [of s' k s c] by (auto simp: chan_jobs_pushed)
  show ?thesis
    using assms(1)
  proof (cases rule: job_move.cases)
    case stay
    then show ?thesis using assms(2) phase_cong [of s' k s c] by (auto dest!: table_same)
  next
    case (enqueue k' st' b)
    then show ?thesis using q table_parts [OF enqueue(7)] by (intro other [of k' "Some b"]) auto
  next
    case (retry k' e st' b)
    then show ?thesis
      using q table_parts [OF retry(5)] by (intro other [of k' "Some b" None]) auto
  next
    case (advance k' rid b)
    then show ?thesis
      using assms(3) table_parts [OF advance(6)] by (intro other [of k' "Some b" None]) auto
  next
    case (finish k' st0 st' b)
    then show ?thesis
      using assms(3) table_parts [OF finish(8)] by (intro other [of k' None "Some b"]) auto
  qed
qed

lemma orphaned_step:
  assumes "sys_step c E EK RQ S T" and inv: "sys_inv c E EK RQ S" and bin: "bincode_ok c"
    and orph: "orphaned c k st S"
  shows "orphaned c k st T"
proof -
  have ph: "phase c k (sys_runner S) = Queued st" and none: "scheduled c S k = 0"
    using orph by (simp_all add: orphaned_def)
  from assms(1-3) show ?thesis
  proof (cases rule: sys_step_cases)
    case (request d)
    with job_move_elsewhere [OF request(3) ph] none show ?thesis
      by (simp add: orphaned_def scheduled_alt)
  next
    case (work xs j ys)
    then have "anchor_ser c (job_anchor j) \<noteq> Inr k"
      using none by (auto simp: scheduled_alt)
    with work job_move_elsewhere [OF work(5) ph] none show ?thesis
      by (simp add: orphaned_def scheduled_alt)
  next
    case other
    with phase_cong [of "sys_runner T" k "sys_runner S" c] scheduled_mset [OF other(4), of c k] orph
    show ?thesis by (simp add: orphaned_def)
  qed
qed

interpretation orphan: invariant_system
  "\<lambda>S. bincode_ok c \<and> sys_inv c E EK RQ S \<and> orphaned c k st S" "sys_step c E EK RQ"
  "\<lambda>S. bincode_ok c \<and> sys_inv c E EK RQ S \<and> orphaned c k st S"
  for c :: "('p, 'pk, 'vk, 'cl, 'z) crates_scheme" and E EK RQ k st
  by unfold_locales (auto dest: sys_inv_step orphaned_step)

lemma orphaned_forever:
  assumes "runs (sys_step c E EK RQ) S T" and "reachable c E EK RQ S" and "orphaned c k st S"
  shows "orphaned c k st T"
proof -
  have "bincode_ok c \<and> sys_inv c E EK RQ S \<and> orphaned c k st S"
    using runner_sys.reach_inv [OF assms(2)] assms(3) by blast
  from orphan.reach_inv [OF reach_runs [OF assms(1) reach_init]] this show ?thesis by blast
qed

text \<open>An error of the local prover that is not a network error leaves the table alone.\<close>

lemma zk_proof_local_unhandled:
  assumes "zk_proof_local c w s (sha256 c (chacha_elf c)) j k = (r, s')"
    and "setup_inv c EK s" and "world_ok c E EK RQ w" and "bincode_ok c"
    and "\<And>cl pk stdin. run_prove w cl pk stdin = Inl (UnhandledErr m)"
  shows "table s' = table s \<and> (\<forall>v. r \<noteq> Ok v)"
  using zk_proof_local_prepared [OF assms(1-4)] assms(5)
  by (auto simp: prover_called_def prover_result_def)

lemma prove_unhandled:
  assumes "prove c w s j = (r, s')"
    and "setup_inv c EK s" and "world_ok c E EK RQ w" and "bincode_ok c"
    and "\<And>cl pk stdin. run_prove w cl pk stdin = Inl (UnhandledErr m)"
    and "queued_as c s j k LocalZkProofPending"
  shows "table s' = table s"
proof -
  obtain s1 where pid: "get_program_id c s = (sha256 c (chacha_elf c), s1)" "setup_inv c EK s1"
      "table s1 = table s"
    by (rule get_program_id_up [OF assms(2)])
  obtain x s2 where call: "zk_proof_local c w s1 (sha256 c (chacha_elf c)) j k = (x, s2)" by fastforce
  have "table s2 = table s \<and> (\<forall>v. x \<noteq> Ok v)"
    using zk_proof_local_unhandled [OF call pid(2) assms(3-5)] pid(3) by simp
  with assms(1,6) pid(1) call show ?thesis
    by (cases x) (auto simp: prove_def queued_as_def db_try_def split: option.splits)
qed

end
