(* ===== verification/Demo.thy ===== *)
theory Demo
  imports Crates
begin

text \<open>
  A concrete instance of the parameters, small enough to evaluate, which satisfies every law of
  the theory \<open>Crates\<close>.  It shows that the hypotheses of the development are consistent, and the
  witnesses of the properties are evaluated on it.

  A "proof" of this instance is the guest's input itself: the prover runs the guest, the verifier
  runs it again.  The serialiser is a self-delimiting prefix code.
\<close>

section \<open>A self-delimiting code\<close>

fun enc_bytes :: "bytes \<Rightarrow> bytes" where
  "enc_bytes [] = [0]"
| "enc_bytes (b # bs) = 1 # b # enc_bytes bs"

fun dec_bytes :: "bytes \<Rightarrow> (bytes \<times> bytes) option" where
  "dec_bytes (t # r) =
     (if t = 0 then Some ([], r)
      else (case r of
              [] \<Rightarrow> None
            | b # r' \<Rightarrow> (case dec_bytes r' of None \<Rightarrow> None | Some (bs, r'') \<Rightarrow> Some (b # bs, r''))))"
| "dec_bytes [] = None"

fun enc_list :: "bytes list \<Rightarrow> bytes" where
  "enc_list [] = [0]"
| "enc_list (v # vs) = 1 # enc_bytes v @ enc_list vs"

text \<open>The fuel is the number of bytes: every element takes at least one.\<close>

fun dec_list :: "nat \<Rightarrow> bytes \<Rightarrow> (bytes list \<times> bytes) option" where
  "dec_list (Suc n) (t # r) =
     (if t = 0 then Some ([], r)
      else (case dec_bytes r of
              None \<Rightarrow> None
            | Some (v, r') \<Rightarrow>
                (case dec_list n r' of None \<Rightarrow> None | Some (vs, r'') \<Rightarrow> Some (v # vs, r''))))"
| "dec_list _ _ = None"

definition enc_str :: "string \<Rightarrow> bytes" where
  "enc_str s = enc_bytes (map (\<lambda>ch. of_nat (of_char ch)) s)"

definition dec_str :: "bytes \<Rightarrow> (string \<times> bytes) option" where
  "dec_str bs = map_option (\<lambda>(v, r). (map (\<lambda>b. char_of (unat b)) v, r)) (dec_bytes bs)"

fun enc_error :: "pda_runner_error \<Rightarrow> bytes" where
  "enc_error (InternalError s) = 0 # enc_str s"
| "enc_error (ZkClientError s) = 1 # enc_str s"
| "enc_error (DaClientError s) = 2 # enc_str s"
| "enc_error (InvalidParameter s) = 3 # enc_str s"

fun dec_error :: "bytes \<Rightarrow> (pda_runner_error \<times> bytes) option" where
  "dec_error (t # r) =
     map_option (\<lambda>(s, r'). ((if t = 0 then InternalError s else if t = 1 then ZkClientError s
        else if t = 2 then DaClientError s else InvalidParameter s), r')) (dec_str r)"
| "dec_error [] = None"

definition enc_proof :: "bytes list sp1_proof \<Rightarrow> bytes" where
  "enc_proof pf = enc_list (sp1_proof_rest pf) @ enc_bytes (public_values pf)"

definition dec_proof :: "bytes \<Rightarrow> (bytes list sp1_proof \<times> bytes) option" where
  "dec_proof bs =
     (case dec_list (length bs) bs of
        None \<Rightarrow> None
      | Some (vs, r) \<Rightarrow>
          map_option (\<lambda>(v, r'). (\<lparr>sp1_proof_rest = vs, public_values = v\<rparr>, r')) (dec_bytes r))"

fun enc_status :: "bytes list job_status \<Rightarrow> bytes" where
  "enc_status LocalZkProofPending = [0]"
| "enc_status RemoteZkProofRequesting = [1]"
| "enc_status (RemoteZkProofPending i) = 2 # enc_bytes i"
| "enc_status (ZkProofFinished pf) = 3 # enc_proof pf"
| "enc_status (Failed e None) = 4 # enc_error e"
| "enc_status (Failed e (Some st)) = 5 # enc_error e @ enc_status st"

fun dec_status :: "nat \<Rightarrow> bytes \<Rightarrow> bytes list job_status option" where
  "dec_status (Suc n) (t # r) =
     (if t = 0 then Some LocalZkProofPending
      else if t = 1 then Some RemoteZkProofRequesting
      else if t = 2 then map_option (\<lambda>(i, _). RemoteZkProofPending i) (dec_bytes r)
      else if t = 3 then map_option (\<lambda>(pf, _). ZkProofFinished pf) (dec_proof r)
      else if t = 4 then map_option (\<lambda>(e, _). Failed e None) (dec_error r)
      else (case dec_error r of
              None \<Rightarrow> None
            | Some (e, r') \<Rightarrow> map_option (\<lambda>st. Failed e (Some st)) (dec_status n r')))"
| "dec_status _ _ = None"

definition opt_res :: "'a option \<Rightarrow> string + 'a" where
  "opt_res x = (case x of None \<Rightarrow> Inl ''io error: unexpected end of file'' | Some a \<Rightarrow> Inr a)"

section \<open>The instance\<close>

definition demo_sha256 :: "bytes \<Rightarrow> bytes" where
  "demo_sha256 d = take HASH_LEN (d @ replicate HASH_LEN 0)"

definition demo_keystream :: "bytes \<Rightarrow> bytes \<Rightarrow> nat \<Rightarrow> byte" where
  "demo_keystream key nonce i = (if key = [] then 0 else key ! (i mod length key)) + of_nat i"

definition demo_base :: crypto where
  "demo_base = \<lparr>sha256 = demo_sha256,
     apply_keystream = (\<lambda>key nonce buf. Some (xor_stream (demo_keystream key nonce) buf))\<rparr>"

definition demo_verify :: "unit \<Rightarrow> bytes list sp1_proof \<Rightarrow> unit \<Rightarrow> string option" where
  "demo_verify cl pf vk =
     (if program_main demo_base (sp1_proof_rest pf) = Ok (public_values pf) then None
      else Some ''verification failed'')"

definition demo_crates :: "(bytes list, unit, unit, unit) crates" where
  "demo_crates = crypto.extend demo_base
     \<lparr>vec_ser = (\<lambda>v. Inr (enc_bytes v)), vec_de = (\<lambda>b. opt_res (dec_bytes b)),
      status_ser = (\<lambda>st. Inr (enc_status st)),
      status_de = (\<lambda>b. opt_res (dec_status (length b) b)),
      setup_ser = (\<lambda>_. Inr []), setup_de = (\<lambda>_. Inr \<lparr>setup_pk = (), setup_vk = ()\<rparr>),
      proof_ser = (\<lambda>pf. Inr (enc_proof pf)),
      proof_de = (\<lambda>b. opt_res (map_option fst (dec_proof b))),
      from_hex32 = (\<lambda>txt. if length txt = 64 then hex_decode txt else None),
      hex_encode = bytes_to_hex,
      chacha_elf = [127, 69, 76, 70],
      sp1_verify = demo_verify,
      from_str_name = (\<lambda>txt. if txt = ''HOSTED'' then Some 1 else None),
      network_error_display = (\<lambda>e. ''network error'')\<rparr>"

definition demo_env :: "string \<Rightarrow> env_vars" where
  "demo_env prover k =
     (if k = ''ENCRYPTION_KEY'' then Some (bytes_to_hex (replicate KEY_LEN 7))
      else if k = ''SP1_PROVER'' then Some prover
      else if k = ''SP1_FULFILLMENT_STRATEGY'' then Some ''HOSTED'' else None)"

text \<open>
  The prover runs the guest; the network simulates the run before it accepts a request, and the
  request identifier carries the input.
\<close>

definition demo_run :: "bytes list \<Rightarrow> prover_error + bytes list sp1_proof" where
  "demo_run stdin =
     (case program_main demo_base stdin of
        Ok out \<Rightarrow> Inr \<lparr>sp1_proof_rest = stdin, public_values = out\<rparr>
      | _ \<Rightarrow> Inl (UnhandledErr ''guest panicked''))"

definition demo_requested :: "bytes \<Rightarrow> bytes list \<Rightarrow> bool" where
  "demo_requested rid stdin \<longleftrightarrow>
     rid = enc_list stdin \<and> \<not> is_panic (program_main demo_base stdin)"

definition demo_world :: "string \<Rightarrow> (bytes list, unit, unit, unit) world" where
  "demo_world prover =
     \<lparr>env_var = demo_env prover, fault = (\<lambda>_. None), closed_msg = ''channel closed'',
      os_rng = (\<lambda>n. Some (replicate n 9)), client_from_env = Some (), client_network = Some (),
      run_setup = (\<lambda>_ _. Inr ((), ())), run_prove = (\<lambda>_ _ stdin. demo_run stdin),
      request_proof = (\<lambda>_ _ stdin _ _.
        if is_panic (program_main demo_base stdin) then Inl (NetworkErr SimulationFailed)
        else Inr (enc_list stdin)),
      wait_proof = (\<lambda>_ rid. case dec_list (length rid) rid of
                       Some (stdin, _) \<Rightarrow> demo_run stdin | None \<Rightarrow> Inl (UnhandledErr ''no such request''))\<rparr>"

text \<open>The same environment with a prover that always fails in the given way.\<close>

definition failing_world :: "string \<Rightarrow> prover_error \<Rightarrow> (bytes list, unit, unit, unit) world" where
  "failing_world prover e =
     (demo_world prover)\<lparr>run_prove := (\<lambda>_ _ _. Inl e), request_proof := (\<lambda>_ _ _ _ _. Inl e),
        wait_proof := (\<lambda>_ _. Inl e)\<rparr>"

section \<open>The code is self-delimiting\<close>

lemma dec_enc_bytes [simp]: "dec_bytes (enc_bytes v @ r) = Some (v, r)"
  by (induction v) simp_all

lemma dec_enc_bytes_all [simp]: "dec_bytes (enc_bytes v) = Some (v, [])"
  using dec_enc_bytes [of v "[]"] by simp

lemma length_enc_list: "length vs < length (enc_list vs)"
  by (induction vs) auto

lemma dec_enc_list:
  "length vs < n \<Longrightarrow> dec_list n (enc_list vs @ r) = Some (vs, r)"
proof (induction vs arbitrary: n)
  case Nil
  then show ?case by (cases n) simp_all
next
  case (Cons v vs)
  then obtain m where "n = Suc m" by (cases n) simp_all
  with Cons show ?case by simp
qed

lemma char_of_byte [simp]: "char_of (unat (of_nat (of_char ch) :: byte)) = ch"
proof -
  have "(of_char ch :: nat) < 256"
    using of_char_mod_256 [of ch, where 'a = nat] by (metis mod_less_divisor zero_less_numeral)
  then show ?thesis by (simp add: unat_of_nat)
qed

lemma dec_enc_str [simp]: "dec_str (enc_str s @ r) = Some (s, r)"
  by (simp add: dec_str_def enc_str_def comp_def)

lemma dec_enc_error [simp]: "dec_error (enc_error e @ r) = Some (e, r)"
  by (cases e) simp_all

lemma dec_enc_error_all [simp]: "dec_error (enc_error e) = Some (e, [])"
  using dec_enc_error [of e "[]"] by simp

lemma dec_enc_proof [simp]: "dec_proof (enc_proof pf @ r) = Some (pf, r)"
proof -
  have "length (sp1_proof_rest pf) < length (enc_proof pf @ r)"
    using length_enc_list [of "sp1_proof_rest pf"] by (simp add: enc_proof_def)
  from dec_enc_list [OF this] show ?thesis
    by (simp add: dec_proof_def enc_proof_def)
qed

lemma dec_enc_proof_all [simp]: "dec_proof (enc_proof pf) = Some (pf, [])"
  using dec_enc_proof [of pf "[]"] by simp

lemma dec_enc_status: "length (enc_status st) \<le> n \<Longrightarrow> dec_status n (enc_status st) = Some st"
proof (induction st arbitrary: n rule: enc_status.induct)
  case (6 e st)
  then obtain m where n: "n = Suc m" by (cases n) simp_all
  with 6 have "dec_status m (enc_status st) = Some st" by simp
  with n show ?case by simp
qed (case_tac n; simp)+

section \<open>The instance satisfies the laws\<close>

lemma demo_crates_simps [simp]:
  "sha256 demo_crates = demo_sha256"
  "apply_keystream demo_crates = (\<lambda>key nonce buf. Some (xor_stream (demo_keystream key nonce) buf))"
  "vec_ser demo_crates v = Inr (enc_bytes v)" "vec_de demo_crates b = opt_res (dec_bytes b)"
  "status_ser demo_crates st = Inr (enc_status st)"
  "status_de demo_crates b = opt_res (dec_status (length b) b)"
  "proof_ser demo_crates pf = Inr (enc_proof pf)"
  "proof_de demo_crates b = opt_res (map_option fst (dec_proof b))"
  "sp1_verify demo_crates = demo_verify"
  "setup_ser demo_crates su = Inr []" "setup_de demo_crates b = Inr \<lparr>setup_pk = (), setup_vk = ()\<rparr>"
  "from_str_name demo_crates txt = (if txt = ''HOSTED'' then Some 1 else None)"
  by (simp_all add: demo_crates_def demo_base_def crypto.defs)

lemma demo_program_main: "program_main demo_crates = program_main demo_base"
  by (rule ext) (simp add: program_main_def chacha_def demo_base_def)

lemma demo_bincode: "bincode_ok demo_crates" "bincode_total demo_crates"
  by (auto simp: bincode_ok_def bincode_total_def opt_res_def dec_enc_status)

lemma demo_crypto_laws:
  "sha256_ok demo_crates" "keystream_ok demo_crates demo_keystream (\<lambda>_. True)"
  by (simp_all add: sha256_ok_def keystream_ok_def demo_sha256_def HASH_LEN_def min_def)

lemma demo_hex: "hex_ok demo_crates"
proof -
  have "length s = 2 * length bs" if "hex_decode s = Some bs" for s bs
    using that by (induction s arbitrary: bs rule: hex_decode.induct)
      (auto simp del: hex_val.simps split: option.splits)
  then show ?thesis by (auto simp: hex_ok_def demo_crates_def crypto.defs KEY_LEN_def split: if_splits)
qed

lemma demo_key: "encryption_key demo_crates (demo_env prover) = Ok (replicate KEY_LEN 7)"
  by (simp add: encryption_key_def demo_env_def demo_crates_def crypto.defs hex_decode_bytes_to_hex
      length_bytes_to_hex KEY_LEN_def)

lemma demo_run_ok: "demo_run stdin = Inr pf \<Longrightarrow> proof_ok demo_crates EK stdin pf"
  by (auto simp: demo_run_def proof_ok_def demo_program_main demo_verify_def split: res.splits)

lemma demo_verify_ok: "verify_ok demo_crates EK"
  by (auto simp: verify_ok_def demo_verify_def demo_program_main split: if_splits)

lemma demo_wait:
  "wait_proof (demo_world prover) cl (enc_list stdin) = demo_run stdin"
  using dec_enc_list [OF length_enc_list, of stdin "[]"] by (simp add: demo_world_def)

lemma demo_world_ok:
  "world_ok demo_crates (demo_env prover) (\<lambda>_ _. True) demo_requested (demo_world prover)"
proof -
  have "proof_ok demo_crates (\<lambda>_ _. True) stdin pf"
    if "demo_requested rid stdin" "wait_proof (demo_world prover) cl rid = Inr pf" for cl rid stdin pf
    using that by (auto simp: demo_requested_def demo_wait intro: demo_run_ok)
  then show ?thesis
    unfolding world_ok_def
    by (auto simp: demo_world_def demo_requested_def intro: demo_run_ok split: if_splits)
qed

lemma failing_world_ok:
  "world_ok demo_crates (demo_env prover) (\<lambda>_ _. True) demo_requested (failing_world prover e)"
  by (auto simp: world_ok_def failing_world_def demo_world_def)

end
