(* ===== verification/Demo_Runs.thy ===== *)
theory Demo_Runs
  imports Runner_Live Demo
begin

text \<open>
  Concrete runs of the runner on the instance of the theory \<open>Demo\<close>: a process that starts on empty
  trees, a request for the data \<open>[1, 2, 3]\<close>, the worker that takes the job, and the finished job,
  with a local prover.  Every state is evaluated and shown reachable; the witnesses of the runner's
  and the proxy's properties are stated in them.
\<close>

section \<open>States\<close>

type_synonym demo_sys = "(unit, unit, unit) sys"

definition demo_data :: bytes where "demo_data = [1, 2, 3]"

definition demo_job :: job where "demo_job = job_of demo_crates demo_data"

definition demo_k :: bytes where "demo_k = enc_bytes (demo_sha256 demo_data)"

definition demo_proof :: "bytes list sp1_proof" where
  "demo_proof =
     \<lparr>sp1_proof_rest = [replicate KEY_LEN 7, replicate NONCE_LEN 9, demo_data],
      public_values = demo_sha256 (replicate KEY_LEN 7) @ replicate NONCE_LEN 9 @ demo_sha256 demo_data @
        xor_stream (demo_keystream (replicate KEY_LEN 7) (replicate NONCE_LEN 9)) demo_data\<rparr>"

abbreviation demo_EK :: "unit \<Rightarrow> unit \<Rightarrow> bool" where "demo_EK \<equiv> \<lambda>_ _. True"

abbreviation demo_reachable :: "string \<Rightarrow> demo_sys \<Rightarrow> bool" where
  "demo_reachable p \<equiv> reachable demo_crates (demo_env p) demo_EK demo_requested"

definition demo_start :: demo_sys where
  "demo_start = \<lparr>sys_runner = new_runner 5 Map.empty Map.empty Map.empty, running = [], exited = False\<rparr>"

definition demo_queued :: demo_sys where
  "demo_queued =
     \<lparr>sys_runner = (new_runner 5 Map.empty [demo_k \<mapsto> enc_status LocalZkProofPending] Map.empty)
        \<lparr>job_channel := [Some demo_job]\<rparr>, running = [], exited = False\<rparr>"

definition demo_running :: demo_sys where
  "demo_running =
     \<lparr>sys_runner = new_runner 5 Map.empty [demo_k \<mapsto> enc_status LocalZkProofPending] Map.empty,
      running = [demo_job], exited = False\<rparr>"

text \<open>The runner after the worker's step: its cells are set and the setup is stored.\<close>

definition demo_warm :: "tree \<Rightarrow> tree \<Rightarrow> (unit, unit, unit) pda_runner" where
  "demo_warm q f = (new_runner 5 [demo_sha256 [127, 69, 76, 70] \<mapsto> []] q f)
     \<lparr>zk_client_handle_local := Some (), chacha_id := Some (demo_sha256 [127, 69, 76, 70]),
      chacha_setup := Some \<lparr>setup_pk = (), setup_vk = ()\<rparr>\<rparr>"

definition demo_done :: demo_sys where
  "demo_done =
     \<lparr>sys_runner = demo_warm Map.empty [demo_k \<mapsto> enc_status (ZkProofFinished demo_proof)],
      running = [], exited = False\<rparr>"

section \<open>Evaluation\<close>

lemma demo_elf [simp]: "chacha_elf demo_crates = [127, 69, 76, 70]"
  by (simp add: demo_crates_def crypto.defs)

lemma demo_world_simps [simp]:
  "env_var (demo_world p) = demo_env p" "fault (demo_world p) op = None"
  "os_rng (demo_world p) n = Some (replicate n 9)"
  "client_from_env (demo_world p) = Some ()" "client_network (demo_world p) = Some ()"
  "run_setup (demo_world p) cl elf = Inr ((), ())" "run_prove (demo_world p) cl pk stdin = demo_run stdin"
  by (simp_all add: demo_world_def)

lemma demo_key_of [simp]: "vec_ser demo_crates (sha256 demo_crates demo_data) = Inr demo_k"
  "anchor_ser demo_crates (job_anchor demo_job) = Inr demo_k"
  by (simp_all add: demo_k_def demo_job_def anchor_ser_def)

lemma demo_status [simp]: "status_de demo_crates (enc_status st) = Inr st"
  by (simp add: dec_enc_status opt_res_def)

lemma demo_prover: "demo_env p ''SP1_PROVER'' = Some p"
  by (simp add: demo_env_def)

lemma demo_runs_guest: "demo_run [replicate KEY_LEN 7, replicate NONCE_LEN 9, demo_data] = Inr demo_proof"
  by (simp add: demo_run_def program_main_three demo_proof_def chacha_def demo_base_def)

lemma demo_request_new:
  "get_verifiable_encryption demo_crates (demo_world ''cpu'') (sys_runner demo_start) demo_job =
     (Ok None, sys_runner demo_queued)"
  by (simp add: get_verifiable_encryption_def enqueue_new_def demo_start_def demo_queued_def
      new_runner_def demo_prover initial_status_def chan_send_def del: enc_status.simps)

lemma demo_receive: "job_worker_recv demo_queued = Some demo_running"
  by (simp add: job_worker_recv_def demo_queued_def demo_running_def new_runner_def)

lemma demo_prove:
  "prove demo_crates (demo_world ''cpu'') (sys_runner demo_running) demo_job =
     (Ok (), sys_runner demo_done)"
proof -
  have nonce: "random_nonce (\<lambda>n. Some (replicate n 9)) = Ok (replicate NONCE_LEN 9)"
    by (simp add: random_nonce_def)
  have d: "input_data (job_input demo_job) = demo_data" by (simp add: demo_job_def)
  show ?thesis
    by (simp add: prove_def demo_running_def demo_done_def demo_warm_def new_runner_def get_program_id_def
        zk_proof_local_def get_zk_client_local_def get_proof_setup_local_def proof_setup_init_def
        setup_from_def demo_key d nonce [unfolded random_nonce_def] random_nonce_def demo_runs_guest
        prover_result_def finalize_job_def Let_def del: enc_status.simps demo_crates_simps(6))
qed

section \<open>Reachability\<close>

lemma demo_start_reachable: "demo_reachable p demo_start"
proof -
  have "sys_inv demo_crates (demo_env p) demo_EK demo_requested demo_start"
    by (simp add: sys_inv_def demo_start_def new_runner_def setup_inv_def table_inv_def
        disjoint_trees_def keys_ok_def sys_jobs_def)
  then have "start demo_crates (demo_env p) demo_EK demo_requested demo_start"
    unfolding start_def sys_init_def using demo_bincode(1) by (auto simp: demo_start_def)
  then show ?thesis by (rule reach_init)
qed

abbreviation demo_step :: "demo_sys \<Rightarrow> demo_sys \<Rightarrow> bool" where
  "demo_step \<equiv> sys_step demo_crates (demo_env ''cpu'') demo_EK demo_requested"

lemma demo_step_request: "demo_step demo_start demo_queued"
proof -
  have "demo_step demo_start (demo_start\<lparr>sys_runner := sys_runner demo_queued\<rparr>)"
    using demo_request_new
    by (intro sys_step.request [OF _ demo_world_ok, where d = demo_data])
      (simp_all add: demo_start_def demo_job_def)
  moreover have "demo_start\<lparr>sys_runner := sys_runner demo_queued\<rparr> = demo_queued"
    by (simp add: demo_start_def demo_queued_def)
  ultimately show ?thesis by simp
qed

lemma demo_step_receive: "demo_step demo_queued demo_running"
  using demo_receive by (intro sys_step.receive) (simp_all add: demo_queued_def)

lemma demo_step_work: "demo_step demo_running demo_done"
proof -
  have "demo_step demo_running (demo_running\<lparr>sys_runner := sys_runner demo_done, running := [] @ []\<rparr>)"
    by (rule sys_step.work [OF _ demo_world_ok _ demo_prove]) (simp_all add: demo_running_def)
  moreover have "demo_running\<lparr>sys_runner := sys_runner demo_done, running := [] @ []\<rparr> = demo_done"
    by (simp add: demo_running_def demo_done_def)
  ultimately show ?thesis by simp
qed

lemma demo_queued_reachable: "demo_reachable ''cpu'' demo_queued"
  using demo_start_reachable demo_step_request by (rule reach_step [where step = demo_step])

lemma demo_running_reachable: "demo_reachable ''cpu'' demo_running"
  using demo_queued_reachable demo_step_receive by (rule reach_step [where step = demo_step])

lemma demo_done_reachable: "demo_reachable ''cpu'' demo_done"
  using demo_running_reachable demo_step_work by (rule reach_step [where step = demo_step])

lemma demo_phases:
  "phase demo_crates demo_k (sys_runner demo_start) = Absent"
  "phase demo_crates demo_k (sys_runner demo_queued) = Queued LocalZkProofPending"
  "phase demo_crates demo_k (sys_runner demo_running) = Queued LocalZkProofPending"
  "phase demo_crates demo_k (sys_runner demo_done) = Finished (ZkProofFinished demo_proof)"
  by (simp_all add: phase_def lookup_status_def demo_start_def demo_queued_def demo_running_def
      demo_done_def demo_warm_def new_runner_def del: enc_status.simps demo_crates_simps(6))

section \<open>The instance is a working environment\<close>

lemma demo_laws_up: "laws_up demo_crates demo_keystream (\<lambda>_. True)"
  by (simp add: laws_up_def demo_bincode demo_hex demo_crypto_laws)

lemma demo_world_up: "world_up demo_crates demo_requested (demo_world p)"
proof -
  have run: "\<exists>pf. demo_run stdin = Inr pf" if "\<not> is_panic (program_main demo_base stdin)" for stdin
    using that program_main_not_Err [of demo_base stdin]
    by (cases "program_main demo_base stdin") (auto simp: demo_run_def)
  have "env_var (demo_world p) ''SP1_FULFILLMENT_STRATEGY'' = Some ''HOSTED''"
    by (simp add: demo_env_def)
  moreover have "\<exists>pf. wait_proof (demo_world p) cl rid = Inr pf" if "demo_requested rid stdin" for cl rid stdin
    using that run by (auto simp: demo_requested_def demo_wait)
  ultimately show ?thesis
    using run unfolding world_up_def
    by (auto simp: demo_key demo_program_main demo_world_def)
qed

end
