(* ===== verification/Demo_Net.thy ===== *)
theory Demo_Net
  imports Proxy Demo_Runs
begin

text \<open>
  A concrete instance of the proxy's parameters that satisfies their laws: JSON values as binary
  trees over texts and bytes with a self-delimiting serialisation, objects and arrays as right-nested
  lists.  Concrete calls on it: a submission of the data of the theory \<open>Demo_Runs\<close> and the node's
  answers to it.
\<close>

section \<open>JSON values as trees\<close>

datatype dj = DStr string | DBin bytes | DNode dj dj

fun enc_dj :: "dj \<Rightarrow> bytes" where
  "enc_dj (DStr s) = 0 # enc_str s"
| "enc_dj (DBin b) = 1 # enc_bytes b"
| "enc_dj (DNode l r) = 2 # enc_dj l @ enc_dj r"

text \<open>The fuel is the number of bytes: every tree takes at least one.\<close>

fun dec_dj :: "nat \<Rightarrow> bytes \<Rightarrow> (dj \<times> bytes) option" where
  "dec_dj (Suc n) (t # r) =
     (if t = 0 then map_option (\<lambda>(s, r'). (DStr s, r')) (dec_str r)
      else if t = 1 then map_option (\<lambda>(b, r'). (DBin b, r')) (dec_bytes r)
      else (case dec_dj n r of
              None \<Rightarrow> None
            | Some (x, r') \<Rightarrow>
                (case dec_dj n r' of None \<Rightarrow> None | Some (y, r'') \<Rightarrow> Some (DNode x y, r''))))"
| "dec_dj _ _ = None"

fun dj_array :: "dj list \<Rightarrow> dj" where
  "dj_array [] = DBin []"
| "dj_array (x # xs) = DNode x (dj_array xs)"

fun dj_as_array :: "dj \<Rightarrow> dj list option" where
  "dj_as_array (DBin b) = (if b = [] then Some [] else None)"
| "dj_as_array (DNode x r) = map_option ((#) x) (dj_as_array r)"
| "dj_as_array (DStr s) = None"

fun dj_as_str :: "dj \<Rightarrow> string option" where
  "dj_as_str (DStr s) = Some s"
| "dj_as_str (DBin b) = None"
| "dj_as_str (DNode x r) = None"

fun dj_get :: "dj \<Rightarrow> string \<Rightarrow> dj option" where
  "dj_get (DNode (DNode (DStr f) v) r) k = (if f = k then Some v else dj_get r k)"
| "dj_get _ k = None"

fun dj_set :: "dj \<Rightarrow> string \<Rightarrow> dj \<Rightarrow> dj" where
  "dj_set (DNode (DNode (DStr f) v) r) k x =
     (if f = k then DNode (DNode (DStr f) x) r else DNode (DNode (DStr f) v) (dj_set r k x))"
| "dj_set j k x = j"

definition dj_object :: "(string \<times> dj) list \<Rightarrow> dj" where
  "dj_object fs = dj_array (map (\<lambda>(f, v). DNode (DStr f) v) fs)"

type_synonym demo_blob = "(string, unit) blob"

fun dj_blob :: "demo_blob \<Rightarrow> dj" where
  "dj_blob b = DNode (DStr (blob_namespace b)) (DBin (blob_data b))"

fun dj_as_blob :: "dj \<Rightarrow> demo_blob option" where
  "dj_as_blob (DNode (DStr ns) (DBin d)) = Some \<lparr>blob_namespace = ns, blob_data = d, blob_rest = ()\<rparr>"
| "dj_as_blob _ = None"

fun collect_some :: "'a option list \<Rightarrow> 'a list option" where
  "collect_some [] = Some []"
| "collect_some (None # xs) = None"
| "collect_some (Some x # xs) = map_option ((#) x) (collect_some xs)"

definition demo_net :: "(dj, string, unit) net" where
  "demo_net =
     \<lparr>json_from_slice = (\<lambda>b. opt_res (map_option fst (dec_dj (length b) b))),
      json_to_vec = (\<lambda>j. Inr (enc_dj j)), json_get = dj_get, json_set = dj_set,
      json_as_str = dj_as_str, json_as_array = dj_as_array, json_array = dj_array,
      json_str = DStr, json_int = (\<lambda>i. DBin [word_of_int i]), json_object = dj_object,
      blob_from_value = (\<lambda>v. opt_res (dj_as_blob v)), blob_to_value = (\<lambda>b. Inr (dj_blob b)),
      blobs_from_value = (\<lambda>v. opt_res (Option.bind (dj_as_array v) (\<lambda>vs. collect_some (map dj_as_blob vs)))),
      blobs_to_value = (\<lambda>bs. Inr (dj_array (map dj_blob bs))),
      blob_new = (\<lambda>ns d. Inr \<lparr>blob_namespace = ns, blob_data = d, blob_rest = ()\<rparr>),
      header_to_str = (\<lambda>b. Some (map (\<lambda>x. char_of (unat x)) b)),
      path_and_query = Some, uri_parse = Some\<rparr>"

section \<open>Concrete calls\<close>

definition demo_blob0 :: demo_blob where
  "demo_blob0 = \<lparr>blob_namespace = ''ns'', blob_data = demo_data, blob_rest = ()\<rparr>"

text \<open>The blob the proxy makes of it.\<close>

definition demo_encrypted :: demo_blob where
  "demo_encrypted = \<lparr>blob_namespace = ''ns'', blob_data = enc_proof demo_proof, blob_rest = ()\<rparr>"

definition demo_call :: "string \<Rightarrow> dj" where
  "demo_call m = dj_object [(''method'', DStr m), (''params'', dj_array [dj_array [dj_blob demo_blob0], DStr ''opts''])]"

definition demo_req :: "string \<Rightarrow> string \<Rightarrow> (unit, string + bytes) http_request" where
  "demo_req auth m =
     \<lparr>req_head = (), req_uri = ''/'', req_headers = [(''authorization'', map (\<lambda>ch. of_nat (of_char ch)) auth)],
      req_body = Inr (enc_dj (demo_call m))\<rparr>"

definition demo_resp :: "dj \<Rightarrow> (string + bytes) http_response" where
  "demo_resp result =
     \<lparr>resp_status = 200, resp_headers = [(''content-length'', [55])],
      resp_body = Inr (enc_dj (dj_object [(''result'', result)]))\<rparr>"

abbreviation demo_service ::
  "((unit, bytes) http_request \<Rightarrow> string + (string + bytes) http_response) \<Rightarrow> demo_sys \<Rightarrow>
     (unit, string + bytes) http_request \<Rightarrow> (unit, (unit, unit, unit) pda_runner) outcome" where
  "demo_service up S req \<equiv> service demo_crates demo_net (demo_env ''cpu'') (\<lambda>_. demo_world ''cpu'')
     (demo_world ''cpu'') up ''node'' (sys_runner S) req"

section \<open>The instance satisfies the laws\<close>

lemma size_enc_dj: "0 < length (enc_dj j)"
  by (cases j) simp_all

lemma dec_enc_dj: "length (enc_dj j) \<le> n \<Longrightarrow> dec_dj n (enc_dj j @ r) = Some (j, r)"
proof (induction j arbitrary: n r)
  case (DNode x y)
  then obtain m where n: "n = Suc m" by (cases n) simp_all
  with DNode.prems have "length (enc_dj x) \<le> m" "length (enc_dj y) \<le> m" by simp_all
  with DNode.IH n show ?case by simp
qed (case_tac n; simp)+

lemma dec_enc_dj_all [simp]: "dec_dj (length (enc_dj j)) (enc_dj j) = Some (j, [])"
  using dec_enc_dj [of j "length (enc_dj j)" "[]"] by simp

lemma dj_array_inv [simp]: "dj_as_array (dj_array xs) = Some xs"
  by (induction xs) simp_all

lemma dj_get_set: "dj_get j k \<noteq> None \<Longrightarrow> dj_get (dj_set j k v) k = Some v"
  by (induction j k v rule: dj_set.induct) auto

lemma dj_get_set_other: "k' \<noteq> k \<Longrightarrow> dj_get (dj_set j k v) k' = dj_get j k'"
  by (induction j k v rule: dj_set.induct) auto

lemma dj_blob_inv [simp]: "dj_as_blob (dj_blob b) = Some b"
  by simp

lemma dj_blobs_inv [simp]: "collect_some (map (dj_as_blob \<circ> dj_blob) bs) = Some bs"
  by (induction bs) (simp_all del: dj_blob.simps)

lemma demo_net_simps [simp]:
  "json_from_slice demo_net b = opt_res (map_option fst (dec_dj (length b) b))"
  "json_to_vec demo_net j = Inr (enc_dj j)" "json_get demo_net = dj_get" "json_set demo_net = dj_set"
  "json_as_str demo_net = dj_as_str" "json_as_array demo_net = dj_as_array" "json_array demo_net = dj_array"
  "blob_from_value demo_net v = opt_res (dj_as_blob v)" "blob_to_value demo_net bl = Inr (dj_blob bl)"
  "blobs_from_value demo_net v = opt_res (Option.bind (dj_as_array v) (\<lambda>vs. collect_some (map dj_as_blob vs)))"
  "blobs_to_value demo_net bs = Inr (dj_array (map dj_blob bs))"
  "blob_new demo_net ns d = Inr \<lparr>blob_namespace = ns, blob_data = d, blob_rest = ()\<rparr>"
  "header_to_str demo_net x = Some (map (\<lambda>y. char_of (unat y)) x)" "uri_parse demo_net u = Some u"
  by (simp_all add: demo_net_def)

lemma opt_res_Some [simp]: "opt_res (Some x) = Inr x"
  by (simp add: opt_res_def)

lemma demo_net_ok: "net_ok demo_net" "blob_ok demo_net" "net_total demo_net"
  unfolding net_ok_def blob_ok_def net_total_def
  by (auto simp: dj_get_set dj_get_set_other simp del: dj_blob.simps dj_as_blob.simps)

lemma demo_auth: "auth_ok demo_net (req_headers (demo_req a m)) = starts_with ''Bearer '' a"
  by (simp add: auth_ok_def header_get_def demo_req_def comp_def)

lemma demo_header:
  "header_get (req_headers (demo_req a m)) ''authorization'' = Some v \<Longrightarrow>
     header_to_str demo_net v = Some a' \<Longrightarrow> a' = a"
  by (auto simp: header_get_def demo_req_def comp_def)

lemma demo_bearer: "auth_ok demo_net (req_headers (demo_req ''Bearer t'' m))"
  unfolding demo_auth by (simp add: starts_with_def)

lemma demo_rpc:
  "dj_get (demo_call m) ''method'' = Some (DStr m)"
  "dj_get (demo_call m) ''params'' = Some (dj_array [dj_array [dj_blob demo_blob0], DStr ''opts''])"
  by (simp_all add: demo_call_def dj_object_def)

end
