(* ===== verification/Runner_Properties.thy ===== *)
theory Runner_Properties
  imports Demo_Runs
begin

text \<open>
  The properties of the runner in every reachable state of its transition system: the shape of the
  two trees, the proofs it hands out, the answer of a request in each phase of a job, scheduling,
  the life cycle, progress, and the jobs it loses.  Each property has a witness on the instance of
  the theory \<open>Demo\<close>.
\<close>

text \<open>The network errors the runner retries.\<close>

fun retryable :: "sp1_network_error \<Rightarrow> bool" where
  "retryable SimulationFailed = False"
| "retryable (RequestUnexecutable m) = False"
| "retryable (RequestUnfulfillable m) = False"
| "retryable (RequestTimedOut m) = True"
| "retryable (RpcError m) = True"
| "retryable (OtherNetworkError m) = True"

section \<open>What a genuine proof says\<close>

lemma genuine_reads:
  assumes "genuine c E EK k pf" and "vec_ser c (sha256 c d) = Inr k"
    and "bincode_ok c" and "sha256_ok c" and "keystream_ok c ks fits"
  shows "\<exists>key pt o'. encryption_key c E = (Ok key :: (pda_runner_error, bytes) res) \<and>
    sha256 c pt = sha256 c d \<and> from_bytes (public_values pf) = Ok o' \<and>
    privkey_hash o' = sha256 c key \<and> plaintext_hash o' = sha256 c d \<and>
    chacha c key (zk_nonce o') (ciphertext o') = (Ok pt :: (string, bytes) res)"
proof -
  from assms(1) obtain key nonce pt where
      key: "encryption_key c E = (Ok key :: (pda_runner_error, bytes) res)"
      and run: "program_main c [key, nonce, pt] = Ok (public_values pf)"
      and k: "vec_ser c (sha256 c pt) = Inr k"
    unfolding genuine_def proof_ok_def by blast
  have "sha256 c pt = sha256 c d" using vec_ser_inj [OF assms(3) k assms(2)] .
  with key committed_run [OF run assms(4,5)] show ?thesis by metis
qed

section \<open>Requests by phase\<close>

lemma request_by_phase:
  assumes "table_inv c E EK RQ s" and "disjoint_trees (queue_db s) (finished_db s)"
    and "\<forall>op. fault w op = None" and "vec_ser c (sha256 c d) = Inr k"
  shows "get_verifiable_encryption c w s (job_of c d) =
    (case phase c k s of
       Absent \<Rightarrow> enqueue_new c w s (job_of c d) k
     | Queued st \<Rightarrow> (Ok None, s)
     | Finished st \<Rightarrow> answer_finished c w s (job_of c d) k st)"
  using assms(1,2)
proof (cases rule: phase_cases [where k = k])
  case (queued st b)
  then show ?thesis
    using assms(3,4) by (cases st)
      (auto simp: get_verifiable_encryption_def anchor_ser_def answer_queued_def queue_ok_def)
qed (use assms(3,4) in \<open>auto simp: get_verifiable_encryption_def anchor_ser_def\<close>)

lemma enqueue_new_up:
  assumes "\<forall>op. fault w op = None" and "env_var w ''SP1_PROVER'' = Some p" and "initial_status p = Ok st"
    and "receiver_open s" and "bincode_ok c" and "bincode_total c" and "finished_db s k = None"
  shows "\<exists>s'. enqueue_new c w s j k = (Ok None, s') \<and> phase c k s' = Queued st \<and>
    job_channel s' = job_channel s @ [Some j]"
proof -
  obtain b where b: "status_ser c st = Inr b" using assms(6) unfolding bincode_total_def by blast
  then have "status_de c b = Inr st" using bincode_okD(2) [OF assms(5)] by blast
  with b assms(1-4,7) show ?thesis
    by (auto simp: enqueue_new_def chan_send_def intro: phase_queued)
qed

lemma send_job_up:
  assumes "\<forall>op. fault w op = None" and "receiver_open s" and "bincode_ok c" and "bincode_total c"
  shows "\<exists>s'. send_job_with_new_status c w s k st j = (Ok (), s') \<and> phase c k s' = Queued st \<and>
    job_channel s' = job_channel s @ [Some j]"
proof -
  obtain b where b: "status_ser c st = Inr b" using assms(4) unfolding bincode_total_def by blast
  then have "status_de c b = Inr st" using bincode_okD(2) [OF assms(3)] by blast
  with b assms(1,2) show ?thesis
    by (auto simp: send_job_with_new_status_def chan_send_def intro: phase_queued)
qed

text \<open>Only the finished tree yields a proof.\<close>

lemma enqueue_new_no_proof: "enqueue_new c w s j k \<noteq> (Ok (Some pf), s')"
  by (auto simp: enqueue_new_def res_simps ext_try_def db_try_def split: sum.splits option.splits)

lemma answer_queued_no_proof: "answer_queued c s k st \<noteq> (Ok (Some pf), s')"
  by (cases st) (auto simp: answer_queued_def)

lemma answer_finished_proof:
  "answer_finished c w s j k st = (Ok (Some pf), s') \<Longrightarrow> st = ZkProofFinished pf \<and> s' = s"
  by (cases st) (auto simp: answer_finished_def split: option.splits prod.splits res.splits)

lemma request_proof_stored:
  assumes "get_verifiable_encryption c w s (job_of c d) = (Ok (Some pf), s')"
  shows "\<exists>k b. vec_ser c (sha256 c d) = Inr k \<and> finished_db s k = Some b \<and>
    status_de c b = Inr (ZkProofFinished pf) \<and> s' = s"
  using assms
  by (auto simp: get_verifiable_encryption_def ext_try_def db_try_def anchor_ser_def
      enqueue_new_no_proof answer_queued_no_proof
      dest: answer_finished_proof split: sum.splits option.splits)

section \<open>Properties: what the trees hold\<close>


text \<open>
  C5: a proof that a request returns verifies, its public values parse, they name the hash of the
  configured encryption key and of the requested data, and decrypting them with that key gives data
  with the requested hash.
\<close>

theorem request_returns_genuine:
  assumes "reachable c E EK RQ S"
    and "get_verifiable_encryption c w (sys_runner S) (job_of c d) = (Ok (Some pf), s')"
    and "sha256_ok c" and "keystream_ok c ks fits"
  shows "s' = sys_runner S \<and> (\<forall>cl pk vk. EK pk vk \<longrightarrow> sp1_verify c cl pf vk = None) \<and>
    (\<exists>key pt o'. encryption_key c E = (Ok key :: (pda_runner_error, bytes) res) \<and>
       sha256 c pt = sha256 c d \<and> from_bytes (public_values pf) = Ok o' \<and>
       privkey_hash o' = sha256 c key \<and> plaintext_hash o' = sha256 c d \<and>
       chacha c key (zk_nonce o') (ciphertext o') = (Ok pt :: (string, bytes) res))"
proof -
  obtain k b where k: "vec_ser c (sha256 c d) = Inr k"
    and b: "finished_db (sys_runner S) k = Some b" "status_de c b = Inr (ZkProofFinished pf)"
    and s': "s' = sys_runner S"
    using request_proof_stored [OF assms(2)] by auto
  have "finished_ok c E EK k (ZkProofFinished pf)"
    using reachable_parts(3) [OF assms(1)] b by (force simp: table_inv_def entry_ok_def dest: tree_allD)
  then have gen: "genuine c E EK k pf" by (simp add: finished_ok_def)
  then have "\<forall>cl pk vk. EK pk vk \<longrightarrow> sp1_verify c cl pf vk = None"
    unfolding genuine_def proof_ok_def by blast
  with s' genuine_reads [OF gen k reachable_parts(1) [OF assms(1)] assms(3,4)] show ?thesis by blast
qed

section \<open>Properties: requests\<close>

text \<open>
  C9: with a working database and an open channel, the phase of a job decides the answer of a
  request.  A new job is queued in the state of the configured prover and handed to the worker once;
  a queued job is reported pending and nothing changes; a finished job returns its proof, again and
  again; a permanent failure returns its error; a temporary one returns its error and puts the job
  back into the queue.  The two branches for trees in an invalid state are never taken.
\<close>

theorem request_answer:
  assumes "reachable c E EK RQ S" and "receiver_open (sys_runner S)" and "world_ok c E EK RQ w"
    and "\<forall>op. fault w op = None" and "bincode_total c"
    and "E ''SP1_PROVER'' = Some p" and "initial_status p = Ok st0"
    and "vec_ser c (sha256 c d) = Inr k"
    and "get_verifiable_encryption c w (sys_runner S) (job_of c d) = (r, s')"
  shows "case phase c k (sys_runner S) of
      Absent \<Rightarrow> r = Ok None \<and> phase c k s' = Queued st0 \<and>
        job_channel s' = job_channel (sys_runner S) @ [Some (job_of c d)]
    | Queued st \<Rightarrow> r = Ok None \<and> s' = sys_runner S
    | Finished (ZkProofFinished pf) \<Rightarrow> r = Ok (Some pf) \<and> s' = sys_runner S
    | Finished (Failed e None) \<Rightarrow> r = Err (InternalError (error_debug e)) \<and> s' = sys_runner S
    | Finished (Failed e (Some st)) \<Rightarrow>
        r = Err (InternalError (''Retrying! Previous error: '' @ error_debug e)) \<and>
        st = RemoteZkProofRequesting \<and> phase c k s' = Queued st \<and>
        job_channel s' = job_channel (sys_runner S) @ [Some (job_of c d)]
    | Finished _ \<Rightarrow> False"
proof -
  note parts = reachable_parts [OF assms(1)]
  note call = request_by_phase [OF parts(3,4) assms(4,8), unfolded assms(9)]
  have env: "env_var w ''SP1_PROVER'' = Some p" using world_okD(1) [OF assms(3)] assms(6) by simp
  show ?thesis
    using parts(3,4)
  proof (cases rule: phase_cases [where k = k])
    case absent
    then show ?thesis
      using call enqueue_new_up [OF assms(4) env assms(7,2) parts(1) assms(5) absent(3), of "job_of c d"] by auto
  next
    case (finished st b)
    show ?thesis
    proof (cases "\<exists>e st'. st = Failed e (Some st')")
      case True
      then obtain e st' where st: "st = Failed e (Some st')" by blast
      with finished have "st' = RemoteZkProofRequesting"
        using failed_retry_final by (simp add: finished_ok_def)
      with st finished call send_job_up [OF assms(4,2) parts(1) assms(5), of k st' "job_of c d"] show ?thesis
        by (auto simp: answer_finished_def)
    next
      case False
      with finished call show ?thesis
        by (cases st) (auto simp: answer_finished_def finished_ok_def split: option.splits)
    qed
  qed (use call in auto)
qed




section \<open>Properties: progress\<close>

text \<open>
  C10: from every reachable state of a running process, a job that is scheduled can be driven to its
  stored proof by receive and worker steps, whatever its status and whatever else is scheduled, as
  long as the environment works: no state of the runner blocks a scheduled job.
\<close>

theorem scheduled_job_completes:
  assumes "reachable c E EK RQ S" and "\<not> exited S" and "receiver_open (sys_runner S)"
    and "None \<notin> set (job_channel (sys_runner S))" and "0 < scheduled c S k"
    and "\<forall>j \<in> set (sys_jobs S). job_fits fits j"
    and "world_up c RQ w" and "world_ok c E EK RQ w" and "laws_up c ks fits"
  shows "\<exists>T pf. runs (sys_step c E EK RQ) S T \<and>
    phase c k (sys_runner T) = Finished (ZkProofFinished pf)"
proof -
  obtain j where j: "j \<in> set (sys_jobs S)" "anchor_ser c (job_anchor j) = Inr k"
    using assms(5) by (auto simp: scheduled_def jobs_at_def filter_empty_conv)
  note parts = reachable_parts [OF assms(1)]
  have "queue_db (sys_runner S) k \<noteq> None" using parts(7) assms(5) by (simp add: sched_inv_def)
  then have "\<exists>st. queued_as c (sys_runner S) j k st"
    using parts(3,4) j(2) queued_status by blast
  with drive_job [OF assms(7,9,8,1,2,4,3) j(1)] assms(6) j(1) show ?thesis by blast
qed

section \<open>Properties: work on a job ends\<close>

text \<open>How many changes a job has before it at most, until it is finished.\<close>

fun phase_rank :: "'p phase \<Rightarrow> nat" where
  "phase_rank Absent = 3"
| "phase_rank (Queued RemoteZkProofRequesting) = 2"
| "phase_rank (Queued _) = 1"
| "phase_rank (Finished _) = 0"

fun retried_phase :: "'p phase \<Rightarrow> 'p phase \<Rightarrow> bool" where
  "retried_phase (Finished (Failed e (Some st))) (Queued st') = True"
| "retried_phase _ _ = False"

lemma phase_step_rank: "phase_step x y \<Longrightarrow> \<not> retried_phase x y \<Longrightarrow> phase_rank y < phase_rank x"
proof (induction rule: phase_step.induct)
  case (failed st e f)
  then show ?case by (cases st) auto
qed auto

lemma phase_rank_le: "phase_rank y \<le> 3"
  by (cases y rule: phase_rank.cases) auto

lemma changes_bounded:
  fixes r :: "nat \<Rightarrow> nat"
  assumes "\<And>i. x (Suc i) \<noteq> x i \<Longrightarrow> r (Suc i) < r i" and "\<And>i. x (Suc i) = x i \<Longrightarrow> r (Suc i) = r i"
  shows "card {i. i < n \<and> x (Suc i) \<noteq> x i} + r n \<le> r 0"
proof (induction n)
  case (Suc n)
  have "{i. i < Suc n \<and> x (Suc i) \<noteq> x i} =
      (if x (Suc n) \<noteq> x n then insert n {i. i < n \<and> x (Suc i) \<noteq> x i} else {i. i < n \<and> x (Suc i) \<noteq> x i})"
    by (auto simp: less_Suc_eq)
  then show ?case using Suc assms(1) [of n] assms(2) [of n] by (cases "x (Suc n) = x n") simp_all
qed simp


section \<open>Properties: errors\<close>

text \<open>
  C27: an error of the prover network ends the job.  The failure is stored in the finished tree with
  the reported error, the job leaves the queue, and the failure can be retried exactly when it is a
  time-out, an RPC error or an unclassified network error; a failed simulation, an unexecutable and
  an unfulfillable request are permanent.
\<close>

theorem network_error_finalizes:
  assumes "\<forall>op. fault w op = None" and "bincode_ok c" and "bincode_total c"
  shows "\<exists>e s'. prover_result c w s j k (Inl (NetworkErr z)) = (Err e, s') \<and>
    queue_db s' k = None \<and>
    phase c k s' = Finished (Failed e (if retryable z then Some RemoteZkProofRequesting else None))"
proof -
  let ?f = "if retryable z then Some RemoteZkProofRequesting else None"
  obtain e where e: "classify_zk_error c z j = (e, Failed e ?f)"
    by (cases z) (auto simp: classify_zk_error.simps Let_def)
  obtain b where b: "status_ser c (Failed e ?f) = Inr b" using assms(3) unfolding bincode_total_def by blast
  then have "status_de c b = Inr (Failed e ?f)" using bincode_okD(2) [OF assms(2)] by blast
  with e b assms(1) show ?thesis
    by (auto simp: prover_result_def handle_zk_client_error_def finalize_job_def intro!: phase_finished)
qed

text \<open>
  C28: an error of the local prover that is not a network error (an \<open>anyhow\<close> error without an
  \<open>SP1NetworkError\<close> underneath) strands its job: it stays in the queue, no task and no message
  refers to it, and until the process ends every request for it is answered as pending.
\<close>

theorem unhandled_error_strands_job:
  assumes "reachable c E EK RQ S" and "\<not> exited S" and "running S = xs @ j # ys"
    and "anchor_ser c (job_anchor j) = Inr k"
    and "phase c k (sys_runner S) = Queued LocalZkProofPending"
    and "world_ok c E EK RQ w" and "\<forall>cl pk stdin. run_prove w cl pk stdin = Inl (UnhandledErr m)"
  shows "\<exists>T. sys_step c E EK RQ S T \<and> (\<forall>U. runs (sys_step c E EK RQ) T U \<longrightarrow>
    phase c k (sys_runner U) = Queued LocalZkProofPending \<and> scheduled c U k = 0 \<and>
    (\<forall>w' d. (\<forall>op. fault w' op = None) \<and> vec_ser c (sha256 c d) = Inr k \<longrightarrow>
       get_verifiable_encryption c w' (sys_runner U) (job_of c d) = (Ok None, sys_runner U)))"
proof -
  note parts = reachable_parts [OF assms(1)]
  have q: "queued_as c (sys_runner S) j k LocalZkProofPending"
    using phase_queued_as [OF parts(3,4) assms(5,4)] .
  obtain r s' where pr: "prove c w (sys_runner S) j = (r, s')" by fastforce
  let ?T = "S\<lparr>sys_runner := s', running := xs @ ys\<rparr>"
  have step: "sys_step c E EK RQ S ?T" using sys_step.work [OF assms(2,6,3) pr] .
  have t: "table s' = table (sys_runner S)"
    using prove_unhandled [OF pr parts(2) assms(6) parts(1) _ q] assms(7) by blast
  have "scheduled c S k \<le> 1" using parts(7) by (simp add: sched_inv_def)
  then have "orphaned c k LocalZkProofPending ?T"
    using table_same [OF t] phase_cong [of s' k "sys_runner S" c] assms(3-5)
    by (auto simp: orphaned_def scheduled_alt)
  then have orph: "orphaned c k LocalZkProofPending U" if "runs (sys_step c E EK RQ) ?T U" for U
    using orphaned_forever [OF that reach_step [OF assms(1) step]] by blast
  have "get_verifiable_encryption c w' (sys_runner U) (job_of c d) = (Ok None, sys_runner U)"
    if "runs (sys_step c E EK RQ) ?T U" "\<forall>op. fault w' op = None" "vec_ser c (sha256 c d) = Inr k" for U w' d
    using orph [OF that(1)] reachable_parts(3,4) [OF reach_runs [OF that(1) reach_step [OF assms(1) step]]]
      request_by_phase [OF _ _ that(2,3)] by (simp add: orphaned_def)
  with step orph show ?thesis unfolding orphaned_def by blast
qed

text \<open>
  C36: the text of every prover failure, which the runner stores in the finished tree and returns to
  the client, contains the job's plaintext bytes.
\<close>

theorem failure_text_contains_plaintext:
  "\<exists>pre post r. classify_zk_error c z j =
     (ZkClientError (pre @ debug_bytes (input_data (job_input j)) @ post),
      Failed (ZkClientError (pre @ debug_bytes (input_data (job_input j)) @ post)) r)"
proof -
  obtain r pfx sfx where cl: "classify_zk_error c z j =
      (ZkClientError (zk_error_text (network_error_display c z) j pfx sfx),
       Failed (ZkClientError (zk_error_text (network_error_display c z) j pfx sfx)) r)"
    by (cases z) (auto simp: classify_zk_error.simps Let_def)
  obtain p q where "job_debug j = p @ debug_bytes (input_data (job_input j)) @ q"
    using job_debug_plaintext by blast
  then have leak: "zk_error_text (network_error_display c z) j pfx sfx =
      (pfx @ network_error_display c z @ '' occurred for '' @ p) @
      debug_bytes (input_data (job_input j)) @ (q @ sfx)"
    by (simp add: zk_error_text_def)
  from cl show ?thesis unfolding leak by blast
qed

section \<open>Properties: shutdown and restart\<close>

text \<open>
  C30: a shutdown does not finish the jobs that run: the signal and the worker's loop lead to a
  process that has exited with every task it had, its queue unchanged, and nothing more happens.
\<close>

theorem shutdown_abandons_tasks:
  assumes "reachable c E EK RQ S" and "\<not> exited S" and "receiver_open (sys_runner S)"
    and "None \<notin> set (job_channel (sys_runner S))" and "world_ok c E EK RQ w"
  shows "\<exists>T. runs (sys_step c E EK RQ) S T \<and> exited T \<and>
    running T = running S @ chan_jobs (job_channel (sys_runner S)) \<and>
    queue_db (sys_runner T) = queue_db (sys_runner S) \<and> (\<forall>U. \<not> sys_step c E EK RQ T U)"
proof -
  obtain T where T: "runs (sys_step c E EK RQ) S T" "\<not> exited T"
      "sys_runner T = (sys_runner S)\<lparr>job_channel := []\<rparr>"
      "running T = running S @ chan_jobs (job_channel (sys_runner S))"
    using receive_all [OF assms(2,4)] by blast
  let ?U = "T\<lparr>sys_runner := shutdown w (sys_runner T)\<rparr>"
  let ?V = "?U\<lparr>sys_runner := (sys_runner ?U)\<lparr>job_channel := [], receiver_open := False\<rparr>, exited := True\<rparr>"
  have "sys_step c E EK RQ T ?U" using sys_step.signal [OF T(2) assms(5)] .
  moreover have "sys_step c E EK RQ ?U ?V"
    using T(2,3) assms(3)
    by (intro sys_step.receive) (simp_all add: job_worker_recv_def shutdown_def chan_send_def)
  ultimately have "runs (sys_step c E EK RQ) S ?V" using T(1) by (blast intro: reach_step)
  moreover have "\<not> sys_step c E EK RQ ?V W" for W by (auto elim: sys_stepE)
  ultimately show ?thesis
    using T(3,4) by (intro exI [of _ ?V]) (simp add: shutdown_def chan_send_def)
qed

text \<open>A process on the trees another one left behind is in a start state.\<close>

lemma restarted_start:
  assumes "reachable c E EK RQ S"
  shows "start c E EK RQ \<lparr>sys_runner = new_runner t (config_db (sys_runner S)) (queue_db (sys_runner S))
    (finished_db (sys_runner S)), running = [], exited = False\<rparr>" (is "start c E EK RQ ?S'")
proof -
  note parts = reachable_parts [OF assms]
  have "sys_inv c E EK RQ ?S'"
    using parts(2-5) by (simp add: sys_inv_def table_inv_def setup_inv_def keys_ok_def sys_jobs_def new_runner_def)
  then show ?thesis using parts(1) unfolding start_def sys_init_def by blast
qed


text \<open>
  C31: the proving setup is computed once for the life of the database: after one successful call,
  a later process reads the same setup back from the config tree, for either kind of prover, without
  asking a prover for it (its \<open>world\<close> is arbitrary).
\<close>

theorem setup_survives_restart:
  assumes "get_proof_setup_local c w s pid cl = (Ok su, s1)" and "chacha_setup s = None"
    and "bincode_ok c" and "fault w' ConfigGet = None"
  shows "get_proof_setup_local c w' (new_runner t (config_db s1) q f) pid cl' =
      (Ok su, (new_runner t (config_db s1) q f)\<lparr>chacha_setup := Some su\<rparr>) \<and>
    get_proof_setup_remote c w' (new_runner t (config_db s1) q f) pid cl' =
      (Ok su, (new_runner t (config_db s1) q f)\<lparr>chacha_setup := Some su\<rparr>)"
proof -
  have "\<exists>b. config_db s1 pid = Some b \<and> setup_de c b = Inr su"
    using assms(1,2) bincode_okD(3) [OF assms(3)]
    by (auto simp: get_proof_setup_local_def proof_setup_init_def db_try_def ext_try_def Let_def
        split: option.splits sum.splits)
  with assms(4) show ?thesis
    by (auto simp: get_proof_setup_local_def get_proof_setup_remote_def proof_setup_init_def new_runner_def)
qed

section \<open>Witnesses\<close>


lemma demo_request_done:
  "get_verifiable_encryption demo_crates (demo_world ''cpu'') (sys_runner demo_done)
     (job_of demo_crates demo_data) = (Ok (Some demo_proof), sys_runner demo_done)"
  using request_by_phase [OF reachable_parts(3,4) [OF demo_done_reachable] _ demo_key_of(1), of "demo_world ''cpu''"]
  by (simp add: demo_phases answer_finished_def)

theorem request_returns_genuine_witness:
  "\<exists>pt o'. from_bytes (public_values demo_proof) = Ok o' \<and>
     plaintext_hash o' = demo_sha256 demo_data \<and> demo_sha256 pt = demo_sha256 demo_data \<and>
     chacha demo_crates (replicate KEY_LEN 7) (zk_nonce o') (ciphertext o') = (Ok pt :: (string, bytes) res)"
  using request_returns_genuine [OF demo_done_reachable demo_request_done demo_crypto_laws]
  by (auto simp: demo_key)

theorem request_answer_witness:
  "fst (get_verifiable_encryption demo_crates (demo_world ''cpu'') (sys_runner demo_start)
          (job_of demo_crates demo_data)) = Ok None \<and>
   job_channel (snd (get_verifiable_encryption demo_crates (demo_world ''cpu'') (sys_runner demo_start)
          (job_of demo_crates demo_data))) = [Some (job_of demo_crates demo_data)]"
proof -
  have op: "receiver_open (sys_runner demo_start)" and ch: "job_channel (sys_runner demo_start) = []"
    by (simp_all add: demo_start_def new_runner_def)
  have "initial_status ''cpu'' = Ok LocalZkProofPending" by (simp add: initial_status_def)
  from request_answer [OF demo_start_reachable op demo_world_ok _ demo_bincode(2) demo_prover this
      demo_key_of(1) prod.collapse [symmetric]]
  show ?thesis by (simp add: demo_phases ch)
qed




theorem scheduled_job_completes_witness:
  "\<exists>T pf. runs (sys_step demo_crates (demo_env ''cpu'') demo_EK demo_requested) demo_queued T \<and>
     phase demo_crates demo_k (sys_runner T) = Finished (ZkProofFinished pf)"
proof -
  have "\<not> exited demo_queued" "receiver_open (sys_runner demo_queued)"
    "None \<notin> set (job_channel (sys_runner demo_queued))" "0 < scheduled demo_crates demo_queued demo_k"
    by (simp_all add: demo_queued_def new_runner_def scheduled_def sys_jobs_def)
  from scheduled_job_completes [OF demo_queued_reachable this _ demo_world_up demo_world_ok demo_laws_up]
  show ?thesis by (simp add: job_fits_def)
qed

text \<open>A job entered, received and proved, and asked for ever after.\<close>

definition demo_trace :: "nat \<Rightarrow> demo_sys" where
  "demo_trace i = (if i = 0 then demo_start else if i = 1 then demo_queued else if i = 2 then demo_running else demo_done)"

lemma demo_trace_steps: "demo_step (demo_trace i) (demo_trace (Suc i))"
proof -
  have "demo_step demo_done (demo_done\<lparr>sys_runner := sys_runner demo_done\<rparr>)"
    using demo_request_done by (intro sys_step.request [OF _ demo_world_ok]) (auto simp: demo_done_def)
  then have "demo_step demo_done demo_done" by simp
  with demo_step_request demo_step_receive demo_step_work show ?thesis by (simp add: demo_trace_def numeral_2_eq_2)
qed


theorem network_error_finalizes_witness:
  "\<exists>e s'. prover_result demo_crates (demo_world ''network'') (sys_runner demo_running) demo_job demo_k
       (Inl (NetworkErr (RequestTimedOut []))) = ((Err e, s') :: (_, unit) res \<times> _) \<and>
     phase demo_crates demo_k s' = Finished (Failed e (Some RemoteZkProofRequesting))"
  using network_error_finalizes [OF _ demo_bincode, of "demo_world ''network''" "sys_runner demo_running"
      demo_job demo_k "RequestTimedOut []"] by auto

theorem unhandled_error_strands_job_witness:
  "\<exists>T. sys_step demo_crates (demo_env ''cpu'') demo_EK demo_requested demo_running T \<and>
     phase demo_crates demo_k (sys_runner T) = Queued LocalZkProofPending \<and> scheduled demo_crates T demo_k = 0"
proof -
  have "\<not> exited demo_running" "running demo_running = [] @ demo_job # []"
    by (simp_all add: demo_running_def)
  moreover have "\<forall>cl pk stdin. run_prove (failing_world ''cpu'' (UnhandledErr ''out of memory'')) cl pk stdin =
      Inl (UnhandledErr ''out of memory'')"
    by (simp add: failing_world_def)
  ultimately show ?thesis
    using unhandled_error_strands_job [OF demo_running_reachable _ _ demo_key_of(2) demo_phases(3)
        failing_world_ok] runs_refl by metis
qed

theorem shutdown_abandons_tasks_witness:
  "\<exists>T. runs (sys_step demo_crates (demo_env ''cpu'') demo_EK demo_requested) demo_running T \<and>
     exited T \<and> running T = [demo_job] \<and> queue_db (sys_runner T) demo_k \<noteq> None"
proof -
  have "\<not> exited demo_running" "receiver_open (sys_runner demo_running)"
    "None \<notin> set (job_channel (sys_runner demo_running))"
    by (simp_all add: demo_running_def new_runner_def)
  from shutdown_abandons_tasks [OF demo_running_reachable this demo_world_ok]
  obtain T where "runs (sys_step demo_crates (demo_env ''cpu'') demo_EK demo_requested) demo_running T"
    "exited T" "running T = [demo_job]" "queue_db (sys_runner T) = queue_db (sys_runner demo_running)"
    by (auto simp: demo_running_def new_runner_def)
  then show ?thesis by (auto simp: demo_running_def new_runner_def)
qed


theorem setup_survives_restart_witness:
  "fst (get_proof_setup_remote demo_crates (demo_world ''network'')
     (new_runner 7 [[] \<mapsto> []] Map.empty Map.empty) [] ()) = Ok \<lparr>setup_pk = (), setup_vk = ()\<rparr>"
proof -
  have "get_proof_setup_local demo_crates (demo_world ''cpu'') (sys_runner demo_start) [] () =
      (Ok \<lparr>setup_pk = (), setup_vk = ()\<rparr>,
       (sys_runner demo_start)\<lparr>config_db := [[] \<mapsto> []], chacha_setup := Some \<lparr>setup_pk = (), setup_vk = ()\<rparr>\<rparr>)"
    by (simp add: get_proof_setup_local_def proof_setup_init_def demo_start_def new_runner_def setup_from_def
        Let_def)
  from setup_survives_restart [OF this _ demo_bincode(1), of "demo_world ''network''"] show ?thesis
    by (simp add: demo_start_def new_runner_def)
qed

end
