(* ===== verification/Proxy_Properties.thy ===== *)
theory Proxy_Properties
  imports Demo_Net Runner_Properties
begin

text \<open>
  The properties of the proxy.  A submission that is forwarded carries, for each blob of the client,
  a blob of the same namespace whose data is a proof of the encryption of the client's data; while
  one is missing nothing is forwarded.  Other methods pass unchanged.  An answer is decrypted only
  after its proof is verified, and passed on byte for byte when that fails.
\<close>

section \<open>Submissions\<close>

text \<open>\<open>eb\<close> carries the stored proof for the data of \<open>b\<close>.\<close>

definition carries_proof ::
  "('p, 'pk, 'vk, 'cl, 'z) crates_scheme \<Rightarrow> ('j, 'n, 'b) net \<Rightarrow> ('pk, 'vk, 'cl) pda_runner \<Rightarrow>
     ('n, 'b) blob \<Rightarrow> ('n, 'b) blob \<Rightarrow> bool" where
  "carries_proof c n s b eb \<longleftrightarrow>
     (\<exists>k x pf d. vec_ser c (sha256 c (blob_data b)) = Inr k \<and> finished_db s k = Some x \<and>
        status_de c x = Inr (ZkProofFinished pf) \<and> proof_ser c pf = Inr d \<and>
        blob_new n (blob_namespace b) d = Inr eb)"

text \<open>\<open>eb\<close> is a blob of the same namespace with a proof of the encryption of the data of \<open>b\<close>.\<close>

definition encrypts ::
  "('p, 'pk, 'vk, 'cl, 'z) crates_scheme \<Rightarrow> env_vars \<Rightarrow> ('pk \<Rightarrow> 'vk \<Rightarrow> bool) \<Rightarrow>
     ('n, 'b) blob \<Rightarrow> ('n, 'b) blob \<Rightarrow> bool" where
  "encrypts c E EK b eb \<longleftrightarrow>
     blob_namespace eb = blob_namespace b \<and>
     (\<exists>pf k. proof_ser c pf = Inr (blob_data eb) \<and> vec_ser c (sha256 c (blob_data b)) = Inr k \<and>
        genuine c E EK k pf)"

lemma encrypt_blobs_done:
  assumes "encrypt_blobs c n ws s bs acc = (Ok (Some ebs), s')"
  shows "s' = s \<and> (\<exists>new. ebs = acc @ new \<and> list_all2 (carries_proof c n s) bs new)"
  using assms
proof (induction bs arbitrary: ws s acc)
  case (Cons b bs)
  from Cons.prems obtain pf s1 d eb where
      req: "get_verifiable_encryption c (ws 0) s (job_of c (blob_data b)) = (Ok (Some pf), s1)"
      and ser: "proof_ser c pf = Inr d" "blob_new n (blob_namespace b) d = Inr eb"
      and rest: "encrypt_blobs c n (\<lambda>i. ws (Suc i)) s1 bs (acc @ [eb]) = (Ok (Some ebs), s')"
    by (auto split: prod.splits res.splits option.splits sum.splits)
  from request_proof_stored [OF req] ser have "s1 = s" and "carries_proof c n s b eb"
    by (auto simp: carries_proof_def)
  with Cons.IH [OF rest] show ?case by auto
qed simp

lemma carries_encrypts:
  assumes "reachable c E EK RQ S" and "blob_ok n" and "carries_proof c n (sys_runner S) b eb"
  shows "encrypts c E EK b eb"
proof -
  from assms(3) obtain k x pf d where k: "vec_ser c (sha256 c (blob_data b)) = Inr k"
    and x: "finished_db (sys_runner S) k = Some x" "status_de c x = Inr (ZkProofFinished pf)"
    and d: "proof_ser c pf = Inr d" "blob_new n (blob_namespace b) d = Inr eb"
    unfolding carries_proof_def by blast
  have "finished_ok c E EK k (ZkProofFinished pf)"
    using reachable_parts(3) [OF assms(1)] x by (force simp: table_inv_def entry_ok_def dest: tree_allD)
  with k d assms(2) show ?thesis
    by (auto simp: encrypts_def finished_ok_def blob_ok_def)
qed

lemma net_okD:
  assumes "net_ok n"
  shows "json_to_vec n j = Inr b \<Longrightarrow> json_from_slice n b = Inr j"
    and "json_get n j k = Some x \<Longrightarrow> json_get n (json_set n j k v) k = Some v"
    and "k' \<noteq> k \<Longrightarrow> json_get n (json_set n j k v) k' = json_get n j k'"
    and "json_as_array n (json_array n vs) = Some vs"
    and "blob_to_value n bl = Inr v \<Longrightarrow> blob_from_value n v = Inr bl"
    and "blobs_to_value n bls = Inr v \<Longrightarrow> blobs_from_value n v = Inr bls"
  using assms unfolding net_ok_def by blast+

text \<open>A request is forwarded only after the checks and by the inbound handler.\<close>

lemma service_forwarded:
  assumes "forwarded (service c n env ws w up sock s req) = Some r"
  shows "auth_ok n (req_headers req) \<and>
    (\<exists>uri m s'. uri_parse n (upstream_uri n env sock (req_uri req)) = Some uri \<and>
       inbound_handler c n ws s (req\<lparr>req_uri := uri\<rparr>) = (Ok (Some r), m, s'))"
  using assms
  by (auto simp: service_def Let_def split: option.splits if_splits prod.splits res.splits sum.splits)

text \<open>The JSON body of a request and the method it names.\<close>

definition rpc_body :: "('j, 'n, 'b) net \<Rightarrow> ('m, string + bytes) http_request \<Rightarrow> 'j option" where
  "rpc_body n req =
     (case req_body req of
        Inl _ \<Rightarrow> None
      | Inr b \<Rightarrow> (case json_from_slice n b of Inl _ \<Rightarrow> None | Inr j \<Rightarrow> Some j))"

definition rpc_method :: "('j, 'n, 'b) net \<Rightarrow> 'j \<Rightarrow> string option" where
  "rpc_method n j = Option.bind (json_get n j ''method'') (json_as_str n)"

text \<open>The first parameter as blobs, and the other parameters.\<close>

definition submitted ::
  "('j, 'n, 'b) net \<Rightarrow> 'j \<Rightarrow> ('n, 'b) blob list \<Rightarrow> 'j list \<Rightarrow> bool" where
  "submitted n j bs rest \<longleftrightarrow>
     (\<exists>p bv. json_get n j ''params'' = Some p \<and> json_as_array n p = Some (bv # rest) \<and>
        blobs_from_value n bv = Inr bs)"

lemma inbound_forwards:
  assumes "inbound_handler c n ws s req = (Ok (Some r), m, s')" and "rpc_body n req = Some j"
  shows "req_uri r = req_uri req \<and> req_head r = req_head req \<and>
    req_headers r = header_remove (req_headers req) ''content-length'' \<and>
    m = (case rpc_method n j of None \<Rightarrow> [] | Some x \<Rightarrow> x) \<and>
    (\<exists>j'. json_to_vec n j' = Inr (req_body r) \<and>
       (if rpc_method n j = Some ''blob.Submit'' then intercept_submit c n ws s j = (Ok (Some j'), s')
        else j' = j \<and> s' = s))"
  using assms
  by (auto simp: inbound_handler_def rpc_body_def rpc_method_def Let_def
      split: sum.splits if_splits prod.splits res.splits option.splits)

lemma intercept_submit_done:
  assumes "intercept_submit c n ws s j = (Ok (Some j'), s')" and "submitted n j bs rest"
  shows "s' = s \<and> (\<exists>ebs v. list_all2 (carries_proof c n s) bs ebs \<and> blobs_to_value n ebs = Inr v \<and>
    j' = json_set n j ''params'' (json_array n (v # rest)))"
proof -
  from assms obtain x t where enc: "encrypt_blobs c n ws s bs [] = (Ok x, t)"
    and x: "(case x of None \<Rightarrow> (Ok None, t)
        | Some ebs \<Rightarrow> (case blobs_to_value n ebs of
             Inl e \<Rightarrow> (Err e, t)
           | Inr v \<Rightarrow> (Ok (Some (json_set n j ''params'' (json_array n (v # rest)))), t))) = (Ok (Some j'), s')"
    by (auto simp: intercept_submit_def submitted_def res_simps)
  then obtain ebs v where ebs: "x = Some ebs" and v: "blobs_to_value n ebs = Inr v"
      "j' = json_set n j ''params'' (json_array n (v # rest))" "t = s'"
    by (auto split: option.splits sum.splits)
  then have enc: "encrypt_blobs c n ws s bs [] = (Ok (Some ebs), s')" using enc by simp
  from encrypt_blobs_done [OF enc] v show ?thesis by auto
qed

text \<open>What a forwarded submission holds.\<close>

lemma forwarded_submission:
  assumes "reachable c E EK RQ S" and "net_ok n" and "blob_ok n"
    and "rpc_body n req = Some j" and "rpc_method n j = Some ''blob.Submit''" and "submitted n j bs rest"
    and "forwarded (service c n env ws w up sock (sys_runner S) req) = Some r"
  shows "\<exists>j' ebs. json_from_slice n (req_body r) = Inr j' \<and> submitted n j' ebs rest \<and>
    list_all2 (encrypts c E EK) bs ebs \<and>
    (\<forall>f. f \<noteq> ''params'' \<longrightarrow> json_get n j' f = json_get n j f)"
proof -
  obtain uri m s' where inb: "inbound_handler c n ws (sys_runner S) (req\<lparr>req_uri := uri\<rparr>) = (Ok (Some r), m, s')"
    using service_forwarded [OF assms(7)] by blast
  have "rpc_body n (req\<lparr>req_uri := uri\<rparr>) = Some j" using assms(4) by (simp add: rpc_body_def)
  from inbound_forwards [OF inb this] assms(5) obtain j' where
      j': "json_to_vec n j' = Inr (req_body r)" "intercept_submit c n ws (sys_runner S) j = (Ok (Some j'), s')"
    by auto
  from intercept_submit_done [OF j'(2) assms(6)] obtain ebs v where
      all: "list_all2 (carries_proof c n (sys_runner S)) bs ebs" and v: "blobs_to_value n ebs = Inr v"
      and set: "j' = json_set n j ''params'' (json_array n (v # rest))" by blast
  from all have "list_all2 (encrypts c E EK) bs ebs"
    by (rule list_all2_mono) (rule carries_encrypts [OF assms(1,3)])
  moreover have "submitted n j' ebs rest"
    using assms(6) net_okD(2,4,6) [OF assms(2)] v unfolding submitted_def set by blast
  ultimately show ?thesis
    using net_okD(1) [OF assms(2) j'(1)] net_okD(3) [OF assms(2)] unfolding set by blast
qed

text \<open>
  C3: a submission the proxy forwards in a reachable state has, in place of the client's blobs, as
  many blobs of the same namespaces, in the same order, each with a serialised proof of the
  encryption of the client's data under the configured key; every other parameter and field of the
  call is the client's.
\<close>

theorem submit_forwards_proofs_only:
  assumes "reachable c E EK RQ S" and "net_ok n" and "blob_ok n"
    and "rpc_body n req = Some j" and "rpc_method n j = Some ''blob.Submit''" and "submitted n j bs rest"
    and "forwarded (service c n env ws w up sock (sys_runner S) req) = Some r"
  shows "\<exists>j' ebs. json_from_slice n (req_body r) = Inr j' \<and> submitted n j' ebs rest \<and>
    list_all2 (encrypts c E EK) bs ebs \<and>
    (\<forall>f. f \<noteq> ''params'' \<longrightarrow> json_get n j' f = json_get n j f)"
  using assms by (rule forwarded_submission)

text \<open>
  C19: without a well-formed bearer token nothing is sent upstream and the runner is not asked: the
  answer is 401, whatever the body.
\<close>

theorem unauthorized_rejected:
  assumes "uri_parse n (upstream_uri n env sock (req_uri req)) \<noteq> None"
    and "\<forall>v a. header_get (req_headers req) ''authorization'' = Some v \<longrightarrow> header_to_str n v = Some a \<longrightarrow>
           \<not> starts_with ''Bearer '' a"
  shows "service c n env ws w up sock s req =
    \<lparr>out_response = Ok bad_auth_response, forwarded = None, out_state = s\<rparr> \<and>
    resp_status bad_auth_response = 401"
proof -
  have "\<not> auth_ok n (req_headers req)"
    using assms(2) by (auto simp: auth_ok_def split: option.splits bind_splits)
  with assms(1) show ?thesis
    by (auto simp: service_def bad_auth_response_def new_response_from_def)
qed

section \<open>Pending submissions\<close>

text \<open>Blobs whose proofs are stored are passed over, without a change of state.\<close>

lemma encrypt_blobs_skip:
  assumes "\<forall>b \<in> set pre. \<exists>eb. carries_proof c n s b eb" and "\<forall>i op. fault (ws i) op = None"
  shows "\<exists>ws' acc'. (\<forall>i op. fault (ws' i) op = None) \<and> range ws' \<subseteq> range ws \<and>
    encrypt_blobs c n ws s (pre @ post) acc = encrypt_blobs c n ws' s post acc'"
  using assms
proof (induction pre arbitrary: ws acc)
  case Nil
  show ?case by (intro exI [of _ ws] exI [of _ acc]) (use Nil(2) in auto)
next
  case (Cons b pre)
  then obtain eb where eb: "carries_proof c n s b eb" by auto
  let ?ws = "\<lambda>i. ws (Suc i)"
  have "encrypt_blobs c n ws s ((b # pre) @ post) acc = encrypt_blobs c n ?ws s (pre @ post) (acc @ [eb])"
    using eb Cons.prems(2)
    by (auto simp: carries_proof_def get_verifiable_encryption_def anchor_ser_def answer_finished_def)
  moreover have "range ?ws \<subseteq> range ws" by auto
  moreover obtain ws' acc' where "\<forall>i op. fault (ws' i) op = None" "range ws' \<subseteq> range ?ws"
      "encrypt_blobs c n ?ws s (pre @ post) (acc @ [eb]) = encrypt_blobs c n ws' s post acc'"
    using Cons.IH [of ?ws "acc @ [eb]"] Cons.prems by auto
  ultimately show ?case by (intro exI [of _ ws'] exI [of _ acc']) (auto simp del: encrypt_blobs.simps)
qed

lemma encrypt_blobs_pending:
  assumes "\<forall>b \<in> set pre. \<exists>eb. carries_proof c n s b eb" and "\<forall>i op. fault (ws i) op = None"
    and "\<And>i. get_verifiable_encryption c (ws i) s (job_of c (blob_data b)) = (Ok None, s')"
  shows "encrypt_blobs c n ws s (pre @ b # post) acc = (Ok None, s')"
proof -
  obtain ws' acc' where ws': "range ws' \<subseteq> range ws"
      "encrypt_blobs c n ws s (pre @ b # post) acc = encrypt_blobs c n ws' s (b # post) acc'"
    using encrypt_blobs_skip [OF assms(1,2), where post = "b # post" and acc = acc] by blast
  have "ws' 0 \<in> range ws" using ws'(1) by auto
  then obtain i where "ws' 0 = ws i" by blast
  with ws'(2) assms(3) [of i] show ?thesis by simp
qed

text \<open>Whatever the environments, a job without a result is answered as pending.\<close>

lemma request_pending:
  assumes "reachable c E EK RQ S" and "receiver_open (sys_runner S)"
    and "\<forall>i. world_ok c E EK RQ (ws i)" and "\<forall>i op. fault (ws i) op = None"
    and "bincode_total c" and "E ''SP1_PROVER'' = Some p" and "initial_status p = Ok st0"
    and k: "vec_ser c (sha256 c d) = Inr k"
    and ph: "phase c k (sys_runner S) = Absent \<or> phase c k (sys_runner S) = Queued st"
  shows "\<exists>s'. (\<forall>i. get_verifiable_encryption c (ws i) (sys_runner S) (job_of c d) = (Ok None, s')) \<and>
    (phase c k (sys_runner S) = Absent \<longrightarrow> phase c k s' = Queued st0) \<and>
    (phase c k (sys_runner S) = Queued st \<longrightarrow> s' = sys_runner S)"
proof -
  have env: "env_var (ws i) = E" for i using world_okD(1) assms(3) by blast
  have nofault: "\<forall>op. fault (ws i) op = None" for i using assms(4) by blast
  note parts = reachable_parts [OF assms(1)]
  note by_phase = request_by_phase [OF parts(3,4) nofault k]
  from ph show ?thesis
  proof
    assume ab: "phase c k (sys_runner S) = Absent"
    have fin: "finished_db (sys_runner S) k = None"
      using parts(3,4) by (cases rule: phase_cases [where k = k]) (use ab in auto)
    obtain y where y: "status_ser c st0 = Inr y" using assms(5) unfolding bincode_total_def by blast
    then have de: "status_de c y = Inr st0" using bincode_okD(2) [OF parts(1)] by blast
    have "enqueue_new c (ws i) (sys_runner S) (job_of c d) k =
        (Ok None, (sys_runner S)\<lparr>queue_db := (queue_db (sys_runner S))(k \<mapsto> y),
           job_channel := job_channel (sys_runner S) @ [Some (job_of c d)]\<rparr>)" for i
      using y nofault env assms(2,6,7) by (simp add: enqueue_new_def chan_send_def)
    then show ?thesis using by_phase ab fin de by (auto intro: phase_queued)
  qed (use by_phase in auto)
qed

text \<open>What a pending submission leads to.\<close>

lemma pending_service:
  assumes "reachable c E EK RQ S" and "receiver_open (sys_runner S)"
    and "\<forall>i. world_ok c E EK RQ (ws i)" and "\<forall>i op. fault (ws i) op = None"
    and "bincode_total c" and "E ''SP1_PROVER'' = Some p" and "initial_status p = Ok st0"
    and "uri_parse n (upstream_uri n env sock (req_uri req)) = Some uri" and "auth_ok n (req_headers req)"
    and "rpc_body n req = Some j" and "rpc_method n j = Some ''blob.Submit''"
    and "submitted n j (pre @ b # post) rest"
    and "\<forall>x \<in> set pre. \<exists>eb. carries_proof c n (sys_runner S) x eb"
    and "vec_ser c (sha256 c (blob_data b)) = Inr k"
    and "phase c k (sys_runner S) = Absent \<or> phase c k (sys_runner S) = Queued st"
  shows "\<exists>s'. service c n env ws w up sock (sys_runner S) req =
      \<lparr>out_response = Ok pending_response, forwarded = None, out_state = s'\<rparr> \<and>
    (\<forall>i. get_verifiable_encryption c (ws i) (sys_runner S) (job_of c (blob_data b)) = (Ok None, s')) \<and>
    (phase c k (sys_runner S) = Absent \<longrightarrow> phase c k s' = Queued st0) \<and>
    (phase c k (sys_runner S) = Queued st \<longrightarrow> s' = sys_runner S)"
proof -
  obtain s' where req: "\<And>i. get_verifiable_encryption c (ws i) (sys_runner S) (job_of c (blob_data b)) = (Ok None, s')"
    and post: "phase c k (sys_runner S) = Absent \<longrightarrow> phase c k s' = Queued st0"
      "phase c k (sys_runner S) = Queued st \<longrightarrow> s' = sys_runner S"
    using request_pending [OF assms(1-7,14,15)] by blast
  have "intercept_submit c n ws (sys_runner S) j = (Ok None, s')"
    using encrypt_blobs_pending [OF assms(13,4) req] assms(12)
    by (auto simp: intercept_submit_def submitted_def)
  then have "service c n env ws w up sock (sys_runner S) req =
      \<lparr>out_response = Ok pending_response, forwarded = None, out_state = s'\<rparr>"
    using assms(8-11)
    by (auto simp: service_def inbound_handler_def rpc_body_def rpc_method_def split: sum.splits)
  with post req show ?thesis by blast
qed

text \<open>
  C15: while the proof of one submitted blob is not there (the blobs before it have theirs), the
  client gets 202 and nothing is sent upstream; a blob seen for the first time is queued by the same
  call, one that is queued already is left alone.
\<close>

theorem submit_pending_not_forwarded:
  assumes "reachable c E EK RQ S" and "receiver_open (sys_runner S)"
    and "\<forall>i. world_ok c E EK RQ (ws i)" and "\<forall>i op. fault (ws i) op = None"
    and "bincode_total c" and "E ''SP1_PROVER'' = Some p" and "initial_status p = Ok st0"
    and "uri_parse n (upstream_uri n env sock (req_uri req)) = Some uri" and "auth_ok n (req_headers req)"
    and "rpc_body n req = Some j" and "rpc_method n j = Some ''blob.Submit''"
    and "submitted n j (pre @ b # post) rest"
    and "\<forall>x \<in> set pre. \<exists>eb. carries_proof c n (sys_runner S) x eb"
    and "vec_ser c (sha256 c (blob_data b)) = Inr k"
    and "phase c k (sys_runner S) = Absent \<or> phase c k (sys_runner S) = Queued st"
  shows "out_response (service c n env ws w up sock (sys_runner S) req) = Ok pending_response \<and>
    resp_status pending_response = 202 \<and>
    forwarded (service c n env ws w up sock (sys_runner S) req) = None \<and>
    (phase c k (sys_runner S) = Absent \<longrightarrow>
       phase c k (out_state (service c n env ws w up sock (sys_runner S) req)) = Queued st0) \<and>
    (phase c k (sys_runner S) = Queued st \<longrightarrow>
       out_state (service c n env ws w up sock (sys_runner S) req) = sys_runner S)"
proof -
  obtain s' where "service c n env ws w up sock (sys_runner S) req =
      \<lparr>out_response = Ok pending_response, forwarded = None, out_state = s'\<rparr>"
      "phase c k (sys_runner S) = Absent \<longrightarrow> phase c k s' = Queued st0"
      "phase c k (sys_runner S) = Queued st \<longrightarrow> s' = sys_runner S"
    using pending_service [OF assms] by blast
  then show ?thesis by (simp add: pending_response_def new_response_from_def)
qed

section \<open>Other methods\<close>

text \<open>
  C20: a call of any other method (or a JSON body that names none) is forwarded as the same JSON
  value, with the same head and headers except \<open>content-length\<close>, to the configured node; the runner
  is not involved.
\<close>

theorem other_methods_forwarded_unchanged:
  assumes "net_ok n" and "net_total n"
    and "uri_parse n (upstream_uri n env sock (req_uri req)) = Some uri" and "auth_ok n (req_headers req)"
    and "rpc_body n req = Some j" and "rpc_method n j \<noteq> Some ''blob.Submit''"
  shows "\<exists>r. forwarded (service c n env ws w up sock s req) = Some r \<and>
    json_from_slice n (req_body r) = Inr j \<and> req_uri r = uri \<and> req_head r = req_head req \<and>
    req_headers r = header_remove (req_headers req) ''content-length'' \<and>
    (\<forall>e. up r = Inl e \<longrightarrow> out_state (service c n env ws w up sock s req) = s)"
proof -
  obtain jb where jb: "json_to_vec n j = Inr jb" using assms(2) unfolding net_total_def by blast
  let ?r = "\<lparr>req_head = req_head req, req_uri = uri,
      req_headers = header_remove (req_headers req) ''content-length'', req_body = jb\<rparr>"
  have inb: "inbound_handler c n ws s (req\<lparr>req_uri := uri\<rparr>) =
      (Ok (Some ?r), case rpc_method n j of None \<Rightarrow> [] | Some m \<Rightarrow> m, s)"
    using assms(5,6) jb by (auto simp: inbound_handler_def rpc_body_def rpc_method_def split: sum.splits)
  have "forwarded (service c n env ws w up sock s req) = Some ?r"
    "\<forall>e. up ?r = Inl e \<longrightarrow> out_state (service c n env ws w up sock s req) = s"
    using assms(3,4) inb by (auto simp: service_def split: sum.splits prod.splits res.splits)
  with net_okD(1) [OF assms(1) jb] show ?thesis by (intro exI [of _ ?r]) auto
qed

section \<open>Decryption\<close>

lemma anyhow_eq:
  "anyhow m = (Ok a, s) \<longleftrightarrow> m = (Ok a, s)"
  "anyhow m = (Panic p, s) \<longleftrightarrow> m = (Panic p, s)"
  "snd (anyhow m) = snd m"
  by (cases m; cases "fst m"; auto simp: anyhow_def)+

lemma anyhow_Ok [simp]: "anyhow (Ok a, s) = (Ok a, s)"
  by (simp add: anyhow_def)

text \<open>Verification of a genuine proof succeeds and leaves the job table alone.\<close>

lemma extract_up:
  assumes up: "world_up c RQ w" and laws: "laws_up c ks fits" and ok: "world_ok c E EK RQ w"
    and inv: "setup_inv c EK s" and pf: "proof_ok c EK stdin pf"
  shows "\<exists>s'. extract_verified_proof_output c w s pf = (from_bytes (public_values pf), s') \<and>
    setup_inv c EK s' \<and> table s' = table s"
proof -
  obtain cl s1 where cl: "get_zk_client_local w s = (Ok cl, s1)"
    using get_zk_client_local_up [OF up] by blast
  have s1: "setup_inv c EK s1" "table s1 = table s" using get_zk_client_local_effect [OF cl inv] by auto
  obtain s2 where pid: "get_program_id c s1 = (sha256 c (chacha_elf c), s2)" "setup_inv c EK s2" "table s2 = table s1"
    by (rule get_program_id_up [OF s1(1)])
  obtain su s3 where su: "get_proof_setup_local c w s2 (sha256 c (chacha_elf c)) cl = (Ok su, s3)"
    using get_proof_setup_up(1) [OF up laws pid(2)] by blast
  have eff: "table s3 = table s2 \<and> setup_inv c EK s3 \<and> EK (setup_pk su) (setup_vk su)"
    using get_proof_setup_effect [OF disjI1 [OF su] pid(2) ok] laws by (auto simp: laws_up_def)
  then have "sp1_verify c cl pf (setup_vk su) = None" using pf unfolding proof_ok_def by blast
  with cl pid(1) su have "extract_verified_proof_output c w s pf = (from_bytes (public_values pf), s3)"
    by (simp add: extract_verified_proof_output_def)
  with eff s1 pid show ?thesis by auto
qed

lemma verify_decrypt_up:
  assumes up: "world_up c RQ w" and laws: "laws_up c ks fits" and ok: "world_ok c E EK RQ w"
    and sha: "sha256_ok c" and inv: "setup_inv c EK s" and enc: "encrypts c E EK b eb"
    and key: "encryption_key c E = (Ok key :: (pda_runner_error, bytes) res)"
  shows "\<exists>pt s'. verify_decrypt_blob c w s eb key = (Ok (eb\<lparr>blob_data := pt\<rparr>), s') \<and>
    sha256 c pt = sha256 c (blob_data b) \<and> setup_inv c EK s' \<and> table s' = table s"
proof -
  have bin: "bincode_ok c" and ks: "keystream_ok c ks fits" using laws by (auto simp: laws_up_def)
  from enc obtain pf k where ser: "proof_ser c pf = Inr (blob_data eb)"
    and k: "vec_ser c (sha256 c (blob_data b)) = Inr k" and gen: "genuine c E EK k pf"
    unfolding encrypts_def by blast
  from gen obtain stdin where "proof_ok c EK stdin pf" unfolding genuine_def by blast
  from extract_up [OF up laws ok inv this] obtain s' where
      ext: "extract_verified_proof_output c w s pf = (from_bytes (public_values pf), s')"
      and s': "setup_inv c EK s'" "table s' = table s" by blast
  from genuine_reads [OF gen k bin sha ks] key obtain pt out where
      pt: "sha256 c pt = sha256 c (blob_data b)" "from_bytes (public_values pf) = Ok out"
      "chacha c key (zk_nonce out) (ciphertext out) = (Ok pt :: (string, bytes) res)" by auto
  have "verify_decrypt_blob c w s eb key = (Ok (eb\<lparr>blob_data := pt\<rparr>), s')"
    using bincode_okD(4) [OF bin ser] ext pt(2,3) by (simp add: verify_decrypt_blob_def)
  with pt(1) s' show ?thesis by blast
qed

lemma encryption_key_E:
  "world_ok c E EK RQ w \<Longrightarrow> world_up c RQ w \<Longrightarrow>
     \<exists>key. encryption_key c E = (Ok key :: ('e, bytes) res) \<and> env_var w = E \<and>
       encryption_key c E = (Ok key :: (pda_runner_error, bytes) res)"
  using world_okD(1) encryption_key_Ok_any unfolding world_up_def by metis

text \<open>The answer to \<open>blob.Get\<close>, decrypted.\<close>

lemma get_decrypts:
  assumes "world_up c RQ w" and "laws_up c ks fits" and "world_ok c E EK RQ w" and "sha256_ok c"
    and "setup_inv c EK s" and "net_ok n" and "net_total n"
    and "resp_body resp = Inr bb" and "resp_status resp \<noteq> 401" and "json_from_slice n bb = Inr j"
    and "json_get n j ''result'' = Some rv" and "blob_from_value n rv = Inr eb" and "encrypts c E EK b eb"
  shows "\<exists>resp' s' j' rv' pt. outbound_handler c n w s resp ''blob.Get'' = (Ok resp', s') \<and>
    resp_status resp' = resp_status resp \<and> json_from_slice n (resp_body resp') = Inr j' \<and>
    json_get n j' ''result'' = Some rv' \<and> blob_from_value n rv' = Inr (eb\<lparr>blob_data := pt\<rparr>) \<and>
    blob_namespace (eb\<lparr>blob_data := pt\<rparr>) = blob_namespace b \<and>
    sha256 c pt = sha256 c (blob_data b) \<and> table s' = table s"
proof -
  obtain key where key: "encryption_key c E = (Ok key :: (string, bytes) res)" "env_var w = E"
      "encryption_key c E = (Ok key :: (pda_runner_error, bytes) res)"
    using encryption_key_E [OF assms(3,1)] by blast
  obtain pt s' where dec: "verify_decrypt_blob c w s eb key = (Ok (eb\<lparr>blob_data := pt\<rparr>), s')"
    and pt: "sha256 c pt = sha256 c (blob_data b)" "table s' = table s"
    using verify_decrypt_up [OF assms(1-5,13) key(3)] by blast
  obtain v where v: "blob_to_value n (eb\<lparr>blob_data := pt\<rparr>) = Inr v"
    using assms(7) unfolding net_total_def by blast
  obtain jb where jb: "json_to_vec n (json_set n j ''result'' v) = Inr jb"
    using assms(7) unfolding net_total_def by blast
  have "outbound_handler c n w s resp ''blob.Get'' =
      (Ok \<lparr>resp_status = resp_status resp, resp_headers = header_remove (resp_headers resp) ''content-length'',
           resp_body = jb\<rparr>, s')"
    using assms(8-12) key(1,2) dec v jb by (simp add: outbound_handler_def try_mutate_response_def)
  with net_okD(1) [OF assms(6) jb] net_okD(2) [OF assms(6,11)] net_okD(5) [OF assms(6) v] pt assms(13)
  show ?thesis by (auto simp: encrypts_def)
qed

text \<open>The decrypted values stand for the blobs in order.\<close>

lemma decrypt_all_up:
  assumes up: "world_up c RQ w" and laws: "laws_up c ks fits" and ok: "world_ok c E EK RQ w"
    and sha: "sha256_ok c" and net: "net_ok n" "net_total n"
    and key: "encryption_key c E = (Ok key :: (pda_runner_error, bytes) res)"
    and "setup_inv c EK s"
    and "list_all2 (\<lambda>v b. \<exists>eb. blob_from_value n v = Inr eb \<and> encrypts c E EK b eb) vs bs"
  shows "\<exists>s' new. decrypt_all c n w s vs key acc = (Ok (acc @ new), s') \<and> table s' = table s \<and>
    list_all2 (\<lambda>v b. \<exists>pb. blob_from_value n v = Inr pb \<and> blob_namespace pb = blob_namespace b \<and>
      sha256 c (blob_data pb) = sha256 c (blob_data b)) new bs"
  using assms(8,9)
proof (induction vs arbitrary: bs s acc)
  case (Cons v vs)
  then obtain b bs' eb where bs: "bs = b # bs'" and eb: "blob_from_value n v = Inr eb" "encrypts c E EK b eb"
    and rest: "list_all2 (\<lambda>v b. \<exists>eb. blob_from_value n v = Inr eb \<and> encrypts c E EK b eb) vs bs'"
    by (auto simp: list_all2_Cons1)
  obtain pt s1 where dec: "verify_decrypt_blob c w s eb key = (Ok (eb\<lparr>blob_data := pt\<rparr>), s1)"
    and pt: "sha256 c pt = sha256 c (blob_data b)" "setup_inv c EK s1" "table s1 = table s"
    using verify_decrypt_up [OF up laws ok sha Cons.prems(1) eb(2) key] by blast
  obtain v' where v': "blob_to_value n (eb\<lparr>blob_data := pt\<rparr>) = Inr v'"
    using net(2) unfolding net_total_def by blast
  from Cons.IH [OF pt(2) rest, of "acc @ [v']"] obtain s' new where
      IH: "decrypt_all c n w s1 vs key ((acc @ [v']) @ []) = (Ok ((acc @ [v']) @ new), s')" "table s' = table s1"
      "list_all2 (\<lambda>v b. \<exists>pb. blob_from_value n v = Inr pb \<and> blob_namespace pb = blob_namespace b \<and>
         sha256 c (blob_data pb) = sha256 c (blob_data b)) new bs'" by auto
  have "\<exists>pb. blob_from_value n v' = Inr pb \<and> blob_namespace pb = blob_namespace b \<and>
      sha256 c (blob_data pb) = sha256 c (blob_data b)"
    using net_okD(5) [OF net(1) v'] pt(1) eb(2) by (auto simp: encrypts_def)
  with IH eb(1) dec v' pt(3) bs show ?case
    by (intro exI [of _ s'] exI [of _ "v' # new"]) simp
qed simp

text \<open>
  C18: the answer to \<open>blob.GetAll\<close> with blobs the proxy encrypted is returned with all of them
  decrypted, in order: same namespaces, data with the hashes of the submitted data.
\<close>

theorem get_all_returns_plaintexts:
  assumes "world_up c RQ w" and "laws_up c ks fits" and "world_ok c E EK RQ w" and "sha256_ok c"
    and "setup_inv c EK s" and "net_ok n" and "net_total n"
    and "resp_body resp = Inr bb" and "resp_status resp \<noteq> 401" and "json_from_slice n bb = Inr j"
    and "json_get n j ''result'' = Some rv" and "json_as_array n rv = Some vs"
    and "list_all2 (\<lambda>v b. \<exists>eb. blob_from_value n v = Inr eb \<and> encrypts c E EK b eb) vs bs"
  shows "\<exists>resp' s' j' rv' vs'. outbound_handler c n w s resp ''blob.GetAll'' = (Ok resp', s') \<and>
    resp_status resp' = resp_status resp \<and> json_from_slice n (resp_body resp') = Inr j' \<and>
    json_get n j' ''result'' = Some rv' \<and> json_as_array n rv' = Some vs' \<and>
    list_all2 (\<lambda>v b. \<exists>pb. blob_from_value n v = Inr pb \<and> blob_namespace pb = blob_namespace b \<and>
      sha256 c (blob_data pb) = sha256 c (blob_data b)) vs' bs"
proof -
  obtain key where key: "encryption_key c E = (Ok key :: (string, bytes) res)" "env_var w = E"
      "encryption_key c E = (Ok key :: (pda_runner_error, bytes) res)"
    using encryption_key_E [OF assms(3,1)] by blast
  obtain s' vs' where dec: "decrypt_all c n w s vs key [] = (Ok vs', s')"
    and all: "list_all2 (\<lambda>v b. \<exists>pb. blob_from_value n v = Inr pb \<and> blob_namespace pb = blob_namespace b \<and>
      sha256 c (blob_data pb) = sha256 c (blob_data b)) vs' bs"
    using decrypt_all_up [OF assms(1-4,6,7) key(3) assms(5,13), of "[]"] by auto
  obtain jb where jb: "json_to_vec n (json_set n j ''result'' (json_array n vs')) = Inr jb"
    using assms(7) unfolding net_total_def by blast
  have "outbound_handler c n w s resp ''blob.GetAll'' =
      (Ok \<lparr>resp_status = resp_status resp, resp_headers = header_remove (resp_headers resp) ''content-length'',
           resp_body = jb\<rparr>, s')"
    using assms(8-12) key(1,2) dec jb by (simp add: outbound_handler_def try_mutate_response_def)
  with net_okD(1) [OF assms(6) jb] net_okD(2) [OF assms(6,11)] net_okD(4) [OF assms(6)] all
  show ?thesis by auto
qed

section \<open>Answers that cannot be decrypted\<close>

lemma extract_rejected:
  assumes "client_from_env w \<noteq> None" and "\<forall>cl vk. sp1_verify c cl pf vk \<noteq> None"
  shows "\<exists>e s'. extract_verified_proof_output c w s pf = (Err e, s')"
proof -
  have "\<exists>cl s1. get_zk_client_local w s = (Ok cl, s1)"
    using assms(1) by (auto simp: get_zk_client_local_def split: option.splits)
  then obtain cl s1 where cl: "get_zk_client_local w s = (Ok cl, s1)" by blast
  obtain pid s2 where pid: "get_program_id c s1 = (pid, s2)" by fastforce
  obtain r s3 where su: "get_proof_setup_local c w s2 pid cl = (r, s3)" by fastforce
  have "\<not> is_panic r"
    using su by (auto simp: get_proof_setup_local_def proof_setup_init_def db_try_def ext_try_def Let_def
        split: option.splits sum.splits)
  then consider (ok) v where "r = Ok v" | (err) e where "r = Err e" by (cases r) auto
  then show ?thesis
  proof cases
    case ok
    obtain e where "sp1_verify c cl pf (setup_vk v) = Some e" using assms(2) by blast
    with ok cl pid su show ?thesis by (simp add: extract_verified_proof_output_def)
  qed (use cl pid su in \<open>simp add: extract_verified_proof_output_def anyhow_def\<close>)
qed


section \<open>What a decrypted blob is\<close>

lemma extract_verified:
  assumes "extract_verified_proof_output c w s pf = (Ok out, s')"
    and "setup_inv c EK s" and "world_ok c E EK RQ w" and "bincode_ok c"
  shows "from_bytes (public_values pf) = Ok out \<and> setup_inv c EK s' \<and>
    (\<exists>cl pk vk. EK pk vk \<and> sp1_verify c cl pf vk = None)"
proof -
  from assms(1) obtain cl s1 where cl: "get_zk_client_local w s = (Ok cl, s1)"
    by (auto simp: extract_verified_proof_output_def and_then_eq_iff anyhow_eq)
  obtain pid s2 where pid: "get_program_id c s1 = (pid, s2)" by fastforce
  from assms(1) cl pid obtain su where su: "get_proof_setup_local c w s2 pid cl = (Ok su, s')"
    and ver: "sp1_verify c cl pf (setup_vk su) = None" "from_bytes (public_values pf) = Ok out"
    by (auto simp: extract_verified_proof_output_def and_then_eq_iff anyhow_eq split: option.splits)
  have s1: "setup_inv c EK s1" using get_zk_client_local_effect [OF cl assms(2)] by simp
  have s2: "pid = sha256 c (chacha_elf c)" "setup_inv c EK s2" using get_program_id_effect [OF pid s1] by auto
  from get_proof_setup_effect [OF disjI1 [OF su [unfolded s2(1)]] s2(2) assms(3,4)] ver
  show ?thesis by blast
qed

text \<open>
  C16: a blob is decrypted only after its proof is verified, so its ciphertext is the output of a
  completed run of the guest on some key, nonce and plaintext.  The data returned is that plaintext
  under both key streams: the plaintext itself when the run used the proxy's own key.  Neither the
  key's hash nor the plaintext's hash of the proof is compared, so a blob encrypted under another key
  is returned garbled, not passed through.
\<close>

theorem decrypted_blob_attested:
  assumes "verify_decrypt_blob c w s bl key = (Ok bl', s')"
    and "setup_inv c EK s" and "world_ok c E EK RQ w" and "bincode_ok c" and "verify_ok c EK"
    and "sha256_ok c" and "keystream_ok c ks fits"
  shows "\<exists>pf key' nonce pt rest. proof_de c (blob_data bl) = Inr pf \<and>
    program_main c (key' # nonce # pt # rest) = Ok (public_values pf) \<and>
    bl' = bl\<lparr>blob_data := xor_stream (ks key nonce) (xor_stream (ks key' nonce) pt)\<rparr> \<and>
    (key' = key \<longrightarrow> blob_data bl' = pt)"
proof -
  from assms(1) obtain pf out s1 buf where pf: "proof_de c (blob_data bl) = Inr pf"
    and ext: "extract_verified_proof_output c w s pf = (Ok out, s1)"
    and ch: "chacha c key (zk_nonce out) (ciphertext out) = (Ok buf :: (string, bytes) res)"
    and bl': "bl' = bl\<lparr>blob_data := buf\<rparr>"
    by (auto simp: verify_decrypt_blob_def res_simps split: sum.splits)
  note ver = extract_verified [OF ext assms(2-4)]
  then obtain stdin where run: "program_main c stdin = Ok (public_values pf)"
    using assms(5) unfolding verify_ok_def by blast
  from run obtain key' nonce pt rest where stdin: "stdin = key' # nonce # pt # rest"
    by (rule program_main_Ok_D)
  from committed_run [OF run [unfolded stdin] assms(6,7)] ver have out: "zk_nonce out = nonce"
      and dec: "chacha c key' nonce (ciphertext out) = (Ok pt :: (string, bytes) res)" by auto
  have "ciphertext out = xor_stream (ks key' nonce) pt"
    using dec by (auto simp: chacha_iff [OF assms(7)] xor_stream_involution split: if_splits)
  moreover have "buf = xor_stream (ks key nonce) (ciphertext out)"
    using ch out by (auto simp: chacha_iff [OF assms(7)] split: if_splits)
  ultimately show ?thesis
    using pf run stdin bl' xor_stream_involution by fastforce
qed

section \<open>The handler always answers\<close>

text \<open>A call that does not panic and keeps the setup; the rules follow the shape of the code.\<close>

definition calm ::
  "('p, 'pk, 'vk, 'cl, 'z) crates_scheme \<Rightarrow> ('pk \<Rightarrow> 'vk \<Rightarrow> bool) \<Rightarrow>
     ('e, 'a) res \<times> ('pk, 'vk, 'cl) pda_runner \<Rightarrow> bool" where
  "calm c EK m \<longleftrightarrow> \<not> is_panic (fst m) \<and> setup_inv c EK (snd m)"

lemma calm_ret [simp]: "calm c EK (r, s) \<longleftrightarrow> \<not> is_panic r \<and> setup_inv c EK s"
  by (simp add: calm_def)

lemma calm_and_then:
  assumes "calm c EK m" and "\<And>a s. m = (Ok a, s) \<Longrightarrow> setup_inv c EK s \<Longrightarrow> calm c EK (k a s)"
  shows "calm c EK (and_then m k)"
  using assms by (cases m; cases "fst m") auto

lemma calm_anyhow: "calm c EK m \<Longrightarrow> calm c EK (anyhow m)"
  by (cases m; cases "fst m") (auto simp: anyhow_def)

lemma request_calm:
  assumes "bincode_total c" and "env_var w ''SP1_PROVER'' \<noteq> None" and "setup_inv c EK s"
  shows "calm c EK (get_verifiable_encryption c w s j)"
proof -
  have ser: "\<exists>b. status_ser c st = Inr b" for st using assms(1) unfolding bincode_total_def by blast
  have send: "\<not> is_panic (fst (send_job_with_new_status c w s k st j))" for k st
    using ser [of st] by (auto simp: send_job_with_new_status_def db_try_def chan_send_def
        split: option.splits if_splits)
  have "send_job_with_new_status c w s k st j \<noteq> (Panic p, t)" for k st p t
    using send [of k st] by auto
  then have "\<not> is_panic (fst (answer_finished c w s j k st))" for k st
    by (cases st) (auto simp: answer_finished_def split: option.splits prod.splits res.splits)
  moreover have "\<not> is_panic (fst (enqueue_new c w s j k))" for k
    using assms(2)
    by (auto simp: enqueue_new_def initial_status_def ext_try_def db_try_def chan_send_def
        split: sum.splits option.splits if_splits)
  moreover have "\<not> is_panic (fst (answer_queued c s k st))" for k st
    by (cases st) (auto simp: answer_queued_def)
  ultimately have "\<not> is_panic (fst (get_verifiable_encryption c w s j))"
    by (auto simp: get_verifiable_encryption_def ext_try_def db_try_def split: sum.splits option.splits)
  moreover have "setup_inv c EK (snd (get_verifiable_encryption c w s j))"
    using get_verifiable_encryption_effect [OF _ assms(3)] by (metis prod.collapse)
  ultimately show ?thesis by (simp add: calm_def)
qed

lemma encrypt_blobs_calm:
  assumes "bincode_total c" and "\<forall>i. env_var (ws i) ''SP1_PROVER'' \<noteq> None" and "setup_inv c EK s"
  shows "calm c EK (encrypt_blobs c n ws s bs acc)"
  using assms(2,3)
proof (induction bs arbitrary: ws s acc)
  case (Cons b bs)
  obtain r s1 where req: "get_verifiable_encryption c (ws 0) s (job_of c (blob_data b)) = (r, s1)" by fastforce
  have "calm c EK (r, s1)"
    using request_calm [OF assms(1) _ Cons.prems(2)] Cons.prems(1) req by metis
  then show ?case
    using req Cons.IH [of "\<lambda>i. ws (Suc i)" s1] Cons.prems(1)
    by (cases r) (auto split: option.splits sum.splits)
qed simp

lemma intercept_submit_calm:
  assumes "bincode_total c" and "\<forall>i. env_var (ws i) ''SP1_PROVER'' \<noteq> None" and "setup_inv c EK s"
  shows "calm c EK (intercept_submit c n ws s j)"
proof -
  have "calm c EK (and_then (encrypt_blobs c n ws s bs []) (\<lambda>x s'. case x of None \<Rightarrow> (Ok None, s')
      | Some ebs \<Rightarrow> (case blobs_to_value n ebs of Inl e \<Rightarrow> (Err e, s')
          | Inr v \<Rightarrow> (Ok (Some (json_set n j ''params'' (json_array n (v # rest)))), s'))))" for bs rest
    by (rule calm_and_then [OF encrypt_blobs_calm [OF assms]]) (auto split: option.splits sum.splits)
  then show ?thesis
    using assms(3) by (auto simp: intercept_submit_def simp del: calm_ret split: option.splits list.splits sum.splits)
      (simp_all)
qed

lemma inbound_calm:
  assumes "bincode_total c" and "\<forall>i. env_var (ws i) ''SP1_PROVER'' \<noteq> None" and "setup_inv c EK s"
    and "inbound_handler c n ws s req = (r, m, s')"
  shows "calm c EK (r, s')"
proof -
  have x: "intercept_submit c n ws s j = (x, t) \<Longrightarrow> \<not> is_panic x \<and> setup_inv c EK t" for j x t
    using intercept_submit_calm [OF assms(1-3), of n j] by simp
  show ?thesis
    using assms(3,4)
    by (auto simp: inbound_handler_def Let_def dest!: x
        split: sum.splits if_splits prod.splits res.splits option.splits)
qed

lemma get_proof_setup_calm:
  assumes "setup_inv c EK s" and "world_ok c E EK RQ w" and "bincode_ok c"
  shows "calm c EK (get_proof_setup_local c w s (sha256 c (chacha_elf c)) cl)"
proof -
  obtain r t where call: "get_proof_setup_local c w s (sha256 c (chacha_elf c)) cl = (r, t)" by fastforce
  then have "\<not> is_panic r"
    by (auto simp: get_proof_setup_local_def proof_setup_init_def db_try_def ext_try_def Let_def
        split: option.splits sum.splits)
  with get_proof_setup_effect [OF disjI1 [OF call] assms] call show ?thesis by simp
qed

lemma extract_calm:
  assumes "client_from_env w \<noteq> None" and "setup_inv c EK s" and "world_ok c E EK RQ w" and "bincode_ok c"
  shows "calm c EK (extract_verified_proof_output c w s pf)"
proof -
  have cl: "calm c EK (get_zk_client_local w s)"
    using assms(1,2) by (auto simp: get_zk_client_local_def setup_inv_def split: option.splits)
  have fb: "\<not> is_panic (from_bytes d)" for d
    by (cases "length d < HEADER_LEN") (simp_all add: from_bytes_short from_bytes_long)
  show ?thesis
    unfolding extract_verified_proof_output_def
  proof (rule calm_and_then [OF calm_anyhow [OF cl]])
    fix z s1
    assume s1: "setup_inv c EK s1"
    obtain s2 where pid: "get_program_id c s1 = (sha256 c (chacha_elf c), s2)" "setup_inv c EK s2"
      by (rule get_program_id_up [OF s1])
    show "calm c EK (case get_program_id c s1 of (pid, s2) \<Rightarrow>
         and_then (anyhow (get_proof_setup_local c w s2 pid z)) (\<lambda>su s3.
           case sp1_verify c z pf (setup_vk su) of
             Some e \<Rightarrow> (Err e, s3) | None \<Rightarrow> (from_bytes (public_values pf), s3)))"
      unfolding pid(1) prod.case
      by (rule calm_and_then [OF calm_anyhow [OF get_proof_setup_calm [OF pid(2) assms(3,4)]]])
        (auto simp: fb split: option.splits)
  qed
qed

lemma verify_decrypt_calm:
  assumes "client_from_env w \<noteq> None" and "setup_inv c EK s" and "world_ok c E EK RQ w" and "bincode_ok c"
    and "verify_ok c EK" and "sha256_ok c" and "keystream_ok c ks fits"
  shows "calm c EK (verify_decrypt_blob c w s bl key)"
proof -
  have "calm c EK (and_then (extract_verified_proof_output c w s pf) (\<lambda>out s'.
      and_then (chacha c key (zk_nonce out) (ciphertext out), s') (\<lambda>buffer s''.
        (Ok (bl\<lparr>blob_data := buffer\<rparr>), s''))))" for pf
  proof (rule calm_and_then [OF extract_calm [OF assms(1-4)]])
    fix out t
    assume e: "extract_verified_proof_output c w s pf = (Ok out, t)" and t: "setup_inv c EK t"
    note ver = extract_verified [OF e assms(2-4)]
    then obtain stdin where run: "program_main c stdin = Ok (public_values pf)"
      using assms(5) unfolding verify_ok_def by blast
    from run obtain key' nonce pt rest where stdin: "stdin = key' # nonce # pt # rest"
      by (rule program_main_Ok_D)
    from committed_run [OF run [unfolded stdin] assms(6,7)] ver
    have "chacha c key' nonce (ciphertext out) = (Ok pt :: (string, bytes) res)" by auto
    then have "fits (length (ciphertext out))"
      by (auto simp: chacha_iff [OF assms(7)] split: if_splits)
    with t show "calm c EK (and_then (chacha c key (zk_nonce out) (ciphertext out), t)
        (\<lambda>buffer s''. (Ok (bl\<lparr>blob_data := buffer\<rparr>), s'')))"
      by (simp add: chacha_ok [OF assms(7)])
  qed
  then show ?thesis using assms(2) by (auto simp: verify_decrypt_blob_def split: sum.splits)
qed

lemma decrypt_all_calm:
  assumes "client_from_env w \<noteq> None" and "setup_inv c EK s" and "world_ok c E EK RQ w" and "bincode_ok c"
    and "verify_ok c EK" and "sha256_ok c" and "keystream_ok c ks fits"
  shows "calm c EK (decrypt_all c n w s vs key acc)"
  using assms(2)
proof (induction vs arbitrary: s acc)
  case (Cons v vs)
  show ?case
  proof (cases "blob_from_value n v")
    case (Inr bl)
    obtain r t where call: "verify_decrypt_blob c w s bl key = (r, t)" by fastforce
    have "calm c EK (r, t)"
      using verify_decrypt_calm [OF assms(1) Cons.prems assms(3-7), of bl key] call by simp
    with Inr call Cons.IH [of t] show ?thesis
      by (cases r) (auto split: sum.splits)
  qed (use Cons.prems in simp)
qed simp

lemma outbound_calm:
  assumes "client_from_env w \<noteq> None" and "setup_inv c EK s" and "world_ok c E EK RQ w" and "bincode_ok c"
    and "verify_ok c EK" and "sha256_ok c" and "keystream_ok c ks fits"
    and "encryption_key c E = (Ok key :: (string, bytes) res)"
  shows "calm c EK (outbound_handler c n w s resp m)"
proof -
  have env: "env_var w = E" using world_okD(1) [OF assms(3)] .
  have "calm c EK (and_then (verify_decrypt_blob c w s bl key) (\<lambda>plain s2. case blob_to_value n plain of
      Inl e \<Rightarrow> (Err e, s2) | Inr v \<Rightarrow> (Ok (json_set n j ''result'' v), s2)))" for bl j
    by (rule calm_and_then [OF verify_decrypt_calm [OF assms(1-7)]]) (auto split: sum.splits)
  moreover have "calm c EK (and_then (decrypt_all c n w s vs key []) (\<lambda>bs s2.
      (Ok (json_set n j ''result'' (json_array n bs)), s2)))" for vs j
    by (rule calm_and_then [OF decrypt_all_calm [OF assms(1-7)]]) simp
  ultimately have "calm c EK (try_mutate_response c n w s j m)" for j
    using assms(2,8) by (simp add: try_mutate_response_def env split: option.split sum.split)
  then have "try_mutate_response c n w s j m = (r, t) \<Longrightarrow> \<not> is_panic r \<and> setup_inv c EK t" for j r t
    by (metis calm_ret)
  then show ?thesis
    using assms(2) unfolding outbound_handler_def by (fastforce split: sum.split res.split prod.split)
qed

lemma internal_error_answers:
  assumes "net_total n"
  shows "\<exists>resp. internal_error_response n e = Ok resp"
proof -
  obtain b where "json_to_vec n (json_object n
      [(''id'', json_int n 1), (''jsonrpc'', json_str n ''2.0''),
       (''error'', json_object n
          [(''message'', json_str n (''[pda-proxy] internal error: '' @ e))])]) = Inr b"
    using assms unfolding net_total_def by blast
  then show ?thesis by (simp add: internal_error_response_def)
qed


section \<open>Witnesses\<close>

lemma demo_request:
  "rpc_body demo_net (demo_req a m) = Some (demo_call m)" "rpc_method demo_net (demo_call m) = Some m"
  "submitted demo_net (demo_call m) [demo_blob0] [DStr ''opts'']"
  by (simp_all add: rpc_body_def rpc_method_def submitted_def demo_rpc del: dj_blob.simps dj_as_blob.simps,
      simp add: demo_req_def)

lemma demo_carries: "carries_proof demo_crates demo_net (sys_runner demo_done) demo_blob0 demo_encrypted"
  by (simp add: carries_proof_def demo_blob0_def demo_encrypted_def demo_done_def demo_warm_def new_runner_def
      demo_k_def demo_status del: demo_crates_simps(6) enc_status.simps)

lemma demo_encrypts: "encrypts demo_crates (demo_env ''cpu'') demo_EK demo_blob0 demo_encrypted"
  by (rule carries_encrypts [OF demo_done_reachable demo_net_ok(2) demo_carries])

lemma demo_encrypt_blobs:
  "encrypt_blobs demo_crates demo_net (\<lambda>_. demo_world ''cpu'') (sys_runner demo_done) [demo_blob0] [] =
     (Ok (Some [demo_encrypted]), sys_runner demo_done)"
  using demo_request_done by (simp add: demo_blob0_def demo_encrypted_def)

lemma demo_forwards:
  "\<exists>r. forwarded (demo_service (\<lambda>_. Inl ''down'') demo_done (demo_req ''Bearer t'' ''blob.Submit'')) = Some r"
proof -
  have "intercept_submit demo_crates demo_net (\<lambda>_. demo_world ''cpu'') (sys_runner demo_done) (demo_call ''blob.Submit'') =
      (Ok (Some (dj_set (demo_call ''blob.Submit'') ''params''
         (dj_array [dj_array [dj_blob demo_encrypted], DStr ''opts'']))), sys_runner demo_done)"
    by (simp add: intercept_submit_def demo_rpc demo_encrypt_blobs
        del: encrypt_blobs.simps dj_blob.simps dj_as_blob.simps)
  then show ?thesis
    using demo_bearer [of "''blob.Submit''"]
    by (simp add: service_def inbound_handler_def demo_req_def demo_rpc)
qed

theorem submit_forwards_proofs_only_witness:
  "\<exists>r j' ebs. forwarded (demo_service (\<lambda>_. Inl ''down'') demo_done (demo_req ''Bearer t'' ''blob.Submit'')) = Some r \<and>
     json_from_slice demo_net (req_body r) = Inr j' \<and> submitted demo_net j' ebs [DStr ''opts''] \<and>
     list_all2 (encrypts demo_crates (demo_env ''cpu'') demo_EK) [demo_blob0] ebs"
proof -
  obtain r where
    r: "forwarded (demo_service (\<lambda>_. Inl ''down'') demo_done (demo_req ''Bearer t'' ''blob.Submit'')) = Some r"
    using demo_forwards by blast
  from submit_forwards_proofs_only [OF demo_done_reachable demo_net_ok(1,2) demo_request r] r show ?thesis
    by blast
qed

theorem unauthorized_rejected_witness:
  "out_response (demo_service (\<lambda>_. Inl ''down'') demo_done (demo_req ''Basic x'' ''blob.Submit'')) =
     Ok bad_auth_response"
proof -
  have "\<not> starts_with ''Bearer '' ''Basic x''" by (simp add: starts_with_def)
  then have no: "\<forall>v a. header_get (req_headers (demo_req ''Basic x'' ''blob.Submit'')) ''authorization'' = Some v \<longrightarrow>
      header_to_str demo_net v = Some a \<longrightarrow> \<not> starts_with ''Bearer '' a"
    using demo_header by metis
  have uri: "uri_parse demo_net (upstream_uri demo_net (demo_env ''cpu'') ''node''
      (req_uri (demo_req ''Basic x'' ''blob.Submit''))) \<noteq> None"
    by simp
  from unauthorized_rejected [OF uri no, where c = demo_crates and ws = "\<lambda>_. demo_world ''cpu''"
      and w = "demo_world ''cpu''" and up = "\<lambda>_. Inl ''down''" and s = "sys_runner demo_done"]
  show ?thesis by simp
qed

theorem submit_pending_not_forwarded_witness:
  "out_response (demo_service (\<lambda>_. Inl ''down'') demo_queued (demo_req ''Bearer t'' ''blob.Submit'')) = Ok pending_response \<and>
   forwarded (demo_service (\<lambda>_. Inl ''down'') demo_queued (demo_req ''Bearer t'' ''blob.Submit'')) = None"
proof -
  have op: "receiver_open (sys_runner demo_queued)" by (simp add: demo_queued_def new_runner_def)
  have ini: "initial_status ''cpu'' = Ok LocalZkProofPending" by (simp add: initial_status_def)
  have k: "vec_ser demo_crates (sha256 demo_crates (blob_data demo_blob0)) = Inr demo_k"
    by (simp add: demo_blob0_def demo_k_def)
  have sub: "submitted demo_net (demo_call ''blob.Submit'') ([] @ demo_blob0 # []) [DStr ''opts'']"
    using demo_request(3) by simp
  show ?thesis
    using submit_pending_not_forwarded [OF demo_queued_reachable op _ _ demo_bincode(2) demo_prover ini
        demo_net_simps(14) demo_bearer demo_request(1,2) sub _ k disjI2 [OF demo_phases(2)],
        where ws = "\<lambda>_. demo_world ''cpu''"] demo_world_ok by simp
qed

theorem other_methods_forwarded_unchanged_witness:
  "\<exists>r. forwarded (demo_service (\<lambda>_. Inl ''down'') demo_start (demo_req ''Bearer t'' ''header.SyncState'')) = Some r \<and>
     json_from_slice demo_net (req_body r) = Inr (demo_call ''header.SyncState'')"
proof -
  have "rpc_method demo_net (demo_call ''header.SyncState'') \<noteq> Some ''blob.Submit''"
    by (simp add: demo_request(2))
  from other_methods_forwarded_unchanged [OF demo_net_ok(1,3) demo_net_simps(14) demo_bearer demo_request(1) this]
  show ?thesis by blast
qed

lemma demo_setup_inv: "setup_inv demo_crates demo_EK (sys_runner demo_done)"
  by (rule reachable_parts(2) [OF demo_done_reachable])

lemma demo_result:
  "resp_body (demo_resp v) = Inr (enc_dj (dj_object [(''result'', v)]))" "resp_status (demo_resp v) \<noteq> 401"
  "json_from_slice demo_net (enc_dj (dj_object [(''result'', v)])) = Inr (dj_object [(''result'', v)])"
  "json_get demo_net (dj_object [(''result'', v)]) ''result'' = Some v"
  by (simp add: demo_resp_def, simp add: demo_resp_def, simp, simp add: dj_object_def)

theorem get_all_returns_plaintexts_witness:
  "\<exists>resp' s'. outbound_handler demo_crates demo_net (demo_world ''cpu'') (sys_runner demo_done)
       (demo_resp (dj_array [dj_blob demo_encrypted])) ''blob.GetAll'' = (Ok resp', s') \<and> resp_status resp' = 200"
proof -
  have arr: "json_as_array demo_net (dj_array [dj_blob demo_encrypted]) = Some [dj_blob demo_encrypted]"
    by (simp del: dj_blob.simps dj_array.simps)
  have all: "list_all2 (\<lambda>v b. \<exists>eb. blob_from_value demo_net v = Inr eb \<and>
      encrypts demo_crates (demo_env ''cpu'') demo_EK b eb) [dj_blob demo_encrypted] [demo_blob0]"
    using demo_encrypts by (simp del: dj_blob.simps dj_as_blob.simps)
  have "resp_status (demo_resp (dj_array [dj_blob demo_encrypted])) = 200" by (simp add: demo_resp_def)
  with get_all_returns_plaintexts [OF demo_world_up demo_laws_up demo_world_ok demo_crypto_laws(1) demo_setup_inv
      demo_net_ok(1,3) demo_result arr all] show ?thesis by metis
qed


text \<open>A proof made under another key than the one it is read with.\<close>

lemma demo_foreign:
  "\<exists>bl' s'. verify_decrypt_blob demo_crates (demo_world ''cpu'') (sys_runner demo_done) demo_encrypted
     (replicate KEY_LEN 8) = (Ok bl', s') \<and> blob_data bl' \<noteq> demo_data"
proof -
  let ?o = "\<lparr>privkey_hash = demo_sha256 (replicate KEY_LEN 7), zk_nonce = replicate NONCE_LEN 9,
    plaintext_hash = demo_sha256 demo_data,
    ciphertext = xor_stream (demo_keystream (replicate KEY_LEN 7) (replicate NONCE_LEN 9)) demo_data\<rparr>"
  have "wf_output ?o" using demo_crypto_laws(1) by (simp add: wf_output_def sha256_ok_def)
  then have fb: "from_bytes (public_values demo_proof) = Ok ?o"
    using from_bytes_layout [of ?o] by (simp add: output_layout_def demo_proof_def)
  have "proof_ok demo_crates demo_EK [replicate KEY_LEN 7, replicate NONCE_LEN 9, demo_data] demo_proof"
    using demo_run_ok [OF demo_runs_guest] .
  from extract_up [OF demo_world_up demo_laws_up demo_world_ok demo_setup_inv this] obtain s' where
    "extract_verified_proof_output demo_crates (demo_world ''cpu'') (sys_runner demo_done) demo_proof = (Ok ?o, s')"
    using fb by auto
  then have "verify_decrypt_blob demo_crates (demo_world ''cpu'') (sys_runner demo_done) demo_encrypted (replicate KEY_LEN 8) =
      (Ok (demo_encrypted\<lparr>blob_data := xor_stream (demo_keystream (replicate KEY_LEN 8) (replicate NONCE_LEN 9)) (ciphertext ?o)\<rparr>), s')"
    by (simp add: verify_decrypt_blob_def demo_encrypted_def chacha_ok [OF demo_crypto_laws(2)])
  moreover have "xor_stream (demo_keystream (replicate KEY_LEN 8) (replicate NONCE_LEN 9)) (ciphertext ?o) \<noteq> demo_data"
    by (simp add: xor_stream_def demo_keystream_def demo_data_def KEY_LEN_def)
  ultimately show ?thesis by auto
qed

theorem decrypted_blob_attested_witness:
  "\<exists>bl' s' pf key' nonce pt rest.
     verify_decrypt_blob demo_crates (demo_world ''cpu'') (sys_runner demo_done) demo_encrypted
       (replicate KEY_LEN 8) = (Ok bl', s') \<and> blob_data bl' \<noteq> demo_data \<and>
     program_main demo_crates (key' # nonce # pt # rest) = Ok (public_values (pf :: bytes list sp1_proof))"
proof -
  obtain bl' s' where bl': "verify_decrypt_blob demo_crates (demo_world ''cpu'') (sys_runner demo_done) demo_encrypted
     (replicate KEY_LEN 8) = (Ok bl', s')" "blob_data bl' \<noteq> demo_data"
    using demo_foreign by blast
  from decrypted_blob_attested [OF bl'(1) demo_setup_inv demo_world_ok demo_bincode(1) demo_verify_ok demo_crypto_laws]
  obtain pf :: "bytes list sp1_proof" and key' nonce pt rest where
    "program_main demo_crates (key' # nonce # pt # rest) = Ok (public_values pf)"
    by blast
  with bl' show ?thesis by (intro exI conjI) assumption+
qed


end
