(* ===== verification/Interleaving.thy ===== *)
theory Interleaving
  imports Transition
begin

text \<open>
  Threads that run step by step on a shared state.  A thread is a sequence of atomic sections; a
  section changes the state and chooses the rest of the thread from what it saw.  \<open>run\<close> executes a
  thread alone, \<open>pool_step\<close> one section of one thread of a pool.

  \<open>safe G Q p\<close>: if every other thread keeps \<open>G\<close>, each section of \<open>p\<close> keeps \<open>G\<close>, and the result of \<open>p\<close>
  satisfies \<open>Q\<close>.  The locale \<open>thread_pool\<close> is the interface of a system whose threads are all safe.
\<close>

section \<open>Threads\<close>

datatype ('r, 's) prog = Return 'r | Atomic "'s \<Rightarrow> 's" "'s \<Rightarrow> ('r, 's) prog"

primrec run :: "('r, 's) prog \<Rightarrow> 's \<Rightarrow> 'r \<times> 's" where
  "run (Return r) s = (r, s)"
| "run (Atomic u k) s = run (k s) (u s)"

definition atom :: "('s \<Rightarrow> 'r \<times> 's) \<Rightarrow> ('r, 's) prog" where
  "atom f = Atomic (\<lambda>s. snd (f s)) (\<lambda>s. Return (fst (f s)))"

primrec seq :: "('a, 's) prog \<Rightarrow> ('a \<Rightarrow> ('b, 's) prog) \<Rightarrow> ('b, 's) prog" where
  "seq (Return a) k = k a"
| "seq (Atomic u p) k = Atomic u (\<lambda>s. seq (p s) k)"

text \<open>\<open>?\<close> on the result of a thread.\<close>

definition seq_ok ::
  "(('e, 'a) res, 's) prog \<Rightarrow> ('a \<Rightarrow> (('e, 'b) res, 's) prog) \<Rightarrow> (('e, 'b) res, 's) prog" where
  "seq_ok p k =
     seq p (\<lambda>r. case r of Ok a \<Rightarrow> k a | Err e \<Rightarrow> Return (Err e) | Panic m \<Rightarrow> Return (Panic m))"

lemma run_atom [simp]: "run (atom f) s = f s"
  by (simp add: atom_def)

lemma run_seq [simp]: "run (seq p k) s = (case run p s of (a, s') \<Rightarrow> run (k a) s')"
  by (induction p arbitrary: s) auto

lemma seq_atom [simp]: "seq (atom f) k = Atomic (\<lambda>s. snd (f s)) (\<lambda>s. k (fst (f s)))"
  by (simp add: atom_def)

section \<open>Safe threads\<close>

primrec safe :: "('s \<Rightarrow> bool) \<Rightarrow> ('r \<Rightarrow> bool) \<Rightarrow> ('r, 's) prog \<Rightarrow> bool" where
  "safe G Q (Return r) = Q r"
| "safe G Q (Atomic u k) = (\<forall>s. G s \<longrightarrow> G (u s) \<and> safe G Q (k s))"

named_theorems safe_intros \<open>rules for the safety of threads, by their shape\<close>

lemma safe_Return [safe_intros]: "Q r \<Longrightarrow> safe G Q (Return r)"
  by simp

lemma safe_mono: "safe G Q p \<Longrightarrow> (\<And>r. Q r \<Longrightarrow> Q' r) \<Longrightarrow> safe G Q' p"
  by (induction p) auto

lemma safe_seq [safe_intros]:
  assumes "safe G R p" and "\<And>a. R a \<Longrightarrow> safe G Q (k a)"
  shows "safe G Q (seq p k)"
  using assms by (induction p) auto

lemma safe_atom:
  assumes "\<And>s. G s \<Longrightarrow> G (snd (f s)) \<and> Q (fst (f s))"
  shows "safe G Q (atom f)"
  using assms by (simp add: atom_def)

lemma safe_seq_ok [safe_intros]:
  assumes "safe G R p" and "\<And>a. R (Ok a) \<Longrightarrow> safe G Q (k a)"
    and "\<And>e. R (Err e) \<Longrightarrow> Q (Err e)" and "\<And>m. R (Panic m) \<Longrightarrow> Q (Panic m)"
  shows "safe G Q (seq_ok p k)"
  unfolding seq_ok_def by (rule safe_seq [OF assms(1)]) (use assms(2-4) in \<open>auto split: res.split\<close>)

lemma safe_run: "safe G Q p \<Longrightarrow> G s \<Longrightarrow> Q (fst (run p s)) \<and> G (snd (run p s))"
  by (induction p arbitrary: s) auto

section \<open>Pools\<close>

text \<open>A pool holds tagged threads; a step runs one section of one of them.\<close>

inductive pool_step ::
  "('t \<times> ('r, 's) prog) list \<Rightarrow> 's \<Rightarrow> ('t \<times> ('r, 's) prog) list \<Rightarrow> 's \<Rightarrow> bool" where
  "pool_step (xs @ (t, Atomic u k) # ys) s (xs @ (t, k s) # ys) (u s)"

inductive_cases pool_stepE: "pool_step ts s ts' s'"

definition all_safe ::
  "('s \<Rightarrow> bool) \<Rightarrow> ('t \<Rightarrow> 'r \<Rightarrow> bool) \<Rightarrow> ('t \<times> ('r, 's) prog) list \<Rightarrow> bool" where
  "all_safe G Q ts \<longleftrightarrow> (\<forall>(t, p) \<in> set ts. safe G (Q t) p)"

lemma all_safe_simps [simp]:
  "all_safe G Q []" "all_safe G Q ((t, p) # ts) \<longleftrightarrow> safe G (Q t) p \<and> all_safe G Q ts"
  "all_safe G Q (ts @ us) \<longleftrightarrow> all_safe G Q ts \<and> all_safe G Q us"
  by (auto simp: all_safe_def)

lemma pool_step_safe:
  assumes "pool_step ts s ts' s'" and "G s" and "all_safe G Q ts"
  shows "G s' \<and> all_safe G Q ts'"
  using assms by (auto elim!: pool_stepE)

lemma all_safe_result: "all_safe G Q ts \<Longrightarrow> (t, Return r) \<in> set ts \<Longrightarrow> Q t r"
  by (auto simp: all_safe_def)

text \<open>Several sections of one thread in a row, in the middle of a pool.\<close>

inductive sections :: "('r, 's) prog \<Rightarrow> 's \<Rightarrow> ('r, 's) prog \<Rightarrow> 's \<Rightarrow> bool" where
  sections_refl: "sections p s p s"
| sections_more: "sections (k s) (u s) q t \<Longrightarrow> sections (Atomic u k) s q t"

lemma sections_run: "sections p s (Return (fst (run p s))) (snd (run p s))"
proof (induction p arbitrary: s)
  case (Atomic u k)
  show ?case by (rule sections_more) (use Atomic.IH [of "k s" "u s"] in simp)
qed (simp add: sections_refl)

lemma run_seq_sections:
  assumes "run p s = (a, t)"
  shows "sections (seq p k) s (k a) t"
  using assms
proof (induction p arbitrary: s)
  case (Atomic u p)
  then show ?case by (auto intro: sections_more)
qed (simp add: sections_refl)

section \<open>Systems of safe threads\<close>

text \<open>
  A step of such a system runs a section of a thread, or does something else that keeps \<open>G\<close> and adds
  only safe threads.  \<open>aux\<close> is what the system knows besides.
\<close>

locale thread_pool =
  fixes init :: "'c \<Rightarrow> bool"
    and step :: "'c \<Rightarrow> 'c \<Rightarrow> bool"
    and threads :: "'c \<Rightarrow> ('t \<times> ('r, 's) prog) list"
    and shared :: "'c \<Rightarrow> 's"
    and aux :: "'c \<Rightarrow> bool"
    and G :: "'s \<Rightarrow> bool"
    and Q :: "'t \<Rightarrow> 'r \<Rightarrow> bool"
  assumes init_safe: "init S \<Longrightarrow> aux S \<and> G (shared S) \<and> threads S = []"
    and step_safe: "step S T \<Longrightarrow> aux S \<Longrightarrow> G (shared S) \<Longrightarrow> aux T \<and>
      (pool_step (threads S) (shared S) (threads T) (shared T) \<or>
       G (shared T) \<and> (\<exists>new. threads T = threads S @ new \<and> all_safe G Q new))"
begin

sublocale invariant_system init step "\<lambda>S. aux S \<and> G (shared S) \<and> all_safe G Q (threads S)"
proof unfold_locales
  fix S T
  assume inv: "aux S \<and> G (shared S) \<and> all_safe G Q (threads S)" and "step S T"
  from step_safe [OF this(2)] inv show "aux T \<and> G (shared T) \<and> all_safe G Q (threads T)"
    using pool_step_safe [where G = G and Q = Q] by auto
qed (use init_safe in auto)

lemma shared_good: "reach init step S \<Longrightarrow> aux S \<and> G (shared S)"
  using reach_inv by blast

lemma result_good: "reach init step S \<Longrightarrow> (t, Return r) \<in> set (threads S) \<Longrightarrow> Q t r"
  using reach_inv all_safe_result by metis

end

end
