(* ===== verification/Runner_Threads.thy ===== *)
theory Runner_Threads
  imports Runner_System Interleaving
begin

text \<open>
  The operations of the runner as threads.  Requests and worker tasks of the service are tasks on a
  multi-threaded executor: between two accesses of one to the trees, any other may run.  The sections
  of a thread are the single accesses: a read or write of a tree, a transaction, a send on the
  channel, an access to a \<open>OnceCell\<close> (whose initialiser is exclusive).

  Run alone, the threads are the operations of the theory \<open>Runner\<close>.  Among threads that keep the
  well-formedness of the shared state (\<open>good\<close>), each of them keeps it in every section, and a request
  hands out only genuine proofs.
\<close>

section \<open>The operations as threads\<close>

type_synonym ('pk, 'vk, 'cl, 'a) op = "((pda_runner_error, 'a) res, ('pk, 'vk, 'cl) pda_runner) prog"

text \<open>A database access and a call into a crate, with their errors.\<close>

definition db_read ::
  "('p, 'pk, 'vk, 'cl) world \<Rightarrow> db_op \<Rightarrow> (('pk, 'vk, 'cl) pda_runner \<Rightarrow> 'a) \<Rightarrow> ('pk, 'vk, 'cl, 'a) op" where
  "db_read w op f = atom (\<lambda>s. db_try w op s (Ok (f s), s))"

definition ext_op :: "string + 'a \<Rightarrow> ('pk, 'vk, 'cl, 'a) op" where
  "ext_op x = Return (of_ext InternalError x)"

text \<open>The transaction of \<open>send_job_with_new_status\<close>, then the send.\<close>

definition resend_tx ::
  "('p, 'pk, 'vk, 'cl, 'z) crates_scheme \<Rightarrow> ('p, 'pk, 'vk, 'cl) world \<Rightarrow> bytes \<Rightarrow> 'p job_status \<Rightarrow>
     ('pk, 'vk, 'cl) pda_runner \<Rightarrow> (pda_runner_error, unit) res \<times> ('pk, 'vk, 'cl) pda_runner" where
  "resend_tx c w job_key update_status s =
     db_try w TxRemove s
       (case status_ser c update_status of
          Inl _ \<Rightarrow> (Panic ''Always given serializable job status'', s)
        | Inr b \<Rightarrow>
            db_try w TxInsert s
              (db_try w TxCommit s
                 (Ok (), s\<lparr>finished_db := (finished_db s)(job_key := None),
                           queue_db := (queue_db s)(job_key \<mapsto> b)\<rparr>)))"

definition resend_op ::
  "('p, 'pk, 'vk, 'cl, 'z) crates_scheme \<Rightarrow> ('p, 'pk, 'vk, 'cl) world \<Rightarrow> bytes \<Rightarrow> 'p job_status \<Rightarrow> job \<Rightarrow>
     ('pk, 'vk, 'cl, unit) op" where
  "resend_op c w job_key update_status job =
     seq_ok (atom (resend_tx c w job_key update_status)) (\<lambda>_. atom (\<lambda>s. chan_send w s (Some job)))"

definition finalize_op ::
  "('p, 'pk, 'vk, 'cl, 'z) crates_scheme \<Rightarrow> ('p, 'pk, 'vk, 'cl) world \<Rightarrow> bytes \<Rightarrow> 'p job_status \<Rightarrow>
     ('pk, 'vk, 'cl, unit) op" where
  "finalize_op c w job_key job_status = atom (\<lambda>s. finalize_job c w s job_key job_status)"

subsection \<open>Requests\<close>

definition finished_op ::
  "('p, 'pk, 'vk, 'cl, 'z) crates_scheme \<Rightarrow> ('p, 'pk, 'vk, 'cl) world \<Rightarrow> job \<Rightarrow> bytes \<Rightarrow> 'p job_status \<Rightarrow>
     ('pk, 'vk, 'cl, 'p sp1_proof option) op" where
  "finished_op c w job job_key job_status =
     (case job_status of
        ZkProofFinished pf \<Rightarrow> Return (Ok (Some pf))
      | Failed e None \<Rightarrow> Return (Err (InternalError (error_debug e)))
      | Failed e (Some retry_status) \<Rightarrow>
          seq (resend_op c w job_key retry_status job) (\<lambda>r.
            case r of
              Ok _ \<Rightarrow> Return (Err (InternalError (''Retrying! Previous error: '' @ error_debug e)))
            | Err e' \<Rightarrow> Return (Err (InternalError
                (''PLEASE REPORT! Internal error, cannot retry: '' @ error_debug e')))
            | Panic p \<Rightarrow> Return (Panic p))
      | _ \<Rightarrow> Return (Err (InternalError ''PLEASE REPORT! Finished DB is in invalid state'')))"

definition queued_op ::
  "('p, 'pk, 'vk, 'cl, 'z) crates_scheme \<Rightarrow> bytes \<Rightarrow> 'p job_status \<Rightarrow>
     ('pk, 'vk, 'cl, 'p sp1_proof option) op" where
  "queued_op c job_key job_status =
     (if pending_status job_status then Return (Ok None)
      else Return (Err (InternalError (''0x'' @ hex_encode c job_key @ '' - Job queue is in invalid state''))))"

definition enqueue_op ::
  "('p, 'pk, 'vk, 'cl, 'z) crates_scheme \<Rightarrow> ('p, 'pk, 'vk, 'cl) world \<Rightarrow> job \<Rightarrow> bytes \<Rightarrow>
     ('pk, 'vk, 'cl, 'p sp1_proof option) op" where
  "enqueue_op c w job job_key =
     seq_ok (Return (expect ''Missing SP1_PROVER env var'' (env_var w ''SP1_PROVER''))) (\<lambda>prover_type.
     seq_ok (Return (initial_status prover_type)) (\<lambda>status.
     seq_ok (ext_op (status_ser c (status :: 'p job_status))) (\<lambda>b.
     seq_ok (atom (\<lambda>s. db_try w QueueInsert s (Ok (), s\<lparr>queue_db := (queue_db s)(job_key \<mapsto> b)\<rparr>))) (\<lambda>_.
     seq_ok (atom (\<lambda>s. chan_send w s (Some job))) (\<lambda>_. Return (Ok None))))))"

definition request_op ::
  "('p, 'pk, 'vk, 'cl, 'z) crates_scheme \<Rightarrow> ('p, 'pk, 'vk, 'cl) world \<Rightarrow> job \<Rightarrow>
     ('pk, 'vk, 'cl, 'p sp1_proof option) op" where
  "request_op c w job =
     seq_ok (ext_op (anchor_ser c (job_anchor job))) (\<lambda>job_key.
     seq_ok (db_read w FinishedGet (\<lambda>s. finished_db s job_key)) (\<lambda>found.
       case found of
         Some proof_data \<Rightarrow>
           seq_ok (ext_op (status_de c proof_data)) (finished_op c w job job_key)
       | None \<Rightarrow>
           seq_ok (db_read w QueueGet (\<lambda>s. queue_db s job_key)) (\<lambda>queued.
             case queued of
               Some queue_data \<Rightarrow> seq_ok (ext_op (status_de c queue_data)) (queued_op c job_key)
             | None \<Rightarrow> enqueue_op c w job job_key)))"

subsection \<open>Worker tasks\<close>

text \<open>What every prover call does with its result.\<close>

definition prover_op ::
  "('p, 'pk, 'vk, 'cl, 'z) crates_scheme \<Rightarrow> ('p, 'pk, 'vk, 'cl) world \<Rightarrow> job \<Rightarrow> bytes \<Rightarrow>
     prover_error + 'v \<Rightarrow> ('pk, 'vk, 'cl, 'v) op" where
  "prover_op c w job job_key x = atom (\<lambda>s. prover_result c w s job job_key x)"

definition local_op ::
  "('p, 'pk, 'vk, 'cl, 'z) crates_scheme \<Rightarrow> ('p, 'pk, 'vk, 'cl) world \<Rightarrow> bytes \<Rightarrow> job \<Rightarrow> bytes \<Rightarrow>
     ('pk, 'vk, 'cl, 'p sp1_proof) op" where
  "local_op c w program_id job job_key =
     seq_ok (atom (get_zk_client_local w)) (\<lambda>cl.
     seq_ok (atom (\<lambda>s. get_proof_setup_local c w s program_id cl)) (\<lambda>su.
     seq_ok (Return (encryption_key c (env_var w))) (\<lambda>key.
     seq_ok (Return (util_random_nonce (os_rng w))) (\<lambda>nonce.
       prover_op c w job job_key
         (run_prove w cl (setup_pk su) [key, nonce, input_data (job_input job)])))))"

definition remote_op ::
  "('p, 'pk, 'vk, 'cl, 'z) crates_scheme \<Rightarrow> ('p, 'pk, 'vk, 'cl) world \<Rightarrow> bytes \<Rightarrow> job \<Rightarrow> bytes \<Rightarrow>
     ('pk, 'vk, 'cl, bytes) op" where
  "remote_op c w program_id job job_key =
     seq_ok (atom (get_zk_client_remote w)) (\<lambda>cl.
     seq_ok (atom (\<lambda>s. get_proof_setup_remote c w s program_id cl)) (\<lambda>su.
     seq_ok (Return (expect ''Missing SP1_FULFILLMENT_STRATEGY env var''
               (env_var w ''SP1_FULFILLMENT_STRATEGY''))) (\<lambda>fs_string.
     seq_ok (Return (ok_or (InternalError ''SP1_FULFILLMENT_STRATEGY env var malformed'')
               (from_str_name c fs_string))) (\<lambda>strategy.
     seq_ok (Return (encryption_key c (env_var w))) (\<lambda>key.
     seq_ok (Return (util_random_nonce (os_rng w))) (\<lambda>nonce.
     seq (atom (\<lambda>s. (zk_proof_gen_timeout_remote s, s))) (\<lambda>timeout.
       prover_op c w job job_key
         (request_proof w cl (setup_pk su) [key, nonce, input_data (job_input job)] strategy timeout))))))))"

definition wait_op ::
  "('p, 'pk, 'vk, 'cl, 'z) crates_scheme \<Rightarrow> ('p, 'pk, 'vk, 'cl) world \<Rightarrow> job \<Rightarrow> bytes \<Rightarrow> bytes \<Rightarrow>
     ('pk, 'vk, 'cl, 'p sp1_proof) op" where
  "wait_op c w job job_key request_id =
     seq_ok (atom (get_zk_client_remote w)) (\<lambda>cl. prover_op c w job job_key (wait_proof w cl request_id))"

text \<open>An error of the prover is logged, a panic ends the task.\<close>

definition proved ::
  "('pk, 'vk, 'cl, 'a) op \<Rightarrow> ('a \<Rightarrow> ('pk, 'vk, 'cl, unit) op) \<Rightarrow> ('pk, 'vk, 'cl, unit) op" where
  "proved p k =
     seq p (\<lambda>r. case r of Ok a \<Rightarrow> k a | Err e \<Rightarrow> Return (Ok ()) | Panic m \<Rightarrow> Return (Panic m))"

definition work_op ::
  "('p, 'pk, 'vk, 'cl, 'z) crates_scheme \<Rightarrow> ('p, 'pk, 'vk, 'cl) world \<Rightarrow> job \<Rightarrow>
     ('pk, 'vk, 'cl, unit) op" where
  "work_op c w job =
     seq_ok (ext_op (anchor_ser c (job_anchor job))) (\<lambda>job_key.
     seq_ok (db_read w QueueGet (\<lambda>s. queue_db s job_key)) (\<lambda>found.
       case found of
         None \<Rightarrow> Return (Ok ())
       | Some queue_data \<Rightarrow>
           seq_ok (ext_op (status_de c queue_data)) (\<lambda>job_status.
             case job_status of
               RemoteZkProofRequesting \<Rightarrow>
                 seq (atom (get_program_id c)) (\<lambda>pid.
                   proved (remote_op c w pid job job_key)
                     (\<lambda>zk_job_id. resend_op c w job_key (RemoteZkProofPending zk_job_id) job))
             | RemoteZkProofPending zk_request_id \<Rightarrow>
                 proved (wait_op c w job job_key zk_request_id)
                   (\<lambda>pf. finalize_op c w job_key (ZkProofFinished pf))
             | LocalZkProofPending \<Rightarrow>
                 seq (atom (get_program_id c)) (\<lambda>pid.
                   proved (local_op c w pid job job_key)
                     (\<lambda>pf. finalize_op c w job_key (ZkProofFinished pf)))
             | _ \<Rightarrow> Return (Ok ()))))"

subsection \<open>The warm-up task\<close>

definition warm_op ::
  "('p, 'pk, 'vk, 'cl, 'z) crates_scheme \<Rightarrow> ('p, 'pk, 'vk, 'cl) world \<Rightarrow> ('pk, 'vk, 'cl, unit) op" where
  "warm_op c w =
     seq (atom (get_program_id c)) (\<lambda>pid.
     seq_ok (atom (get_zk_client_local w)) (\<lambda>cl.
     seq_ok (atom (get_zk_client_remote w)) (\<lambda>cr.
     seq (atom (\<lambda>s. get_proof_setup_local c w s pid cl)) (\<lambda>_.
     seq (atom (\<lambda>s. get_proof_setup_remote c w s pid cr)) (\<lambda>_. Return (Ok ()))))))"

text \<open>The calls of the proxy before it verifies a proof.\<close>

definition setup_op ::
  "('p, 'pk, 'vk, 'cl, 'z) crates_scheme \<Rightarrow> ('p, 'pk, 'vk, 'cl) world \<Rightarrow>
     ('pk, 'vk, 'cl, 'cl \<times> ('pk, 'vk) sp1_proof_setup) op" where
  "setup_op c w =
     seq_ok (atom (get_zk_client_local w)) (\<lambda>cl.
     seq (atom (get_program_id c)) (\<lambda>pid.
     seq_ok (atom (\<lambda>s. get_proof_setup_local c w s pid cl)) (\<lambda>su. Return (Ok (cl, su)))))"

section \<open>Run alone, the threads are the operations\<close>

named_theorems run_ops \<open>running a thread alone\<close>

lemma run_seq_ok [run_ops]: "run (seq_ok p k) s = and_then (run p s) (\<lambda>a s'. run (k a) s')"
  by (cases "run p s"; cases "fst (run p s)") (auto simp: seq_ok_def)

lemma run_proved [run_ops]:
  "run (proved p k) s = (case run p s of (Ok a, s') \<Rightarrow> run (k a) s' | (Err e, s') \<Rightarrow> (Ok (), s')
     | (Panic m, s') \<Rightarrow> (Panic m, s'))"
  by (cases "run p s"; cases "fst (run p s)") (auto simp: proved_def)

lemma run_cases [run_ops]:
  "run (case x of None \<Rightarrow> p | Some v \<Rightarrow> q v) s = (case x of None \<Rightarrow> run p s | Some v \<Rightarrow> run (q v) s)"
  "run (case st of LocalZkProofPending \<Rightarrow> p1 | RemoteZkProofRequesting \<Rightarrow> p2 | RemoteZkProofPending i \<Rightarrow> p3 i
      | ZkProofFinished f \<Rightarrow> p4 f | Failed e r \<Rightarrow> p5 e r) s =
   (case st of LocalZkProofPending \<Rightarrow> run p1 s | RemoteZkProofRequesting \<Rightarrow> run p2 s
      | RemoteZkProofPending i \<Rightarrow> run (p3 i) s | ZkProofFinished f \<Rightarrow> run (p4 f) s | Failed e r \<Rightarrow> run (p5 e r) s)"
  by (simp_all split: option.split job_status.split)

lemma and_then_ext: "and_then (of_ext InternalError x, s) k = ext_try x s (\<lambda>v. k v s)"
  by (cases x) (simp_all add: of_ext_def)

lemma and_then_db: "and_then (db_try w op s (Ok a, s')) k = db_try w op s (k a s')"
  by (cases "fault w op") simp_all

lemmas run_basic [run_ops] = and_then_ext and_then_db ext_op_def db_read_def

lemma run_resend [run_ops]: "run (resend_op c w k st j) s = send_job_with_new_status c w s k st j"
  by (simp add: resend_op_def run_ops send_job_with_new_status_def resend_tx_def)

lemma run_finished [run_ops]: "run (finished_op c w j k st) s = answer_finished c w s j k st"
  by (auto simp: finished_op_def answer_finished_def run_ops split: job_status.split option.split prod.split res.split)

lemma run_queued [run_ops]: "run (queued_op c k st) s = answer_queued c s k st"
  by (cases st) (simp_all add: queued_op_def answer_queued_def)

lemma run_enqueue [run_ops]: "run (enqueue_op c w j k) s = enqueue_new c w s j k"
  by (simp add: enqueue_op_def enqueue_new_def run_ops)

lemma run_request: "run (request_op c w j) s = get_verifiable_encryption c w s j"
  by (simp add: request_op_def get_verifiable_encryption_def run_ops cong: option.case_cong)

lemma run_local [run_ops]: "run (local_op c w pid j k) s = zk_proof_local c w s pid j k"
  by (simp add: local_op_def zk_proof_local_def prover_op_def run_ops)

lemma run_remote [run_ops]: "run (remote_op c w pid j k) s = zk_proof_remote c w s pid j k"
  by (simp add: remote_op_def zk_proof_remote_def prover_op_def run_ops)

lemma run_wait [run_ops]: "run (wait_op c w j k rid) s = wait_for_zk_proof c w s j k rid"
  by (simp add: wait_op_def wait_for_zk_proof_def prover_op_def run_ops)

lemma run_work: "run (work_op c w j) s = prove c w s j"
  by (simp add: work_op_def prove_def finalize_op_def run_ops case_prod_beta
      cong: option.case_cong job_status.case_cong res.case_cong)

lemma run_warm: "run (warm_op c w) s = warm_up c w s"
  by (simp add: warm_op_def warm_up_def run_ops case_prod_beta)

lemma run_setup_op: "run (setup_op c w) s = verifier_setup c w s"
  by (simp add: setup_op_def verifier_setup_def run_ops case_prod_beta)

section \<open>The state all threads keep well-formed\<close>

definition good ::
  "('p, 'pk, 'vk, 'cl, 'z) crates_scheme \<Rightarrow> env_vars \<Rightarrow> ('pk \<Rightarrow> 'vk \<Rightarrow> bool) \<Rightarrow>
     (bytes \<Rightarrow> bytes list \<Rightarrow> bool) \<Rightarrow> ('pk, 'vk, 'cl) pda_runner \<Rightarrow> bool" where
  "good c E EK RQ s \<longleftrightarrow>
     setup_inv c EK s \<and> table_inv c E EK RQ s \<and> keys_ok c s \<and>
     (\<forall>j \<in> set (chan_jobs (job_channel s)). job_wf c j)"

lemma good_table:
  "good c E EK RQ s \<Longrightarrow> table s' = table s \<Longrightarrow> setup_inv c EK s' \<Longrightarrow> good c E EK RQ s'"
  by (auto simp: good_def table_inv_def keys_ok_def dest!: table_same)

lemma good_queue_insert:
  assumes "good c E EK RQ s" and "bincode_ok c" and "queue_ok c E RQ k st" and "status_ser c st = Inr b"
    and "vec_ser c (sha256 c d) = Inr k"
  shows "good c E EK RQ (s\<lparr>queue_db := (queue_db s)(k \<mapsto> b)\<rparr>)"
    and "good c E EK RQ (s\<lparr>finished_db := (finished_db s)(k := None), queue_db := (queue_db s)(k \<mapsto> b)\<rparr>)"
proof -
  have e: "entry_ok c (queue_ok c E RQ) k b" using assms(2-4) entry_ok_ser by metis
  with assms(1,5) show "good c E EK RQ (s\<lparr>queue_db := (queue_db s)(k \<mapsto> b)\<rparr>)"
    by (auto simp: good_def setup_inv_def table_inv_def keys_ok_def tree_all_upd)
  from e assms(1,5)
  show "good c E EK RQ (s\<lparr>finished_db := (finished_db s)(k := None), queue_db := (queue_db s)(k \<mapsto> b)\<rparr>)"
    by (auto simp: good_def setup_inv_def table_inv_def keys_ok_def tree_all_upd tree_all_del)
qed

lemma good_finish:
  assumes "good c E EK RQ s" and "bincode_ok c" and "finished_ok c E EK k st" and "moved_to_finished c k st s s'"
    and "vec_ser c (sha256 c d) = Inr k" and "setup_inv c EK s'"
  shows "good c E EK RQ s'"
proof -
  from assms(4) obtain b where b: "status_ser c st = Inr b" and t: "queue_db s' = (queue_db s)(k := None)"
      "finished_db s' = (finished_db s)(k \<mapsto> b)" "job_channel s' = job_channel s"
    by (auto simp: moved_to_finished_def table_def)
  have "table_inv c E EK RQ s'"
    using assms(1) table_inv_finished_upd [OF _ assms(2) b assms(3) t(1,2)] by (simp add: good_def)
  with assms(1,5,6) t show ?thesis by (auto simp: good_def keys_ok_def)
qed

section \<open>The threads are safe\<close>

lemma safe_db_read [safe_intros]:
  assumes "\<And>s. G s \<Longrightarrow> Q (Ok (f s))" and "\<And>e. Q (Err e)"
  shows "safe G Q (db_read w op f)"
  unfolding db_read_def by (rule safe_atom) (use assms in \<open>auto simp: db_try_def split: option.split\<close>)

lemma safe_ext_op [safe_intros]:
  assumes "\<And>v. x = Inr v \<Longrightarrow> Q (Ok v)" and "\<And>e. Q (Err e)"
  shows "safe G Q (ext_op x)"
  unfolding ext_op_def by (rule safe_Return) (use assms in \<open>auto simp: of_ext_def split: sum.split\<close>)

lemma safe_seq_ret:
  assumes "\<And>a. x = Ok a \<Longrightarrow> safe G Q (k a)" and "\<And>e. Q (Err e)" and "\<And>m. Q (Panic m)"
  shows "safe G Q (seq_ok (Return x) k)"
  by (rule safe_seq_ok [where R = "\<lambda>r. r = x"]) (use assms in auto)

lemma safe_seq_ext:
  assumes "\<And>v. x = Inr v \<Longrightarrow> safe G Q (k v)" and "\<And>e. Q (Err e)"
  shows "safe G Q (seq_ok (ext_op x) k)"
  using assms by (cases x) (simp_all add: seq_ok_def ext_op_def of_ext_def)

lemma safe_send:
  assumes "job_wf c j"
  shows "safe (good c E EK RQ) (\<lambda>_. True) (atom (\<lambda>s. chan_send w s (Some j)))"
  by (rule safe_atom) (use assms in \<open>auto simp: chan_send_def good_def setup_inv_def table_inv_def keys_ok_def\<close>)

lemma safe_resend:
  assumes "bincode_ok c" and "queue_ok c E RQ k st" and "vec_ser c (sha256 c d) = Inr k" and "job_wf c j"
  shows "safe (good c E EK RQ) (\<lambda>_. True) (resend_op c w k st j)"
proof -
  have "safe (good c E EK RQ) (\<lambda>_. True) (atom (resend_tx c w k st))"
    by (rule safe_atom)
      (use good_queue_insert(2) [OF _ assms(1,2) _ assms(3)] in
        \<open>auto simp: resend_tx_def db_try_def split: option.split sum.split\<close>)
  then show ?thesis
    unfolding resend_op_def by (rule safe_seq_ok) (use safe_send [OF assms(4)] in auto)
qed

lemma safe_finalize:
  assumes "bincode_ok c" and "finished_ok c E EK k st" and "vec_ser c (sha256 c d) = Inr k"
  shows "safe (good c E EK RQ) (\<lambda>_. True) (finalize_op c w k st)"
  unfolding finalize_op_def
proof (rule safe_atom)
  fix s
  assume g: "good c E EK RQ s"
  obtain r s' where f: "finalize_job c w s k st = (r, s')" by fastforce
  have inv: "setup_inv c EK s" using g by (simp add: good_def)
  from finalize_job_moved [OF f, of EK] inv g good_finish [OF g assms(1,2) _ assms(3)] f
  show "good c E EK RQ (snd (finalize_job c w s k st)) \<and> True" by auto
qed

subsection \<open>Requests\<close>

text \<open>What the answer to a request for the data \<open>d\<close> may be.\<close>

definition answer_ok ::
  "('p, 'pk, 'vk, 'cl, 'z) crates_scheme \<Rightarrow> env_vars \<Rightarrow> ('pk \<Rightarrow> 'vk \<Rightarrow> bool) \<Rightarrow> bytes \<Rightarrow>
     (pda_runner_error, 'p sp1_proof option) res \<Rightarrow> bool" where
  "answer_ok c E EK d r \<longleftrightarrow>
     (\<forall>pf. r = Ok (Some pf) \<longrightarrow> (\<exists>k. vec_ser c (sha256 c d) = Inr k \<and> genuine c E EK k pf))"

lemma answer_ok_simps [simp]:
  "answer_ok c E EK d (Ok None)" "answer_ok c E EK d (Err e)" "answer_ok c E EK d (Panic m)"
  by (simp_all add: answer_ok_def)

lemma safe_finished:
  assumes "bincode_ok c" and "finished_ok c E EK k st" and "vec_ser c (sha256 c d) = Inr k"
  shows "safe (good c E EK RQ) (answer_ok c E EK d) (finished_op c w (job_of c d) k st)"
proof -
  have "safe (good c E EK RQ) (answer_ok c E EK d) (finished_op c w (job_of c d) k (Failed e (Some st')))"
    if "st = Failed e (Some st')" for e st'
  proof -
    have "queue_ok c E RQ k st'"
      using assms(2) that failed_retry_final by (fastforce simp: finished_ok_def queue_ok_def)
    from safe_resend [OF assms(1) this assms(3) job_of_wf] show ?thesis
      unfolding finished_op_def by (auto intro!: safe_seq split: res.split)
  qed
  then show ?thesis
    using assms(2,3)
    by (cases st) (auto simp: finished_op_def finished_ok_def answer_ok_def split: option.split)
qed

lemma safe_enqueue:
  assumes "bincode_ok c" and "vec_ser c (sha256 c d) = Inr k"
  shows "safe (good c E EK RQ) (answer_ok c E EK d) (enqueue_op c w (job_of c d) k)"
proof -
  have "safe (good c E EK RQ) (\<lambda>_. True)
      (atom (\<lambda>s. db_try w QueueInsert s (Ok (), s\<lparr>queue_db := (queue_db s)(k \<mapsto> b)\<rparr>)))"
    if "initial_status p = Ok st" "status_ser c st = Inr b" for p st b
  proof (rule safe_atom)
    have "queue_ok c E RQ k st"
      using that(1) by (auto simp: initial_status_def queue_ok_def split: if_splits)
    then show "good c E EK RQ s \<Longrightarrow> good c E EK RQ (snd (db_try w QueueInsert s
        (Ok (), s\<lparr>queue_db := (queue_db s)(k \<mapsto> b)\<rparr>))) \<and> True" for s
      using good_queue_insert(1) [OF _ assms(1) _ that(2) assms(2)] by (simp add: db_try_def split: option.split)
  qed
  then show ?thesis
    unfolding enqueue_op_def
    by (intro safe_seq_ret safe_seq_ext safe_seq_ok [where R = "\<lambda>_. True", OF safe_send [OF job_of_wf]]
        safe_seq_ok [where R = "\<lambda>_. True"]) auto
qed

lemma safe_request:
  assumes bin: "bincode_ok c"
  shows "safe (good c E EK RQ) (answer_ok c E EK d) (request_op c w (job_of c d))"
  unfolding request_op_def
proof (rule safe_seq_ext)
  fix k
  assume "anchor_ser c (job_anchor (job_of c d)) = Inr k"
  then have k: "vec_ser c (sha256 c d) = Inr k" by (simp add: anchor_ser_def)
  let ?R = "\<lambda>P r. \<forall>b. r = Ok (Some b) \<longrightarrow> entry_ok c P k b"
  have entries: "good c E EK RQ s \<Longrightarrow> finished_db s k = Some b \<Longrightarrow> entry_ok c (finished_ok c E EK) k b"
    "good c E EK RQ s \<Longrightarrow> queue_db s k = Some b \<Longrightarrow> entry_ok c (queue_ok c E RQ) k b" for s b
    by (auto simp: good_def table_inv_def dest: tree_allD)
  have fin: "safe (good c E EK RQ) (answer_ok c E EK d)
      (seq_ok (ext_op (status_de c b)) (finished_op c w (job_of c d) k))"
    if "entry_ok c (finished_ok c E EK) k b" for b
    using that safe_finished [OF bin _ k] by (intro safe_seq_ext) (auto simp: entry_ok_def)
  have que: "safe (good c E EK RQ) (answer_ok c E EK d) (seq_ok (ext_op (status_de c b)) (queued_op c k))" for b
    by (intro safe_seq_ext) (auto simp: queued_op_def)
  show "safe (good c E EK RQ) (answer_ok c E EK d)
      (seq_ok (db_read w FinishedGet (\<lambda>s. finished_db s k)) (\<lambda>found. case found of
         Some b \<Rightarrow> seq_ok (ext_op (status_de c b)) (finished_op c w (job_of c d) k)
       | None \<Rightarrow> seq_ok (db_read w QueueGet (\<lambda>s. queue_db s k)) (\<lambda>queued. case queued of
           Some b \<Rightarrow> seq_ok (ext_op (status_de c b)) (queued_op c k)
         | None \<Rightarrow> enqueue_op c w (job_of c d) k)))"
    by (rule safe_seq_ok [where R = "?R (finished_ok c E EK)"])
      (auto intro!: safe_db_read fin safe_seq_ok [where R = "\<lambda>_. True"] que safe_enqueue [OF bin k]
        dest: entries(1) split: option.split)
qed simp

subsection \<open>Worker tasks\<close>

lemma safe_cells:
  assumes "\<And>s r s'. f s = (r, s') \<Longrightarrow> setup_inv c EK s \<Longrightarrow> table s' = table s \<and> setup_inv c EK s' \<and> Q r"
  shows "safe (good c E EK RQ) Q (atom f)"
proof (rule safe_atom)
  fix s
  assume g: "good c E EK RQ s"
  then have "table (snd (f s)) = table s \<and> setup_inv c EK (snd (f s)) \<and> Q (fst (f s))"
    using assms [of s "fst (f s)" "snd (f s)"] by (simp add: good_def)
  with good_table [OF g] show "good c E EK RQ (snd (f s)) \<and> Q (fst (f s))" by blast
qed

lemma safe_prover:
  assumes "bincode_ok c" and "vec_ser c (sha256 c d) = Inr k"
  shows "safe (good c E EK RQ) (\<lambda>r. \<forall>v. r = Ok v \<longrightarrow> x = Inr v) (prover_op c w j k x)"
  unfolding prover_op_def
proof (rule safe_atom)
  fix s
  assume g: "good c E EK RQ s"
  then have inv: "setup_inv c EK s" by (simp add: good_def)
  obtain r s' where call: "prover_result c w s j k x = (r, s')" by fastforce
  note eff = prover_result_effect [OF call inv]
  have "good c E EK RQ s'"
    using eff g good_finish [OF g assms(1) _ _ assms(2)] by (auto simp: finished_ok_def)
  with eff call show "good c E EK RQ (snd (prover_result c w s j k x)) \<and>
      (\<forall>v. fst (prover_result c w s j k x) = Ok v \<longrightarrow> x = Inr v)" by simp
qed

lemma safe_setup:
  assumes "world_ok c E EK RQ w" and "bincode_ok c"
  shows "safe (good c E EK RQ) (\<lambda>r. \<forall>su. r = Ok su \<longrightarrow> EK (setup_pk su) (setup_vk su))
      (atom (\<lambda>s. get_proof_setup_local c w s (sha256 c (chacha_elf c)) cl))"
    "safe (good c E EK RQ) (\<lambda>r. \<forall>su. r = Ok su \<longrightarrow> EK (setup_pk su) (setup_vk su))
      (atom (\<lambda>s. get_proof_setup_remote c w s (sha256 c (chacha_elf c)) cl))"
  by (rule safe_cells; use get_proof_setup_effect [OF _ _ assms] in blast)+

lemma safe_clients:
  "safe (good c E EK RQ) (\<lambda>_. True) (atom (get_zk_client_local w))"
  "safe (good c E EK RQ) (\<lambda>_. True) (atom (get_zk_client_remote w))"
  "safe (good c E EK RQ) (\<lambda>pid. pid = sha256 c (chacha_elf c)) (atom (get_program_id c))"
  by (rule safe_cells; use get_zk_client_local_effect get_zk_client_remote_effect get_program_id_effect in blast)+

lemma safe_local:
  assumes "world_ok c E EK RQ w" and "bincode_ok c" and "job_wf c j" and "anchor_ser c (job_anchor j) = Inr k"
  shows "safe (good c E EK RQ) (\<lambda>r. \<forall>pf. r = Ok pf \<longrightarrow> genuine c E EK k pf)
    (local_op c w (sha256 c (chacha_elf c)) j k)"
proof -
  have k: "vec_ser c (sha256 c (input_data (job_input j))) = Inr k"
    using assms(4) job_wfD [OF assms(3)] by (simp add: anchor_ser_def)
  have gen: "genuine c E EK k pf"
    if "EK pk vk" "encryption_key c (env_var w) = (Ok key :: (pda_runner_error, bytes) res)"
      "run_prove w cl pk [key, nonce, input_data (job_input j)] = Inr pf" for cl pk vk key nonce pf
    using that k world_okD(1,4) [OF assms(1)] unfolding genuine_def by metis
  show ?thesis
    unfolding local_op_def
    by (intro safe_seq_ok [OF safe_clients(1)] safe_seq_ok [OF safe_setup(1) [OF assms(1,2)]] safe_seq_ret
        safe_mono [OF safe_prover [OF assms(2) k]]) (auto intro: gen)
qed

lemma safe_remote:
  assumes "world_ok c E EK RQ w" and "bincode_ok c" and "job_wf c j" and "anchor_ser c (job_anchor j) = Inr k"
  shows "safe (good c E EK RQ) (\<lambda>r. \<forall>rid. r = Ok rid \<longrightarrow> requested c E RQ k rid)
    (remote_op c w (sha256 c (chacha_elf c)) j k)"
proof -
  have k: "vec_ser c (sha256 c (input_data (job_input j))) = Inr k"
    using assms(4) job_wfD [OF assms(3)] by (simp add: anchor_ser_def)
  have req: "requested c E RQ k rid"
    if "EK pk vk" "encryption_key c (env_var w) = (Ok key :: (pda_runner_error, bytes) res)"
      "request_proof w cl pk [key, nonce, input_data (job_input j)] strat t = Inr rid" for cl pk vk key nonce strat t rid
    using that k world_okD(1,5) [OF assms(1)] unfolding requested_def by metis
  have timeout: "safe (good c E EK RQ) (\<lambda>_. True) (atom (\<lambda>s. (zk_proof_gen_timeout_remote s, s)))"
    by (rule safe_atom) simp
  show ?thesis
    unfolding remote_op_def
    by (intro safe_seq_ok [OF safe_clients(2)] safe_seq_ok [OF safe_setup(2) [OF assms(1,2)]] safe_seq_ret
        safe_seq [OF timeout] safe_mono [OF safe_prover [OF assms(2) k]]) (auto intro: req)
qed

lemma safe_wait:
  assumes "world_ok c E EK RQ w" and "bincode_ok c" and "requested c E RQ k rid" and "vec_ser c (sha256 c d) = Inr k"
  shows "safe (good c E EK RQ) (\<lambda>r. \<forall>pf. r = Ok pf \<longrightarrow> genuine c E EK k pf) (wait_op c w j k rid)"
proof -
  have gen: "genuine c E EK k pf" if "wait_proof w cl rid = Inr pf" for cl pf
    using assms(3) world_okD(6) [OF assms(1) _ that] unfolding requested_def genuine_def by blast
  show ?thesis
    unfolding wait_op_def
    by (intro safe_seq_ok [OF safe_clients(2)] safe_mono [OF safe_prover [OF assms(2,4)]]) (auto intro: gen)
qed

lemma safe_proved:
  assumes "safe G R p" and "\<And>a. R (Ok a) \<Longrightarrow> safe G (\<lambda>_. True) (k a)"
  shows "safe G (\<lambda>_. True) (proved p k)"
  unfolding proved_def by (rule safe_seq [OF assms(1)]) (use assms(2) in \<open>auto split: res.split\<close>)

lemma safe_work:
  assumes ok: "world_ok c E EK RQ w" and bin: "bincode_ok c" and wf: "job_wf c j"
  shows "safe (good c E EK RQ) (\<lambda>_. True) (work_op c w j)"
  unfolding work_op_def
proof (rule safe_seq_ext)
  fix k
  assume k: "anchor_ser c (job_anchor j) = Inr k"
  then have key: "vec_ser c (sha256 c (input_data (job_input j))) = Inr k"
    using job_wfD [OF wf] by (simp add: anchor_ser_def)
  let ?G = "good c E EK RQ" and ?pid = "sha256 c (chacha_elf c)"
  have fin: "safe ?G (\<lambda>_. True) (finalize_op c w k (ZkProofFinished pf))" if "genuine c E EK k pf" for pf
    using that by (intro safe_finalize [OF bin _ key]) (simp add: finished_ok_def)
  have res: "safe ?G (\<lambda>_. True) (resend_op c w k (RemoteZkProofPending rid) j)" if "requested c E RQ k rid" for rid
    using that by (intro safe_resend [OF bin _ key wf]) (simp add: queue_ok_def)
  have loc: "safe ?G (\<lambda>_. True) (proved (local_op c w ?pid j k) (\<lambda>pf. finalize_op c w k (ZkProofFinished pf)))"
    by (rule safe_proved [OF safe_local [OF ok bin wf k]]) (simp add: fin)
  have rem: "safe ?G (\<lambda>_. True) (proved (remote_op c w ?pid j k)
      (\<lambda>rid. resend_op c w k (RemoteZkProofPending rid) j))"
    by (rule safe_proved [OF safe_remote [OF ok bin wf k]]) (simp add: res)
  have wai: "safe ?G (\<lambda>_. True) (proved (wait_op c w j k rid) (\<lambda>pf. finalize_op c w k (ZkProofFinished pf)))"
    if "requested c E RQ k rid" for rid
    by (rule safe_proved [OF safe_wait [OF ok bin that key]]) (simp add: fin)
  have entry: "entry_ok c (queue_ok c E RQ) k b" if "?G s" "queue_db s k = Some b" for s b
    using that by (auto simp: good_def table_inv_def dest: tree_allD)
  show "safe ?G (\<lambda>_. True)
      (seq_ok (db_read w QueueGet (\<lambda>s. queue_db s k)) (\<lambda>found. case found of
         None \<Rightarrow> Return (Ok ())
       | Some b \<Rightarrow> seq_ok (ext_op (status_de c b)) (\<lambda>st. case st of
           RemoteZkProofRequesting \<Rightarrow> seq (atom (get_program_id c)) (\<lambda>pid.
             proved (remote_op c w pid j k) (\<lambda>rid. resend_op c w k (RemoteZkProofPending rid) j))
         | RemoteZkProofPending rid \<Rightarrow>
             proved (wait_op c w j k rid) (\<lambda>pf. finalize_op c w k (ZkProofFinished pf))
         | LocalZkProofPending \<Rightarrow> seq (atom (get_program_id c)) (\<lambda>pid.
             proved (local_op c w pid j k) (\<lambda>pf. finalize_op c w k (ZkProofFinished pf)))
         | _ \<Rightarrow> Return (Ok ()))))"
    by (rule safe_seq_ok [where R = "\<lambda>r. \<forall>b. r = Ok (Some b) \<longrightarrow> entry_ok c (queue_ok c E RQ) k b"])
      (auto intro!: safe_db_read safe_seq_ext safe_seq [OF safe_clients(3)] loc rem wai
        dest: entry simp: entry_ok_def queue_ok_def simp del: seq_atom split: option.split job_status.split)
qed simp

lemma safe_warm:
  assumes "world_ok c E EK RQ w" and "bincode_ok c"
  shows "safe (good c E EK RQ) (\<lambda>_. True) (warm_op c w)"
  unfolding warm_op_def
  by (auto intro!: safe_seq [OF safe_clients(3)] safe_seq_ok [OF safe_clients(1)] safe_seq_ok [OF safe_clients(2)]
      safe_seq [OF safe_setup(1) [OF assms]] safe_seq [OF safe_setup(2) [OF assms]] simp del: seq_atom)

lemma safe_setup_op:
  assumes "world_ok c E EK RQ w" and "bincode_ok c"
  shows "safe (good c E EK RQ) (\<lambda>_. True) (setup_op c w)"
  unfolding setup_op_def
  by (auto intro!: safe_seq [OF safe_clients(3)] safe_seq_ok [OF safe_clients(1)]
      safe_seq_ok [OF safe_setup(1) [OF assms]] simp del: seq_atom)

end
