(* ===== verification/Runner_Race.thy ===== *)
theory Runner_Race
  imports Runner_Properties Runner_Threads
begin

text \<open>
  The runner with its database accesses interleaved: the process as a pool of the threads of the
  theory \<open>Runner_Threads\<close>.

  Every run of the transition system of \<open>Runner_System\<close> is a run of this one.  In every interleaving
  the entries of the trees are well-formed and every proof handed out is genuine.  What does not
  survive is that a job is in one tree only and scheduled once: two requests can pass the checks of
  \<open>get_verifiable_encryption\<close> before either enters the job.
\<close>

section \<open>The process as a pool of threads\<close>

datatype thread_id = Request bytes | Task job | Warm_up | Verify

datatype 'p outcome =
  Answered "(pda_runner_error, 'p sp1_proof option) res"
| Worked "(pda_runner_error, unit) res"

type_synonym ('p, 'pk, 'vk, 'cl) thread = "('p outcome, ('pk, 'vk, 'cl) pda_runner) prog"

record ('p, 'pk, 'vk, 'cl) pool =
  pool_runner :: "('pk, 'vk, 'cl) pda_runner"
  pool_threads :: "(thread_id \<times> ('p, 'pk, 'vk, 'cl) thread) list"
  pool_spawned :: "job list" \<comment> \<open>spawned tasks that have not started\<close>
  pool_exited :: bool

definition request_thread ::
  "('p, 'pk, 'vk, 'cl, 'z) crates_scheme \<Rightarrow> ('p, 'pk, 'vk, 'cl) world \<Rightarrow> bytes \<Rightarrow> ('p, 'pk, 'vk, 'cl) thread" where
  "request_thread c w d = seq (request_op c w (job_of c d)) (\<lambda>r. Return (Answered r))"

definition work_thread ::
  "('p, 'pk, 'vk, 'cl, 'z) crates_scheme \<Rightarrow> ('p, 'pk, 'vk, 'cl) world \<Rightarrow> job \<Rightarrow> ('p, 'pk, 'vk, 'cl) thread" where
  "work_thread c w j = seq (work_op c w j) (\<lambda>r. Return (Worked r))"

definition warm_thread ::
  "('p, 'pk, 'vk, 'cl, 'z) crates_scheme \<Rightarrow> ('p, 'pk, 'vk, 'cl) world \<Rightarrow> ('p, 'pk, 'vk, 'cl) thread" where
  "warm_thread c w = seq (warm_op c w) (\<lambda>r. Return (Worked r))"

definition verify_thread ::
  "('p, 'pk, 'vk, 'cl, 'z) crates_scheme \<Rightarrow> ('p, 'pk, 'vk, 'cl) world \<Rightarrow> ('p, 'pk, 'vk, 'cl) thread" where
  "verify_thread c w = seq (setup_op c w) (\<lambda>r. Return (Worked (res_bind r (\<lambda>_. Ok ()))))"

inductive race_step ::
  "('p, 'pk, 'vk, 'cl, 'z) crates_scheme \<Rightarrow> env_vars \<Rightarrow> ('pk \<Rightarrow> 'vk \<Rightarrow> bool) \<Rightarrow>
     (bytes \<Rightarrow> bytes list \<Rightarrow> bool) \<Rightarrow> ('p, 'pk, 'vk, 'cl) pool \<Rightarrow> ('p, 'pk, 'vk, 'cl) pool \<Rightarrow> bool"
  for c E EK RQ where
  arrive: "\<not> pool_exited S \<Longrightarrow> world_ok c E EK RQ w \<Longrightarrow>
    race_step c E EK RQ S (S\<lparr>pool_threads := pool_threads S @ [(Request d, request_thread c w d)]\<rparr>)"
| receive: "\<not> pool_exited S \<Longrightarrow> job_channel (pool_runner S) = Some j # rest \<Longrightarrow>
    race_step c E EK RQ S (S\<lparr>pool_runner := (pool_runner S)\<lparr>job_channel := rest\<rparr>,
      pool_spawned := pool_spawned S @ [j]\<rparr>)"
| begin_task: "\<not> pool_exited S \<Longrightarrow> world_ok c E EK RQ w \<Longrightarrow> pool_spawned S = xs @ j # ys \<Longrightarrow>
    race_step c E EK RQ S (S\<lparr>pool_spawned := xs @ ys,
      pool_threads := pool_threads S @ [(Task j, work_thread c w j)]\<rparr>)"
| begin_warm: "\<not> pool_exited S \<Longrightarrow> world_ok c E EK RQ w \<Longrightarrow>
    race_step c E EK RQ S (S\<lparr>pool_threads := pool_threads S @ [(Warm_up, warm_thread c w)]\<rparr>)"
| begin_verify: "\<not> pool_exited S \<Longrightarrow> world_ok c E EK RQ w \<Longrightarrow>
    race_step c E EK RQ S (S\<lparr>pool_threads := pool_threads S @ [(Verify, verify_thread c w)]\<rparr>)"
| a_section: "\<not> pool_exited S \<Longrightarrow> pool_step (pool_threads S) (pool_runner S) ts s \<Longrightarrow>
    race_step c E EK RQ S (S\<lparr>pool_runner := s, pool_threads := ts\<rparr>)"
| signal: "\<not> pool_exited S \<Longrightarrow> world_ok c E EK RQ w \<Longrightarrow>
    race_step c E EK RQ S (S\<lparr>pool_runner := shutdown w (pool_runner S)\<rparr>)"
| stop: "\<not> pool_exited S \<Longrightarrow> job_channel (pool_runner S) = None # rest \<Longrightarrow>
    race_step c E EK RQ S (S\<lparr>pool_runner := (pool_runner S)\<lparr>job_channel := rest, receiver_open := False\<rparr>,
      pool_exited := True\<rparr>)"

text \<open>A process starts on well-formed trees; a key may be in both.\<close>

definition race_start ::
  "('p, 'pk, 'vk, 'cl, 'z) crates_scheme \<Rightarrow> env_vars \<Rightarrow> ('pk \<Rightarrow> 'vk \<Rightarrow> bool) \<Rightarrow>
     (bytes \<Rightarrow> bytes list \<Rightarrow> bool) \<Rightarrow> ('p, 'pk, 'vk, 'cl) pool \<Rightarrow> bool" where
  "race_start c E EK RQ S \<longleftrightarrow>
     bincode_ok c \<and> good c E EK RQ (pool_runner S) \<and>
     (\<exists>t cdb qdb fdb. S = \<lparr>pool_runner = new_runner t cdb qdb fdb, pool_threads = [], pool_spawned = [],
        pool_exited = False\<rparr>)"

abbreviation race_reachable ::
  "('p, 'pk, 'vk, 'cl, 'z) crates_scheme \<Rightarrow> env_vars \<Rightarrow> ('pk \<Rightarrow> 'vk \<Rightarrow> bool) \<Rightarrow>
     (bytes \<Rightarrow> bytes list \<Rightarrow> bool) \<Rightarrow> ('p, 'pk, 'vk, 'cl) pool \<Rightarrow> bool" where
  "race_reachable c E EK RQ \<equiv> reach (race_start c E EK RQ) (race_step c E EK RQ)"

section \<open>Every interleaving is safe\<close>

fun result_ok ::
  "('p, 'pk, 'vk, 'cl, 'z) crates_scheme \<Rightarrow> env_vars \<Rightarrow> ('pk \<Rightarrow> 'vk \<Rightarrow> bool) \<Rightarrow> thread_id \<Rightarrow> 'p outcome \<Rightarrow> bool" where
  "result_ok c E EK (Request d) (Answered r) = answer_ok c E EK d r"
| "result_ok c E EK (Request d) (Worked r) = False"
| "result_ok c E EK _ r = True"

lemma safe_result:
  assumes "safe G Q p" and "\<And>r. Q r \<Longrightarrow> Q' (h r)"
  shows "safe G Q' (seq p (\<lambda>r. Return (h r)))"
  by (rule safe_seq [OF assms(1)]) (simp add: assms(2))

lemma threads_safe:
  assumes "bincode_ok c" and "world_ok c E EK RQ w"
  shows "safe (good c E EK RQ) (result_ok c E EK (Request d)) (request_thread c w d)"
    and "job_wf c j \<Longrightarrow> safe (good c E EK RQ) (result_ok c E EK (Task j)) (work_thread c w j)"
    and "safe (good c E EK RQ) (result_ok c E EK Warm_up) (warm_thread c w)"
    and "safe (good c E EK RQ) (result_ok c E EK Verify) (verify_thread c w)"
  unfolding request_thread_def work_thread_def warm_thread_def verify_thread_def
  by (rule safe_result [OF safe_request [OF assms(1)]], simp)
    (rule safe_result [OF safe_work [OF assms(2,1)]], simp_all,
     rule safe_result [OF safe_warm [OF assms(2,1)]], simp,
     rule safe_result [OF safe_setup_op [OF assms(2,1)]], simp)

lemma good_recv:
  assumes "good c E EK RQ s" and "job_channel s = m # rest"
  shows "good c E EK RQ (s\<lparr>job_channel := rest\<rparr>)" "good c E EK RQ (s\<lparr>job_channel := rest, receiver_open := x\<rparr>)"
    "m = Some j \<Longrightarrow> job_wf c j"
  using assms by (cases m; auto simp: good_def setup_inv_def table_inv_def keys_ok_def)+

lemma good_shutdown: "good c E EK RQ s \<Longrightarrow> good c E EK RQ (shutdown w s)"
  by (auto simp: shutdown_def chan_send_def good_def setup_inv_def table_inv_def keys_ok_def)

text \<open>The tasks not yet started are jobs with the right anchor.\<close>

interpretation race: thread_pool "race_start c E EK RQ" "race_step c E EK RQ" pool_threads pool_runner
  "\<lambda>S. bincode_ok c \<and> (\<forall>j \<in> set (pool_spawned S). job_wf c j)" "good c E EK RQ" "result_ok c E EK"
  for c :: "('p, 'pk, 'vk, 'cl, 'z) crates_scheme" and E EK RQ
proof unfold_locales
  fix S T
  assume "race_step c E EK RQ S T" and aux: "bincode_ok c \<and> (\<forall>j \<in> set (pool_spawned S). job_wf c j)"
    and g: "good c E EK RQ (pool_runner S)"
  from this(1) show "(bincode_ok c \<and> (\<forall>j \<in> set (pool_spawned T). job_wf c j)) \<and>
      (pool_step (pool_threads S) (pool_runner S) (pool_threads T) (pool_runner T) \<or>
       good c E EK RQ (pool_runner T) \<and>
         (\<exists>new. pool_threads T = pool_threads S @ new \<and> all_safe (good c E EK RQ) (result_ok c E EK) new))"
    by cases (use aux g in \<open>auto simp: good_shutdown good_recv threads_safe\<close>)
qed (auto simp: race_start_def)

section \<open>Runs of whole operations are interleavings\<close>

lemma sections_race:
  assumes "sections p s q t" and "\<not> pool_exited S" and "pool_runner S = s" and "pool_threads S = xs @ (i, p) # ys"
  shows "runs (race_step c E EK RQ) S (S\<lparr>pool_runner := t, pool_threads := xs @ (i, q) # ys\<rparr>)"
  using assms
proof (induction arbitrary: S)
  case (sections_refl p s)
  then have "S\<lparr>pool_runner := s, pool_threads := xs @ (i, p) # ys\<rparr> = S" by simp
  then show ?case using runs_refl by metis
next
  case (sections_more k s u q t)
  let ?T = "S\<lparr>pool_runner := u s, pool_threads := xs @ (i, k s) # ys\<rparr>"
  have "race_step c E EK RQ S ?T"
    using sections_more.prems by (intro race_step.a_section) (auto intro: pool_step.intros)
  moreover have "runs (race_step c E EK RQ) ?T (?T\<lparr>pool_runner := t, pool_threads := xs @ (i, q) # ys\<rparr>)"
    using sections_more.prems(1) by (intro sections_more.IH) auto
  ultimately have "runs (race_step c E EK RQ) S (?T\<lparr>pool_runner := t, pool_threads := xs @ (i, q) # ys\<rparr>)"
    by (rule runs_first [where step = "race_step c E EK RQ"])
  then show ?case by simp
qed

definition embeds :: "('p, 'pk, 'vk, 'cl) pool \<Rightarrow> ('pk, 'vk, 'cl) sys \<Rightarrow> bool" where
  "embeds R S \<longleftrightarrow>
     pool_runner R = sys_runner S \<and> pool_spawned R = running S \<and> pool_exited R = exited S"

text \<open>A new thread run to its end at once.\<close>

lemma run_new_thread:
  assumes "race_step c E EK RQ R (R'\<lparr>pool_threads := pool_threads R @ [(i, seq p (\<lambda>r. Return (h r)))]\<rparr>)"
    and "\<not> pool_exited R'" and "run p (pool_runner R') = (r, s)"
  shows "runs (race_step c E EK RQ) R
    (R'\<lparr>pool_runner := s, pool_threads := pool_threads R @ [(i, Return (h r))]\<rparr>)"
proof -
  let ?S = "R'\<lparr>pool_threads := pool_threads R @ [(i, seq p (\<lambda>r. Return (h r)))]\<rparr>"
  have "runs (race_step c E EK RQ) ?S (?S\<lparr>pool_runner := s, pool_threads := pool_threads R @ (i, Return (h r)) # []\<rparr>)"
    by (rule sections_race [OF run_seq_sections [OF assms(3)]]) (use assms(2) in auto)
  from runs_first [where step = "race_step c E EK RQ", OF assms(1) this] show ?thesis by simp
qed

lemma embed_step:
  assumes "sys_step c E EK RQ S T" and "embeds R S"
  shows "\<exists>R' new. runs (race_step c E EK RQ) R R' \<and> embeds R' T \<and> pool_threads R' = pool_threads R @ new"
  using assms(1)
proof (cases rule: sys_step.cases)
  case (request w d r s')
  have "race_step c E EK RQ R (R\<lparr>pool_threads := pool_threads R @ [(Request d, request_thread c w d)]\<rparr>)"
    using request(2,3) assms(2) by (intro race_step.arrive) (auto simp: embeds_def)
  from run_new_thread [OF this [unfolded request_thread_def]] show ?thesis
    using request assms(2) unfolding run_request by (fastforce simp: embeds_def)
next
  case receive
  then obtain m rest where ch: "job_channel (sys_runner S) = m # rest"
    by (auto simp: job_worker_recv_def split: list.splits)
  let ?R = "case m of
      Some j \<Rightarrow> R\<lparr>pool_runner := (pool_runner R)\<lparr>job_channel := rest\<rparr>, pool_spawned := pool_spawned R @ [j]\<rparr>
    | None \<Rightarrow> R\<lparr>pool_runner := (pool_runner R)\<lparr>job_channel := rest, receiver_open := False\<rparr>, pool_exited := True\<rparr>"
  have "\<not> pool_exited R" "job_channel (pool_runner R) = m # rest"
    using receive(1) ch assms(2) by (auto simp: embeds_def)
  then have "race_step c E EK RQ R ?R"
    by (cases m) (simp_all add: race_step.receive race_step.stop)
  then have "runs (race_step c E EK RQ) R ?R" by (rule runs_one [where step = "race_step c E EK RQ"])
  moreover have "embeds ?R T" "pool_threads ?R = pool_threads R @ []"
    using receive(2) ch assms(2) by (auto simp: job_worker_recv_def embeds_def split: option.splits)
  ultimately show ?thesis by blast
next
  case (work w xs j ys r s')
  have "race_step c E EK RQ R (R\<lparr>pool_spawned := xs @ ys,
      pool_threads := pool_threads R @ [(Task j, work_thread c w j)]\<rparr>)"
    using work(2-4) assms(2) by (intro race_step.begin_task) (auto simp: embeds_def)
  from run_new_thread [OF this [unfolded work_thread_def]] show ?thesis
    using work assms(2) unfolding run_work by (fastforce simp: embeds_def)
next
  case (warm w r s')
  have "race_step c E EK RQ R (R\<lparr>pool_threads := pool_threads R @ [(Warm_up, warm_thread c w)]\<rparr>)"
    using warm(2,3) assms(2) by (intro race_step.begin_warm) (auto simp: embeds_def)
  from run_new_thread [OF this [unfolded warm_thread_def]] show ?thesis
    using warm assms(2) unfolding run_warm by (fastforce simp: embeds_def)
next
  case (verify w r s')
  have "race_step c E EK RQ R (R\<lparr>pool_threads := pool_threads R @ [(Verify, verify_thread c w)]\<rparr>)"
    using verify(2,3) assms(2) by (intro race_step.begin_verify) (auto simp: embeds_def)
  from run_new_thread [OF this [unfolded verify_thread_def]] show ?thesis
    using verify assms(2) unfolding run_setup_op by (fastforce simp: embeds_def)
next
  case (signal w)
  then have "race_step c E EK RQ R (R\<lparr>pool_runner := shutdown w (pool_runner R)\<rparr>)"
    using assms(2) by (intro race_step.signal) (auto simp: embeds_def)
  then have "runs (race_step c E EK RQ) R (R\<lparr>pool_runner := shutdown w (pool_runner R)\<rparr>)"
    by (rule runs_one [where step = "race_step c E EK RQ"])
  moreover have "embeds (R\<lparr>pool_runner := shutdown w (pool_runner R)\<rparr>) T"
    "pool_threads (R\<lparr>pool_runner := shutdown w (pool_runner R)\<rparr>) = pool_threads R @ []"
    using signal assms(2) by (auto simp: embeds_def)
  ultimately show ?thesis by blast
qed

lemma embed_runs:
  assumes "runs (sys_step c E EK RQ) S T" and "embeds R S"
  shows "\<exists>R' new. runs (race_step c E EK RQ) R R' \<and> embeds R' T \<and> pool_threads R' = pool_threads R @ new"
  using assms(1)
proof (induction rule: reach.induct)
  case (reach_init s)
  with assms(2) show ?case by (intro exI [of _ R]) auto
next
  case (reach_step s t)
  then obtain R1 new1 where 1: "runs (race_step c E EK RQ) R R1" "embeds R1 s" "pool_threads R1 = pool_threads R @ new1"
    by blast
  from embed_step [OF reach_step(2) 1(2)] obtain R2 new2 where
      2: "runs (race_step c E EK RQ) R1 R2" "embeds R2 t" "pool_threads R2 = pool_threads R1 @ new2" by blast
  have "runs (race_step c E EK RQ) R R2" using runs_trans [OF 2(1) 1(1)] .
  with 1(3) 2(2,3) show ?case by (intro exI [of _ R2] exI [of _ "new1 @ new2"]) simp
qed

lemma embed_reachable:
  assumes "reachable c E EK RQ S"
  shows "\<exists>R. race_reachable c E EK RQ R \<and> embeds R S"
  using assms
proof (induction rule: reach.induct)
  case (reach_init S)
  let ?R = "\<lparr>pool_runner = sys_runner S, pool_threads = [], pool_spawned = [], pool_exited = False\<rparr>"
  have "race_start c E EK RQ ?R" "embeds ?R S"
    using reach_init by (auto simp: start_def sys_init_def race_start_def embeds_def good_def sys_inv_def sys_jobs_def) blast
  then show ?case using reach.reach_init by metis
next
  case (reach_step S T)
  from reach_step.IH obtain R where R: "race_reachable c E EK RQ R" "embeds R S" by blast
  from embed_step [OF reach_step.hyps(2) R(2)] obtain R' where
    "runs (race_step c E EK RQ) R R'" "embeds R' T" by blast
  with reach_runs [OF this(1) R(1)] show ?case by blast
qed

section \<open>Requests that overlap\<close>

text \<open>A request that has found its job in neither tree and has not entered it yet.\<close>

definition entering ::
  "('p, 'pk, 'vk, 'cl, 'z) crates_scheme \<Rightarrow> ('p, 'pk, 'vk, 'cl) world \<Rightarrow> bytes \<Rightarrow> bytes \<Rightarrow>
     ('p, 'pk, 'vk, 'cl) thread" where
  "entering c w d k = seq (enqueue_op c w (job_of c d) k) (\<lambda>r. Return (Answered r))"

lemma request_reads:
  assumes "vec_ser c (sha256 c d) = Inr k" and "\<forall>op. fault w op = None"
    and "queue_db s k = None" and "finished_db s k = None"
  shows "sections (request_thread c w d) s (entering c w d k) s"
  unfolding request_thread_def entering_def request_op_def
  using assms
  by (auto simp: seq_ok_def ext_op_def of_ext_def anchor_ser_def db_read_def atom_def
      intro!: sections_more sections_refl)

lemma enqueue_new_writes:
  assumes "\<forall>op. fault w op = None" and "env_var w ''SP1_PROVER'' = Some p" and "initial_status p = Ok st"
    and "status_ser c st = Inr b"
  shows "queue_db (snd (enqueue_new c w s j k)) = (queue_db s)(k \<mapsto> b)"
    and "finished_db (snd (enqueue_new c w s j k)) = finished_db s"
    and "job_channel (snd (enqueue_new c w s j k)) = pushed s j"
    and "receiver_open (snd (enqueue_new c w s j k)) = receiver_open s"
    and "receiver_open s \<Longrightarrow> fst (enqueue_new c w s j k) = Ok None"
  using assms by (auto simp: enqueue_new_def chan_send_def pushed_def)

lemma entering_runs:
  "sections (entering c w d k) s (Return (Answered (fst (enqueue_new c w s (job_of c d) k))))
     (snd (enqueue_new c w s (job_of c d) k))"
  unfolding entering_def by (rule run_seq_sections) (simp add: run_enqueue)

text \<open>A new request reads both trees.\<close>

lemma arrive_and_read:
  assumes "\<not> pool_exited S" and "world_ok c E EK RQ w" and "vec_ser c (sha256 c d) = Inr k"
    and "\<forall>op. fault w op = None" and "queue_db (pool_runner S) k = None" and "finished_db (pool_runner S) k = None"
  shows "runs (race_step c E EK RQ) S (S\<lparr>pool_threads := pool_threads S @ [(Request d, entering c w d k)]\<rparr>)"
proof -
  let ?S = "S\<lparr>pool_threads := pool_threads S @ [(Request d, request_thread c w d)]\<rparr>"
  have "runs (race_step c E EK RQ) ?S (?S\<lparr>pool_runner := pool_runner S,
      pool_threads := pool_threads S @ (Request d, entering c w d k) # []\<rparr>)"
    by (rule sections_race [OF request_reads [OF assms(3-6)]]) (use assms(1) in auto)
  from runs_first [where step = "race_step c E EK RQ", OF race_step.arrive [OF assms(1,2)] this] show ?thesis
    by simp
qed

text \<open>It enters its job whatever has happened since.\<close>

lemma enter:
  assumes "\<not> pool_exited S" and "pool_threads S = xs @ (Request d, entering c w d k) # ys"
  shows "runs (race_step c E EK RQ) S (S\<lparr>pool_runner := snd (enqueue_new c w (pool_runner S) (job_of c d) k),
    pool_threads := xs @ (Request d, Return (Answered (fst (enqueue_new c w (pool_runner S) (job_of c d) k)))) # ys\<rparr>)"
  by (rule sections_race [OF entering_runs assms(1) refl assms(2)])

text \<open>A new job, once requested, can be brought to its stored proof.\<close>

lemma drive_after_request:
  fixes c :: "('p, 'pk, 'vk, 'cl, 'z) crates_scheme"
  assumes "reachable c E EK RQ S" and "\<not> exited S" and "receiver_open (sys_runner S)"
    and "None \<notin> set (job_channel (sys_runner S))" and "vec_ser c (sha256 c d) = Inr k"
    and "phase c k (sys_runner S) = Absent" and "fits (length d)"
    and "world_up c RQ w" and "world_ok c E EK RQ w" and "laws_up c ks fits"
    and "E ''SP1_PROVER'' = Some p" and "initial_status p = Ok (st :: 'p job_status)"
    and "get_verifiable_encryption c w (sys_runner S) (job_of c d) = (r, s)"
  shows "\<exists>U pf. runs (sys_step c E EK RQ) (S\<lparr>sys_runner := s\<rparr>) U \<and> \<not> exited U \<and>
    phase c k (sys_runner U) = Finished (ZkProofFinished pf)"
proof -
  note parts = reachable_parts [OF assms(1)]
  have nofault: "\<forall>op. fault w op = None" using assms(8) by (simp add: world_up_def)
  have env: "env_var w ''SP1_PROVER'' = Some p" using assms(11) world_okD(1) [OF assms(9)] by simp
  have laws: "bincode_ok c" "bincode_total c" using assms(10) by (auto simp: laws_up_def)
  obtain b where b: "status_ser c st = Inr b" "status_de c b = Inr st"
    using laws bincode_okD(2) [OF laws(1)] unfolding bincode_total_def by blast
  let ?j = "job_of c d" and ?S = "S\<lparr>sys_runner := s\<rparr>"
  have "enqueue_new c w (sys_runner S) ?j k = (r, s)"
    using request_by_phase [OF parts(3,4) nofault assms(5)] assms(6,13) by simp
  with enqueue_new_writes [OF nofault env assms(12) b(1), of "sys_runner S" ?j k]
  have writes: "queue_db s = (queue_db (sys_runner S))(k \<mapsto> b)" "finished_db s = finished_db (sys_runner S)"
      "job_channel s = pushed (sys_runner S) ?j" "receiver_open s = receiver_open (sys_runner S)" by simp_all
  have fin: "finished_db (sys_runner S) k = None"
    using parts(3,4) by (cases rule: phase_cases [where k = k]) (use assms(6) in auto)
  have q: "queued_as c (sys_runner ?S) ?j k st"
    using writes(1,2) b(2) fin assms(5) by (simp add: queued_as_def anchor_ser_def)
  have j: "?j \<in> set (sys_jobs ?S)" "None \<notin> set (job_channel (sys_runner ?S))" "receiver_open (sys_runner ?S)"
    using writes(3,4) assms(3,4) by (auto simp: sys_jobs_def pushed_def)
  have reach: "reachable c E EK RQ ?S"
    by (rule reach_step [OF assms(1) sys_step.request [OF assms(2,9,13)]])
  have live: "\<not> exited ?S" and fits: "job_fits fits ?j" using assms(2,7) by (simp_all add: job_fits_def)
  show ?thesis using drive_job [OF assms(8,10,9) reach live j(2,3,1) fits q] by blast
qed

section \<open>Properties\<close>



text \<open>
  C6: in every interleaving of requests, worker tasks, warm-up and shutdown, whatever the
  environment answers: the entries of the queue are pending states, the entries of the finished tree
  are results whose proofs are genuine, and a proof that answers a request names the hashes of the
  configured key and of the requested data and decrypts, under that key, to data with that hash.
\<close>

theorem interleaved_proofs_genuine:
  assumes "race_reachable c E EK RQ S" and "sha256_ok c" and "keystream_ok c ks fits"
  shows "table_inv c E EK RQ (pool_runner S) \<and>
    (\<forall>d pf. (Request d, Return (Answered (Ok (Some pf)))) \<in> set (pool_threads S) \<longrightarrow>
       (\<exists>key pt o'. encryption_key c E = (Ok key :: (pda_runner_error, bytes) res) \<and>
          from_bytes (public_values pf) = Ok o' \<and> privkey_hash o' = sha256 c key \<and>
          plaintext_hash o' = sha256 c d \<and> sha256 c pt = sha256 c d \<and>
          chacha c key (zk_nonce o') (ciphertext o') = (Ok pt :: (string, bytes) res)))"
proof -
  have bin: "bincode_ok c" and g: "good c E EK RQ (pool_runner S)" using race.shared_good [OF assms(1)] by auto
  have "\<exists>key pt o'. encryption_key c E = (Ok key :: (pda_runner_error, bytes) res) \<and>
          from_bytes (public_values pf) = Ok o' \<and> privkey_hash o' = sha256 c key \<and>
          plaintext_hash o' = sha256 c d \<and> sha256 c pt = sha256 c d \<and>
          chacha c key (zk_nonce o') (ciphertext o') = (Ok pt :: (string, bytes) res)"
    if ans: "(Request d, Return (Answered (Ok (Some pf)))) \<in> set (pool_threads S)" for d pf
  proof -
    obtain k where k: "vec_ser c (sha256 c d) = Inr k" and gen: "genuine c E EK k pf"
      using race.result_good [OF assms(1) ans] by (auto simp: answer_ok_def)
    from genuine_reads [OF gen k bin assms(2,3)] show ?thesis by blast
  qed
  with g show ?thesis by (auto simp: good_def)
qed

text \<open>
  C23: the checks of a request are not atomic with its insertion.  From any state of a running process
  in which a job is in neither tree, two requests for the same data can both be answered as pending
  and both send the job to the worker.
\<close>

theorem concurrent_requests_duplicate_job:
  assumes "\<not> pool_exited S" and "receiver_open (pool_runner S)" and "vec_ser c (sha256 c d) = Inr k"
    and "queue_db (pool_runner S) k = None" and "finished_db (pool_runner S) k = None"
    and "world_ok c E EK RQ w" and "\<forall>op. fault w op = None" and "E ''SP1_PROVER'' = Some p"
    and "initial_status p = Ok st" and "status_ser c st = Inr b"
  shows "\<exists>T. runs (race_step c E EK RQ) S T \<and>
    job_channel (pool_runner T) = job_channel (pool_runner S) @ [Some (job_of c d), Some (job_of c d)] \<and>
    pool_threads T = pool_threads S @ [(Request d, Return (Answered (Ok None))), (Request d, Return (Answered (Ok None)))]"
proof -
  let ?e = "(Request d, entering c w d k)" and ?f = "(Request d, Return (Answered (Ok None)))"
  have env: "env_var w ''SP1_PROVER'' = Some p" using assms(8) world_okD(1) [OF assms(6)] by simp
  note writes = enqueue_new_writes [OF assms(7) env assms(9,10), where j = "job_of c d" and k = k]
  let ?s1 = "snd (enqueue_new c w (pool_runner S) (job_of c d) k)"
  let ?s2 = "snd (enqueue_new c w ?s1 (job_of c d) k)"
  let ?A = "S\<lparr>pool_threads := pool_threads S @ [?e]\<rparr>"
  let ?B = "S\<lparr>pool_threads := pool_threads S @ [?e, ?e]\<rparr>"
  let ?C = "S\<lparr>pool_runner := ?s1, pool_threads := pool_threads S @ [?f, ?e]\<rparr>"
  let ?D = "S\<lparr>pool_runner := ?s2, pool_threads := pool_threads S @ [?f, ?f]\<rparr>"
  have "runs (race_step c E EK RQ) S ?A" by (rule arrive_and_read [OF assms(1,6,3,7,4,5)])
  also have "runs (race_step c E EK RQ) ?A ?B"
    using arrive_and_read [OF _ assms(6,3,7), of ?A] assms(1,4,5) by simp
  also have "runs (race_step c E EK RQ) ?B ?C"
    using enter [of ?B "pool_threads S" d c w k "[?e]"] assms(1,2) writes(5) by simp
  also have "runs (race_step c E EK RQ) ?C ?D"
    using enter [of ?C "pool_threads S @ [?f]" d c w k "[]"] assms(1,2) writes(4,5) by simp
  finally show ?thesis using writes(3,4) assms(2) by (intro exI [of _ ?D]) (simp add: pushed_def)
qed

text \<open>
  C24: a request that overlaps the life of its own job breaks the separation of the trees.  From any
  reachable state in which a job is in neither tree, and with a working environment, a request can
  read both trees, another request and the worker can bring the job to its stored proof, and the
  first request then enters the finished job into the queue again: the key is in both trees.
\<close>

theorem late_request_requeues_finished_job:
  fixes c :: "('p, 'pk, 'vk, 'cl, 'z) crates_scheme"
  assumes "reachable c E EK RQ S" and "\<not> exited S" and "receiver_open (sys_runner S)"
    and "None \<notin> set (job_channel (sys_runner S))" and "vec_ser c (sha256 c d) = Inr k"
    and "phase c k (sys_runner S) = Absent" and "fits (length d)"
    and "world_up c RQ w" and "world_ok c E EK RQ w" and "laws_up c ks fits"
    and "E ''SP1_PROVER'' = Some p" and "initial_status p = Ok (st :: 'p job_status)"
  shows "\<exists>T pf. race_reachable c E EK RQ T \<and> queue_db (pool_runner T) k \<noteq> None \<and>
    lookup_status c (finished_db (pool_runner T)) k = Some (ZkProofFinished pf)"
proof -
  note parts = reachable_parts [OF assms(1)]
  have free: "queue_db (sys_runner S) k = None" "finished_db (sys_runner S) k = None"
    using parts(3,4) by (cases rule: phase_cases [where k = k]; use assms(6) in auto)+
  have nofault: "\<forall>op. fault w op = None" using assms(8) by (simp add: world_up_def)
  have env: "env_var w ''SP1_PROVER'' = Some p" using assms(11) world_okD(1) [OF assms(9)] by simp
  obtain b where b: "status_ser c st = Inr b" using assms(10) unfolding laws_up_def bincode_total_def by blast
  obtain R where R: "race_reachable c E EK RQ R" "embeds R S" using embed_reachable [OF assms(1)] by blast
  let ?R = "R\<lparr>pool_threads := pool_threads R @ [(Request d, entering c w d k)]\<rparr>"
  have reads: "runs (race_step c E EK RQ) R ?R"
    using R(2) assms(2) free by (intro arrive_and_read [OF _ assms(9,5) nofault]) (auto simp: embeds_def)
  have "embeds ?R S" using R(2) by (simp add: embeds_def)
  obtain r s where req: "get_verifiable_encryption c w (sys_runner S) (job_of c d) = (r, s)" by fastforce
  obtain U pf where U: "runs (sys_step c E EK RQ) (S\<lparr>sys_runner := s\<rparr>) U" "\<not> exited U"
      "phase c k (sys_runner U) = Finished (ZkProofFinished pf)"
    using drive_after_request [OF assms req] by blast
  have "runs (sys_step c E EK RQ) S U"
    by (rule runs_first [where step = "sys_step c E EK RQ", OF sys_step.request [OF assms(2,9) req] U(1)])
  from embed_runs [OF this \<open>embeds ?R S\<close>] obtain R' new where R': "runs (race_step c E EK RQ) ?R R'" "embeds R' U"
      "pool_threads R' = pool_threads R @ (Request d, entering c w d k) # new" by auto
  let ?s = "snd (enqueue_new c w (pool_runner R') (job_of c d) k)"
  have "\<not> pool_exited R'" using R'(2) U(2) by (simp add: embeds_def)
  from enter [OF this R'(3), of E EK RQ] obtain T where T: "runs (race_step c E EK RQ) R' T" "pool_runner T = ?s"
    by auto
  have "race_reachable c E EK RQ T"
    using reach_runs [OF T(1) reach_runs [OF R'(1) reach_runs [OF reads R(1)]]] .
  moreover have "lookup_status c (finished_db (pool_runner R')) k = Some (ZkProofFinished pf)"
    using U(3) R'(2) by (auto simp: phase_def embeds_def split: option.splits)
  ultimately show ?thesis
    using enqueue_new_writes(1,2) [OF nofault env assms(12) b] T(2) by (intro exI [of _ T] exI [of _ pf]) simp
qed

section \<open>Witnesses\<close>

type_synonym demo_pool = "(bytes list, unit, unit, unit) pool"

abbreviation demo_race :: "demo_pool \<Rightarrow> bool" where
  "demo_race \<equiv> race_reachable demo_crates (demo_env ''cpu'') demo_EK demo_requested"


lemma demo_answered:
  "\<exists>S :: demo_pool. demo_race S \<and> (Request demo_data, Return (Answered (Ok (Some demo_proof)))) \<in> set (pool_threads S)"
proof -
  obtain R :: demo_pool where R: "demo_race R" "embeds R demo_done"
    using embed_reachable [OF demo_done_reachable] by blast
  have live: "\<not> pool_exited R" and s: "pool_runner R = sys_runner demo_done"
    using R(2) by (simp_all add: embeds_def demo_done_def)
  have "race_step demo_crates (demo_env ''cpu'') demo_EK demo_requested R
      (R\<lparr>pool_threads := pool_threads R @ [(Request demo_data, request_thread demo_crates (demo_world ''cpu'') demo_data)]\<rparr>)"
    by (rule race_step.arrive [OF live demo_world_ok])
  from run_new_thread [OF this [unfolded request_thread_def] live, unfolded run_request s,
      OF demo_request_done [unfolded demo_job_def]]
  have "runs (race_step demo_crates (demo_env ''cpu'') demo_EK demo_requested) R
      (R\<lparr>pool_runner := sys_runner demo_done,
         pool_threads := pool_threads R @ [(Request demo_data, Return (Answered (Ok (Some demo_proof))))]\<rparr>)" .
  from reach_runs [OF this R(1)] show ?thesis by (intro exI, intro conjI, assumption) simp
qed

theorem interleaved_proofs_genuine_witness:
  "\<exists>S :: demo_pool. demo_race S \<and>
     (Request demo_data, Return (Answered (Ok (Some demo_proof)))) \<in> set (pool_threads S) \<and>
     (\<exists>o'. from_bytes (public_values demo_proof) = Ok o' \<and> plaintext_hash o' = demo_sha256 demo_data)"
proof -
  obtain S :: demo_pool where S: "demo_race S"
      "(Request demo_data, Return (Answered (Ok (Some demo_proof)))) \<in> set (pool_threads S)"
    using demo_answered by blast
  from interleaved_proofs_genuine [OF S(1) demo_crypto_laws] S(2)
  obtain o' where "from_bytes (public_values demo_proof) = Ok o'" "plaintext_hash o' = sha256 demo_crates demo_data"
    by blast
  with S show ?thesis by auto
qed

lemma demo_initial: "initial_status ''cpu'' = Ok LocalZkProofPending"
  by (simp add: initial_status_def)

theorem concurrent_requests_duplicate_job_witness:
  "\<exists>T :: demo_pool. demo_race T \<and> job_channel (pool_runner T) = [Some demo_job, Some demo_job]"
proof -
  obtain R :: demo_pool where R: "demo_race R" "pool_runner R = sys_runner demo_start" "\<not> pool_exited R"
    using embed_reachable [OF demo_start_reachable] by (auto simp: embeds_def demo_start_def)
  have init: "receiver_open (pool_runner R)" "queue_db (pool_runner R) demo_k = None"
      "finished_db (pool_runner R) demo_k = None" "job_channel (pool_runner R) = []"
    by (simp_all add: R(2) demo_start_def new_runner_def)
  have nf: "\<forall>op. fault (demo_world ''cpu'') op = None" by simp
  have ser: "status_ser demo_crates LocalZkProofPending = Inr (enc_status LocalZkProofPending)" by simp
  from concurrent_requests_duplicate_job [OF R(3) init(1) demo_key_of(1) init(2,3) demo_world_ok nf demo_prover
      demo_initial ser] init(4)
  obtain T where T: "runs (race_step demo_crates (demo_env ''cpu'') demo_EK demo_requested) R T"
      "job_channel (pool_runner T) = [Some (job_of demo_crates demo_data), Some (job_of demo_crates demo_data)]"
    by auto
  with reach_runs [OF T(1) R(1)] show ?thesis by (auto simp: demo_job_def)
qed

theorem late_request_requeues_finished_job_witness:
  "\<exists>(T :: demo_pool) pf. demo_race T \<and> queue_db (pool_runner T) demo_k \<noteq> None \<and>
     lookup_status demo_crates (finished_db (pool_runner T)) demo_k = Some (ZkProofFinished pf)"
proof -
  have live: "\<not> exited demo_start" "receiver_open (sys_runner demo_start)"
      "None \<notin> set (job_channel (sys_runner demo_start))"
    by (simp_all add: demo_start_def new_runner_def)
  from late_request_requeues_finished_job [OF demo_start_reachable live demo_key_of(1) demo_phases(1) _ demo_world_up
      demo_world_ok demo_laws_up demo_prover demo_initial] show ?thesis by simp
qed

end
