(* ===== verification/Proxy_System.thy ===== *)
theory Proxy_System
  imports Proxy_Properties Runner_Race
begin

text \<open>
  The proxy inside the process.  The handler of an HTTP request calls the runner several times; here
  it is shown that all it does to the runner is a run of the runner's transition system, so that the
  properties of the theories \<open>Runner_Properties\<close> and \<open>Proxy_Properties\<close> hold across any sequence of
  requests and worker steps, and that the protocol of a submission ends: the client that calls back
  has its blobs forwarded.
\<close>

section \<open>A request is a run of the runner\<close>

abbreviation moved :: "('pk, 'vk, 'cl) sys \<Rightarrow> ('pk, 'vk, 'cl) pda_runner \<Rightarrow> ('pk, 'vk, 'cl) sys" where
  "moved S s \<equiv> S\<lparr>sys_runner := s\<rparr>"

lemma moved_same [simp]: "moved S (sys_runner S) = S"
  by simp

text \<open>A continuation that leaves the state alone.\<close>

lemma and_then_state: "(\<And>a s. snd (k a s) = s) \<Longrightarrow> snd (and_then m k) = snd m"
  by (cases m; cases "fst m") auto

lemma encrypt_blobs_runs:
  assumes "\<not> exited S" and "\<forall>i. world_ok c E EK RQ (ws i)"
  shows "runs (sys_step c E EK RQ) S (moved S (snd (encrypt_blobs c n ws (sys_runner S) bs acc)))"
  using assms
proof (induction bs arbitrary: ws S acc)
  case Nil
  then show ?case by (auto simp: moved_same)
next
  case (Cons b bs)
  obtain r s where req: "get_verifiable_encryption c (ws 0) (sys_runner S) (job_of c (blob_data b)) = (r, s)"
    by fastforce
  have step: "sys_step c E EK RQ S (moved S s)"
    using Cons.prems req by (blast intro: sys_step.request)
  have more: "runs (sys_step c E EK RQ) (moved S s)
      (moved S (snd (encrypt_blobs c n (\<lambda>i. ws (Suc i)) s bs acc')))" for acc'
    using Cons.IH [of "moved S s" "\<lambda>i. ws (Suc i)" acc'] Cons.prems by simp
  have "snd (encrypt_blobs c n ws (sys_runner S) (b # bs) acc) = s \<or>
      (\<exists>acc'. snd (encrypt_blobs c n ws (sys_runner S) (b # bs) acc) =
         snd (encrypt_blobs c n (\<lambda>i. ws (Suc i)) s bs acc'))"
    using req by (auto split: res.split option.split sum.split)
  then show ?case
    using step more runs_one [where step = "sys_step c E EK RQ", OF step]
      runs_first [where step = "sys_step c E EK RQ", OF step] by (elim disjE exE) metis+
qed

lemma extract_state: "snd (extract_verified_proof_output c w s pf) = snd (verifier_setup c w s)"
proof -
  obtain r1 s1 where cl: "get_zk_client_local w s = (r1, s1)" by fastforce
  obtain pid s2 where pid: "get_program_id c s1 = (pid, s2)" by fastforce
  show ?thesis
  proof (cases r1)
    case (Ok z)
    obtain r3 s3 where su: "get_proof_setup_local c w s2 pid z = (r3, s3)" by fastforce
    show ?thesis
      using cl pid Ok su
      by (cases r3) (auto simp: extract_verified_proof_output_def verifier_setup_def anyhow_def split: option.split)
  qed (use cl in \<open>auto simp: extract_verified_proof_output_def verifier_setup_def anyhow_def\<close>)
qed

lemma verify_decrypt_runs:
  assumes "\<not> exited S" and "world_ok c E EK RQ w"
  shows "runs (sys_step c E EK RQ) S (moved S (snd (verify_decrypt_blob c w (sys_runner S) bl key)))"
proof (cases "proof_de c (blob_data bl)")
  case (Inl e)
  then show ?thesis by (auto simp: verify_decrypt_blob_def)
next
  case (Inr pf)
  have "snd (verify_decrypt_blob c w (sys_runner S) bl key) = snd (verifier_setup c w (sys_runner S))"
    using Inr extract_state by (simp add: verify_decrypt_blob_def and_then_state)
  moreover have "sys_step c E EK RQ S (moved S (snd (verifier_setup c w (sys_runner S))))"
    by (rule sys_step.verify [OF assms]) (rule prod.collapse [symmetric])
  ultimately show ?thesis using runs_one [where step = "sys_step c E EK RQ"] by metis
qed

lemma decrypt_all_runs:
  assumes "\<not> exited S" and "world_ok c E EK RQ w"
  shows "runs (sys_step c E EK RQ) S (moved S (snd (decrypt_all c n w (sys_runner S) vs key acc)))"
  using assms
proof (induction vs arbitrary: S acc)
  case (Cons v vs)
  show ?case
  proof (cases "blob_from_value n v")
    case (Inr bl)
    obtain r s where call: "verify_decrypt_blob c w (sys_runner S) bl key = (r, s)" by fastforce
    have first: "runs (sys_step c E EK RQ) S (moved S s)"
      using verify_decrypt_runs [OF Cons.prems, of bl key] call by simp
    have more: "runs (sys_step c E EK RQ) (moved S s) (moved S (snd (decrypt_all c n w s vs key acc')))" for acc'
      using Cons.IH [of "moved S s" acc'] Cons.prems by simp
    have "snd (decrypt_all c n w (sys_runner S) (v # vs) key acc) = s \<or>
        (\<exists>acc'. snd (decrypt_all c n w (sys_runner S) (v # vs) key acc) = snd (decrypt_all c n w s vs key acc'))"
      using Inr call by (auto split: res.split sum.split)
    moreover have "runs (sys_step c E EK RQ) S (moved S (snd (decrypt_all c n w s vs key acc')))" for acc'
      using first more by (rule runs_then)
    ultimately show ?thesis using first by metis
  qed (auto simp: runs_refl)
qed auto

text \<open>The state a handler leaves is the state one of these calls leaves, or the old one.\<close>

lemma try_mutate_state:
  fixes n :: "('j, 'n, 'b) net"
  shows "snd (try_mutate_response c n w s j m) = s \<or>
   (\<exists>(bl :: ('n, 'b) blob) key. snd (try_mutate_response c n w s j m) = snd (verify_decrypt_blob c w s bl key)) \<or>
   (\<exists>vs key. snd (try_mutate_response c n w s j m) = snd (decrypt_all c n w s vs key []))"
proof -
  have 1: "snd (and_then x (\<lambda>plain s2. case blob_to_value n plain of Inl e \<Rightarrow> (Err e, s2)
      | Inr v \<Rightarrow> (Ok (json_set n j ''result'' v), s2))) = snd x" for x
    by (rule and_then_state) (auto split: sum.split)
  have 2: "snd (and_then x (\<lambda>bs s2. (Ok (json_set n j ''result'' (json_array n bs)), s2))) = snd x" for x
    by (rule and_then_state) simp
  show ?thesis
    unfolding try_mutate_response_def
    by (cases "json_get n j ''result''"; cases "encryption_key c (env_var w) :: (string, bytes) res")
      (auto simp: 1 2 split: sum.split option.split)
qed

lemma outbound_runs:
  assumes "\<not> exited S" and "world_ok c E EK RQ w"
  shows "runs (sys_step c E EK RQ) S (moved S (snd (outbound_handler c n w (sys_runner S) resp m)))"
proof -
  have mut: "runs (sys_step c E EK RQ) S (moved S (snd (try_mutate_response c n w (sys_runner S) j m)))" for j
    using try_mutate_state [of c n w "sys_runner S" j m] verify_decrypt_runs [OF assms] decrypt_all_runs [OF assms]
      runs_refl moved_same by metis
  have "snd (outbound_handler c n w (sys_runner S) resp m) = sys_runner S \<or>
      (\<exists>j. snd (outbound_handler c n w (sys_runner S) resp m) = snd (try_mutate_response c n w (sys_runner S) j m))"
    by (auto simp: outbound_handler_def split: sum.split res.split prod.split) (metis snd_conv)+
  with mut runs_refl moved_same show ?thesis by metis
qed

lemma inbound_runs:
  assumes "\<not> exited S" and "\<forall>i. world_ok c E EK RQ (ws i)"
    and "inbound_handler c n ws (sys_runner S) req = (r, m, s)"
  shows "runs (sys_step c E EK RQ) S (moved S s)"
proof -
  have snd: "snd (and_then x (\<lambda>y s'. case y of None \<Rightarrow> (Ok None, s') | Some ebs \<Rightarrow>
      (case blobs_to_value n ebs of Inl e \<Rightarrow> (Err e, s')
       | Inr v \<Rightarrow> (Ok (Some (json_set n j ''params'' (json_array n (v # rest)))), s')))) = snd x" for x j rest
    by (rule and_then_state) (auto split: option.split sum.split)
  have "snd (intercept_submit c n ws (sys_runner S) j) = sys_runner S \<or>
      (\<exists>bs. snd (intercept_submit c n ws (sys_runner S) j) = snd (encrypt_blobs c n ws (sys_runner S) bs []))" for j
    by (auto simp: intercept_submit_def snd split: option.split list.split sum.split)
  then have "runs (sys_step c E EK RQ) S (moved S (snd (intercept_submit c n ws (sys_runner S) j)))" for j
    using encrypt_blobs_runs [OF assms(1,2)] runs_refl moved_same by metis
  moreover have "s = sys_runner S \<or> (\<exists>j. s = snd (intercept_submit c n ws (sys_runner S) j))"
    using assms(3)
    by (auto simp: inbound_handler_def Let_def split: sum.splits if_splits prod.splits res.splits option.splits)
      (metis snd_conv)+
  ultimately show ?thesis using runs_refl moved_same by metis
qed

lemma service_runs:
  assumes "\<not> exited S" and "\<forall>i. world_ok c E EK RQ (ws i)" and "world_ok c E EK RQ w"
  shows "runs (sys_step c E EK RQ) S (moved S (out_state (service c n env ws w up sock (sys_runner S) req)))"
proof -
  let ?out = "out_state (service c n env ws w up sock (sys_runner S) req)"
  have "?out = sys_runner S \<or> (\<exists>uri r m s. inbound_handler c n ws (sys_runner S) (req\<lparr>req_uri := uri\<rparr>) = (r, m, s) \<and>
      (?out = s \<or> (\<exists>resp. ?out = snd (outbound_handler c n w s resp m))))"
    by (auto simp: service_def Let_def split: option.split prod.split res.split sum.split) (metis snd_conv)+
  then show ?thesis
  proof (elim disjE exE conjE)
    fix uri r m s
    assume "inbound_handler c n ws (sys_runner S) (req\<lparr>req_uri := uri\<rparr>) = (r, m, s)"
    from inbound_runs [OF assms(1,2) this] have first: "runs (sys_step c E EK RQ) S (moved S s)" .
    then show ?thesis if "?out = s" using that by simp
    fix resp
    have "runs (sys_step c E EK RQ) (moved S s) (moved S (snd (outbound_handler c n w s resp m)))"
      using outbound_runs [of "moved S s" c E EK RQ w n resp m] assms(1,3) by simp
    then show ?thesis if "?out = snd (outbound_handler c n w s resp m)"
      using that first runs_then [OF first] by simp
  qed (metis moved_same runs_refl)
qed

section \<open>The protocol of a submission\<close>

lemma service_forwards:
  assumes "uri_parse n (upstream_uri n env sock (req_uri req)) = Some uri" and "auth_ok n (req_headers req)"
    and "inbound_handler c n ws s (req\<lparr>req_uri := uri\<rparr>) = (Ok (Some r), m, s')"
  shows "forwarded (service c n env ws w up sock s req) = Some r"
  using assms by (auto simp: service_def split: sum.splits prod.splits res.splits)

text \<open>When every blob has its proof, the submission is forwarded.\<close>

lemma submission_forwarded:
  assumes "\<forall>b \<in> set bs. \<exists>eb. carries_proof c n s b eb" and "\<forall>i op. fault (ws i) op = None" and "net_total n"
    and "uri_parse n (upstream_uri n env sock (req_uri req)) = Some uri" and "auth_ok n (req_headers req)"
    and "rpc_body n req = Some j" and "rpc_method n j = Some ''blob.Submit''" and "submitted n j bs rest"
  shows "\<exists>r. forwarded (service c n env ws w up sock s req) = Some r"
proof -
  obtain ws' acc where "encrypt_blobs c n ws s (bs @ []) [] = encrypt_blobs c n ws' s [] acc"
    using encrypt_blobs_skip [OF assms(1,2)] by blast
  moreover obtain v where "blobs_to_value n acc = Inr v" using assms(3) unfolding net_total_def by blast
  ultimately obtain j' where j': "intercept_submit c n ws s j = (Ok (Some j'), s)"
    using assms(8) by (auto simp: intercept_submit_def submitted_def)
  obtain jb where "json_to_vec n j' = Inr jb" using assms(3) unfolding net_total_def by blast
  with j' assms(6,7) have "\<exists>r m s'. inbound_handler c n ws s (req\<lparr>req_uri := uri\<rparr>) = (Ok (Some r), m, s')"
    by (auto simp: inbound_handler_def rpc_body_def rpc_method_def split: sum.splits)
  with service_forwards [OF assms(4,5)] show ?thesis by blast
qed

lemma finished_carries:
  assumes "phase c k s = Finished (ZkProofFinished pf)" and "vec_ser c (sha256 c (blob_data b)) = Inr k"
    and "bincode_total c" and "\<forall>ns d. \<exists>bl. blob_new n ns d = Inr bl"
  shows "\<exists>eb. carries_proof c n s b eb"
proof -
  obtain d where d: "proof_ser c pf = Inr d" using assms(3) unfolding bincode_total_def by blast
  obtain eb where eb: "blob_new n (blob_namespace b) d = Inr eb" using assms(4) by blast
  obtain x where x: "finished_db s k = Some x" "status_de c x = Inr (ZkProofFinished pf)"
    using assms(1) by (auto simp: phase_def lookup_status_def split: option.splits sum.splits)
  show ?thesis unfolding carries_proof_def using x d eb assms(2) by blast
qed

section \<open>Properties\<close>

text \<open>
  All that the handling of one HTTP request does to the runner, from the authorization check to the
  decryption of the node's answer and on every error path, is a run of the runner's transition
  system.  So the states between any requests, worker steps and signals are reachable states, and
  what is proved of those holds throughout the life of the service.
\<close>

lemma service_keeps_reachable:
  assumes "reachable c E EK RQ S" and "\<not> exited S"
    and "\<forall>i. world_ok c E EK RQ (ws i)" and "world_ok c E EK RQ w"
  shows "reachable c E EK RQ (S\<lparr>sys_runner := out_state (service c n env ws w up sock (sys_runner S) req)\<rparr>)"
  using reach_runs [OF service_runs [OF assms(2-4)] assms(1)] .

text \<open>
  C4: the protocol of a submission ends.  A client that submits a blob the service has not seen gets
  202 and nothing is forwarded; from the state the request leaves, whatever else is scheduled, the
  worker can bring the job to its proof when the environment works, and then the same request is
  forwarded to the node.
\<close>

theorem submission_completes:
  fixes c :: "('p, 'pk, 'vk, 'cl, 'z) crates_scheme"
  assumes "reachable c E EK RQ S" and "\<not> exited S" and "receiver_open (sys_runner S)"
    and "None \<notin> set (job_channel (sys_runner S))"
    and "world_up c RQ w" and "world_ok c E EK RQ w" and "laws_up c ks fits"
    and "E ''SP1_PROVER'' = Some p" and "initial_status p = Ok (st :: 'p job_status)"
    and "net_total n" and "\<forall>ns d. \<exists>bl. blob_new n ns d = Inr bl"
    and "uri_parse n (upstream_uri n env sock (req_uri req)) = Some uri" and "auth_ok n (req_headers req)"
    and "rpc_body n req = Some j" and "rpc_method n j = Some ''blob.Submit''" and "submitted n j [b] rest"
    and "vec_ser c (sha256 c (blob_data b)) = Inr k" and "phase c k (sys_runner S) = Absent"
    and "fits (length (blob_data b))"
  shows "let out = service c n env (\<lambda>_. w) w up sock (sys_runner S) req in
    out_response out = Ok pending_response \<and> forwarded out = None \<and>
    (\<exists>T r. runs (sys_step c E EK RQ) (S\<lparr>sys_runner := out_state out\<rparr>) T \<and>
       forwarded (service c n env (\<lambda>_. w) w up sock (sys_runner T) req) = Some r)"
proof -
  have nf: "\<forall>i op. fault ((\<lambda>_. w) i) op = None" and nofault: "\<forall>op. fault w op = None"
    using assms(5) by (simp_all add: world_up_def)
  have total: "bincode_total c" using assms(7) by (auto simp: laws_up_def)
  have sub: "submitted n j ([] @ b # []) rest" using assms(16) by simp
  obtain s where out: "service c n env (\<lambda>_. w) w up sock (sys_runner S) req =
        \<lparr>out_response = Ok pending_response, forwarded = None, out_state = s\<rparr>"
      and req: "get_verifiable_encryption c w (sys_runner S) (job_of c (blob_data b)) = (Ok None, s)"
    using pending_service [OF assms(1,3) _ nf total assms(8,9,12-15) sub _ assms(17) disjI1 [OF assms(18)]] assms(6)
    by fastforce
  obtain T pf where T: "runs (sys_step c E EK RQ) (S\<lparr>sys_runner := s\<rparr>) T"
      "phase c k (sys_runner T) = Finished (ZkProofFinished pf)"
    using drive_after_request [OF assms(1-4,17-19,5-9) req] by blast
  have "\<forall>x \<in> set [b]. \<exists>eb. carries_proof c n (sys_runner T) x eb"
    using finished_carries [OF T(2) assms(17) total assms(11)] by simp
  from submission_forwarded [OF this nf assms(10,12-16)] T(1) show ?thesis by (auto simp: out Let_def)
qed

section \<open>Witnesses\<close>

theorem submission_completes_witness:
  "\<exists>T r. runs (sys_step demo_crates (demo_env ''cpu'') demo_EK demo_requested)
       (demo_start\<lparr>sys_runner := out_state (demo_service (\<lambda>_. Inl ''down'') demo_start
          (demo_req ''Bearer t'' ''blob.Submit''))\<rparr>) T \<and>
     forwarded (demo_service (\<lambda>_. Inl ''down'') T (demo_req ''Bearer t'' ''blob.Submit'')) = Some r"
proof -
  have live: "\<not> exited demo_start" "receiver_open (sys_runner demo_start)"
      "None \<notin> set (job_channel (sys_runner demo_start))"
    by (simp_all add: demo_start_def new_runner_def)
  have new: "\<forall>ns d. \<exists>bl. blob_new demo_net ns d = Inr bl" by simp
  have k: "vec_ser demo_crates (sha256 demo_crates (blob_data demo_blob0)) = Inr demo_k"
    by (simp add: demo_blob0_def demo_k_def)
  from submission_completes [OF demo_start_reachable live demo_world_up demo_world_ok demo_laws_up demo_prover
      demo_initial demo_net_ok(3) new demo_net_simps(14) demo_bearer demo_request k demo_phases(1)]
  show ?thesis by (auto simp: Let_def)
qed

end
