(* ===== verification/Startup.thy ===== *)
theory Startup
  imports Runner_Properties
begin

text \<open>
  Start-up of the service (\<open>main\<close> in \<open>service/src/main.rs\<close>, and the file helpers of
  \<open>service/src/internal/util.rs\<close>): the checks of the environment, the database and the TLS files, the
  fresh runner, and the loop that is meant to resume the jobs of an earlier process.

  The operating system and the crates for TLS, PEM files and sockets are the parameter \<open>host\<close>.  What
  follows start-up, the accept loop and its connections, is in the theory \<open>Server\<close>.

  The properties: a process that started has a valid encryption key, and the resume loop panics on
  every entry the runner ever put into the queue.
\<close>

section \<open>Parameters\<close>

record ('cert, 'pkey) host =
  parse_socket :: "string \<Rightarrow> string option"
  parse_secs :: "string \<Rightarrow> nat option"
  sled_open :: "string \<Rightarrow> string option" \<comment> \<open>the error, if any\<close>
  open_tree :: "string \<Rightarrow> string + tree"
  file_open :: "string \<Rightarrow> string + bytes"
  pem_certs :: "bytes \<Rightarrow> string + 'cert list"
  pem_key :: "bytes \<Rightarrow> string + 'pkey option"
  tcp_bind :: "string \<Rightarrow> string option"
  single_cert :: "'cert list \<Rightarrow> 'pkey \<Rightarrow> string option"
  native_roots :: "string option"

section \<open>Helpers\<close>

text \<open>\<open>?\<close> on a call of a crate, and on one that only reports an error.\<close>

definition try_ext :: "string + 'a \<Rightarrow> (string, 'a) res" where
  "try_ext x = of_ext (\<lambda>e. e) x"

definition try_unit :: "string option \<Rightarrow> (string, unit) res" where
  "try_unit x = (case x of None \<Rightarrow> Ok () | Some e \<Rightarrow> Err e)"

definition map_io_error :: "string \<Rightarrow> string" where
  "map_io_error err = err"

definition load_certs :: "('cert, 'pkey) host \<Rightarrow> string \<Rightarrow> (string, 'cert list) res" where
  "load_certs h filename =
     res_bind (map_err (\<lambda>e. map_io_error (''failed to open '' @ filename @ '': '' @ e))
                 (try_ext (file_open h filename)))
       (\<lambda>cert_file. try_ext (pem_certs h cert_file))"

definition load_private_key :: "('cert, 'pkey) host \<Rightarrow> string \<Rightarrow> (string, 'pkey) res" where
  "load_private_key h filename =
     res_bind (map_err (\<lambda>e. map_io_error (''failed to open '' @ filename @ '': '' @ e))
                 (try_ext (file_open h filename)))
       (\<lambda>keyfile. res_bind (try_ext (pem_key h keyfile))
          (\<lambda>key. expect ''called `Option::unwrap()` on a `None` value'' key))"

section \<open>Start-up\<close>

record ('pk, 'vk, 'cl) started =
  da_node_socket :: string
  service_socket :: string
  http_upstream_allowed :: bool
  fresh_runner :: "('pk, 'vk, 'cl) pda_runner"

definition startup ::
  "('p, 'pk, 'vk, 'cl, 'z) crates_scheme \<Rightarrow> env_vars \<Rightarrow> ('cert, 'pkey) host \<Rightarrow>
     (string, ('pk, 'vk, 'cl) started) res" where
  "startup c env h =
     res_bind (encryption_key c env) (\<lambda>_.
     res_bind (expect ''CELESTIA_NODE_SOCKET env var required'' (env ''CELESTIA_NODE_SOCKET'')) (\<lambda>t1.
     res_bind (expect ''CELESTIA_NODE_SOCKET cannot parse'' (parse_socket h t1)) (\<lambda>node.
     res_bind (expect ''PDA_SOCKET env var required'' (env ''PDA_SOCKET'')) (\<lambda>t2.
     res_bind (expect ''PDA_SOCKET cannot parse'' (parse_socket h t2)) (\<lambda>sock.
     res_bind (expect ''PDA_DB_PATH env var required'' (env ''PDA_DB_PATH'')) (\<lambda>db_path.
     res_bind (try_unit (sled_open h db_path)) (\<lambda>_.
     res_bind (try_ext (open_tree h ''config'')) (\<lambda>cdb.
     res_bind (try_ext (open_tree h ''queue'')) (\<lambda>qdb.
     res_bind (try_ext (open_tree h ''finished'')) (\<lambda>fdb.
     res_bind (expect ''TLS_CERTS_PATH env var required'' (env ''TLS_CERTS_PATH'')) (\<lambda>certs_path.
     res_bind (load_certs h certs_path) (\<lambda>tls_certs.
     res_bind (expect ''TLS_KEY_PATH env var required'' (env ''TLS_KEY_PATH'')) (\<lambda>key_path.
     res_bind (load_private_key h key_path) (\<lambda>tls_key.
     res_bind (try_unit (tcp_bind h sock)) (\<lambda>_.
     res_bind (try_unit (single_cert h tls_certs tls_key)) (\<lambda>_.
     res_bind (try_unit (native_roots h)) (\<lambda>_.
     res_bind (expect ''PROOF_GEN_TIMEOUT_SECONDS_REMOTE env var required''
                 (env ''PROOF_GEN_TIMEOUT_SECONDS_REMOTE'')) (\<lambda>t3.
     res_bind (expect ''PROOF_GEN_TIMEOUT_SECONDS_REMOTE must be integer'' (parse_secs h t3)) (\<lambda>timeout.
       Ok \<lparr>da_node_socket = node, service_socket = sock,
           http_upstream_allowed = (env ''UNSAFE_HTTP_UPSTREAM'' \<noteq> None),
           fresh_runner = new_runner timeout cdb qdb fdb\<rparr>)))))))))))))))))))"

section \<open>Resuming unfinished jobs\<close>

text \<open>\<open>queue_db.iter().flatten()\<close>: entries that cannot be read are skipped.\<close>

fun flatten_results :: "(string + 'a) list \<Rightarrow> 'a list" where
  "flatten_results [] = []"
| "flatten_results (Inl e # xs) = flatten_results xs"
| "flatten_results (Inr x # xs) = x # flatten_results xs"

fun restart_jobs ::
  "('p, 'pk, 'vk, 'cl, 'z) crates_scheme \<Rightarrow> ('p, 'pk, 'vk, 'cl) world \<Rightarrow>
     (bytes \<times> bytes) list \<Rightarrow> ('pk, 'vk, 'cl) pda_runner \<Rightarrow> (string, unit) res \<times> ('pk, 'vk, 'cl) pda_runner"
  where
  "restart_jobs c w [] s = (Ok (), s)"
| "restart_jobs c w ((job_key, queue_data) # entries) s =
     (case job_de c job_key of
        Inl e \<Rightarrow> (Panic (''called `Result::unwrap()` on an `Err` value: '' @ e), s)
      | Inr job \<Rightarrow>
          restart_jobs c w entries
            (case status_de c queue_data of
               Inr LocalZkProofPending \<Rightarrow> snd (chan_send w s (Some job))
             | Inr (RemoteZkProofPending _) \<Rightarrow> snd (chan_send w s (Some job))
             | _ \<Rightarrow> s))"

text \<open>Start-up as a whole; \<open>iter\<close> is what iterating the queue yields.\<close>

definition boot ::
  "('p, 'pk, 'vk, 'cl, 'z) crates_scheme \<Rightarrow> ('p, 'pk, 'vk, 'cl) world \<Rightarrow> ('cert, 'pkey) host \<Rightarrow>
     (tree \<Rightarrow> (string + bytes \<times> bytes) list) \<Rightarrow> (string, ('pk, 'vk, 'cl) started) res" where
  "boot c w h iter =
     res_bind (startup c (env_var w) h) (\<lambda>st.
       case restart_jobs c w (flatten_results (iter (queue_db (fresh_runner st)))) (fresh_runner st) of
         (Ok _, s) \<Rightarrow> Ok (st\<lparr>fresh_runner := s\<rparr>)
       | (Err e, s) \<Rightarrow> Err e
       | (Panic p, s) \<Rightarrow> Panic p)"

text \<open>The jobs of the entries the loop sends on.\<close>

definition resumable ::
  "('p, 'pk, 'vk, 'cl, 'z) crates_scheme \<Rightarrow> bytes \<times> bytes \<Rightarrow> job option" where
  "resumable c entry =
     (case status_de c (snd entry) of
        Inr LocalZkProofPending \<Rightarrow> (case job_de c (fst entry) of Inr j \<Rightarrow> Some j | Inl _ \<Rightarrow> None)
      | Inr (RemoteZkProofPending _) \<Rightarrow> (case job_de c (fst entry) of Inr j \<Rightarrow> Some j | Inl _ \<Rightarrow> None)
      | _ \<Rightarrow> None)"

section \<open>A concrete host\<close>

definition demo_host :: "tree \<Rightarrow> (unit, unit) host" where
  "demo_host q =
     \<lparr>parse_socket = Some, parse_secs = (\<lambda>_. Some 60), sled_open = (\<lambda>_. None),
      open_tree = (\<lambda>name. Inr (if name = ''queue'' then q else Map.empty)),
      file_open = (\<lambda>_. Inr []), pem_certs = (\<lambda>_. Inr [()]), pem_key = (\<lambda>_. Inr (Some ())),
      tcp_bind = (\<lambda>_. None), single_cert = (\<lambda>_ _. None), native_roots = None\<rparr>"

definition demo_start_env :: env_vars where
  "demo_start_env k =
     (if k = ''CELESTIA_NODE_SOCKET'' \<or> k = ''PDA_SOCKET'' \<or> k = ''PDA_DB_PATH'' \<or> k = ''TLS_CERTS_PATH'' \<or>
         k = ''TLS_KEY_PATH'' \<or> k = ''PROOF_GEN_TIMEOUT_SECONDS_REMOTE'' then Some ''x''
      else demo_env ''cpu'' k)"

section \<open>Lemmas\<close>

text \<open>The key of a queue entry is an anchor alone, so no job can be read from it.\<close>

lemma job_de_key:
  assumes "bincode_ok c" and "vec_ser c v = Inr k"
  shows "\<exists>e. job_de c k = Inl e"
  using vec_de_all [OF assms] vec_de_empty [OF assms(1)] by (auto simp: job_de_def)

lemma in_flatten_results: "x \<in> set (flatten_results xs) \<longleftrightarrow> Inr x \<in> set xs"
  by (induction xs rule: flatten_results.induct) auto

lemma startup_Ok_D:
  assumes "startup c env h = Ok st"
  shows "\<exists>key. encryption_key c env = (Ok key :: (string, bytes) res)"
    and "\<exists>t cdb qdb fdb. open_tree h ''config'' = Inr cdb \<and> open_tree h ''queue'' = Inr qdb \<and>
      open_tree h ''finished'' = Inr fdb \<and> fresh_runner st = new_runner t cdb qdb fdb"
    and "\<exists>t. env ''CELESTIA_NODE_SOCKET'' = Some t \<and> parse_socket h t = Some (da_node_socket st)"
  using assms unfolding startup_def
  by (auto simp: res_bind_Ok_iff expect_iff try_ext_def of_ext_iff)

lemma boot_Ok_D:
  assumes "boot c w h iter = Ok st"
  shows "\<exists>st0 s. startup c (env_var w) h = Ok st0 \<and> st = st0\<lparr>fresh_runner := s\<rparr> \<and>
    restart_jobs c w (flatten_results (iter (queue_db (fresh_runner st0)))) (fresh_runner st0) = (Ok (), s)"
proof -
  from assms obtain st0 where "startup c (env_var w) h = Ok st0"
    and run: "(case restart_jobs c w (flatten_results (iter (queue_db (fresh_runner st0)))) (fresh_runner st0) of
      (Ok _, s) \<Rightarrow> Ok (st0\<lparr>fresh_runner := s\<rparr>) | (Err e, s) \<Rightarrow> Err e | (Panic p, s) \<Rightarrow> Panic p) = Ok st"
    by (auto simp: boot_def res_bind_Ok_iff)
  then show ?thesis
    by (cases "restart_jobs c w (flatten_results (iter (queue_db (fresh_runner st0)))) (fresh_runner st0)";
        cases "fst (restart_jobs c w (flatten_results (iter (queue_db (fresh_runner st0)))) (fresh_runner st0))") auto
qed

text \<open>An entry of the queue of a process ends the loop.\<close>

lemma restart_stored_panics:
  assumes "reachable c E EK RQ S" and "queue_db (sys_runner S) k = Some b"
  shows "\<exists>p. restart_jobs c w ((k, b) # es) s = (Panic p, s)"
proof -
  obtain d where "vec_ser c (sha256 c d) = Inr k"
    using reachable_parts(5) [OF assms(1)] assms(2) by (auto simp: keys_ok_def)
  from job_de_key [OF reachable_parts(1) [OF assms(1)] this] show ?thesis by auto
qed

section \<open>Properties\<close>

text \<open>
  A process that gets through start-up has a readable 32-byte encryption key, the addresses of
  the node and of its own socket, and a runner that starts on the trees of the database with an
  empty channel.
\<close>

lemma startup_establishes:
  assumes "startup c env h = Ok st" and "hex_ok c"
  shows "(\<exists>key. encryption_key c env = (Ok key :: (string, bytes) res) \<and> length key = KEY_LEN) \<and>
    (\<exists>t. env ''CELESTIA_NODE_SOCKET'' = Some t \<and> parse_socket h t = Some (da_node_socket st)) \<and>
    open_tree h ''queue'' = Inr (queue_db (fresh_runner st)) \<and>
    open_tree h ''finished'' = Inr (finished_db (fresh_runner st)) \<and>
    open_tree h ''config'' = Inr (config_db (fresh_runner st)) \<and>
    job_channel (fresh_runner st) = [] \<and> receiver_open (fresh_runner st)"
  using startup_Ok_D [OF assms(1)] encryption_key_len [OF assms(2)] by (fastforce simp: new_runner_def)

text \<open>
  C25: the resume loop decodes the key of a queue entry as a job, but the runner stores entries under
  the serialised anchor, which is too short for it.  On the trees of any earlier process, start-up
  panics as soon as the queue has an entry, and completes only with an empty queue.
\<close>

theorem boot_panics_on_queued_jobs:
  assumes "reachable c E EK RQ S" and "startup c (env_var w) h = Ok st"
    and "open_tree h ''queue'' = Inr (queue_db (sys_runner S))"
    and "\<forall>k b. Inr (k, b) \<in> set (iter (queue_db (sys_runner S))) \<longleftrightarrow> queue_db (sys_runner S) k = Some b"
  shows "is_panic (boot c w h iter) \<longleftrightarrow> queue_db (sys_runner S) \<noteq> Map.empty"
proof -
  let ?q = "queue_db (sys_runner S)"
  let ?es = "flatten_results (iter ?q)"
  have q: "queue_db (fresh_runner st) = ?q"
    using startup_Ok_D(2) [OF assms(2)] assms(3) by (auto simp: new_runner_def)
  have es: "(k, b) \<in> set ?es \<longleftrightarrow> ?q k = Some b" for k b using assms(4) by (simp add: in_flatten_results)
  show ?thesis
  proof (cases ?es)
    case Nil
    then have "?q = Map.empty" using es by fastforce
    with Nil assms(2) q show ?thesis by (simp add: boot_def)
  next
    case (Cons e rest)
    obtain k b where e: "e = (k, b)" by fastforce
    then have "?q k = Some b" using Cons es by (metis list.set_intros(1))
    from restart_stored_panics [OF assms(1) this] obtain p where
      "restart_jobs c w ?es (fresh_runner st) = (Panic p, fresh_runner st)" unfolding Cons e by blast
    with assms(2) q have "is_panic (boot c w h iter)" by (simp add: boot_def)
    with \<open>?q k = Some b\<close> show ?thesis by auto
  qed
qed


section \<open>Witnesses\<close>

lemma demo_startup:
  "startup demo_crates demo_start_env (demo_host q) =
     Ok \<lparr>da_node_socket = ''x'', service_socket = ''x'', http_upstream_allowed = False,
         fresh_runner = new_runner 60 Map.empty q Map.empty\<rparr>"
proof -
  have "encryption_key demo_crates (demo_env ''cpu'') = (Ok (replicate KEY_LEN 7) :: (string, bytes) res)"
    by (rule demo_key)
  then have "encryption_key demo_crates demo_start_env = (Ok (replicate KEY_LEN 7) :: (string, bytes) res)"
    by (simp add: encryption_key_def demo_start_env_def)
  then show ?thesis
    by (simp add: startup_def demo_start_env_def demo_host_def load_certs_def load_private_key_def try_ext_def
        try_unit_def demo_env_def)
qed

theorem boot_panics_on_queued_jobs_witness:
  "is_panic (boot demo_crates ((demo_world ''cpu'')\<lparr>env_var := demo_start_env\<rparr>)
     (demo_host (queue_db (sys_runner demo_queued)))
     (\<lambda>q. [Inr (demo_k, enc_status LocalZkProofPending)]))"
proof -
  let ?w = "(demo_world ''cpu'')\<lparr>env_var := demo_start_env\<rparr>"
  let ?q = "queue_db (sys_runner demo_queued)"
  have q: "?q = [demo_k \<mapsto> enc_status LocalZkProofPending]" by (simp add: demo_queued_def new_runner_def)
  have up: "startup demo_crates (env_var ?w) (demo_host ?q) =
      Ok \<lparr>da_node_socket = ''x'', service_socket = ''x'', http_upstream_allowed = False,
         fresh_runner = new_runner 60 Map.empty ?q Map.empty\<rparr>"
    using demo_startup [of ?q] by simp
  have "open_tree (demo_host ?q) ''queue'' = Inr ?q" by (simp add: demo_host_def)
  moreover have "\<forall>k b. Inr (k, b) \<in> set [Inr (demo_k, enc_status LocalZkProofPending)] \<longleftrightarrow> ?q k = Some b"
    unfolding q by auto
  ultimately have "is_panic (boot demo_crates ?w (demo_host ?q) (\<lambda>q. [Inr (demo_k, enc_status LocalZkProofPending)])) \<longleftrightarrow>
      ?q \<noteq> Map.empty"
    by (rule boot_panics_on_queued_jobs [OF demo_queued_reachable up])
  then show ?thesis unfolding q by simp
qed


end
