(* ===== verification/Server.thy ===== *)
theory Server
  imports Proxy_System Startup
begin

text \<open>
  The running service: \<open>main\<close> of \<open>service/src/main.rs\<close> after start-up, with the accept loop, one task
  per connection, the task that waits for a signal, and the runner underneath.  A connection serves
  its requests one after the other (HTTP/1); the handling of a request is cut where it waits for the
  node, so the requests of several connections, the worker and the signals interleave at that point.

  The TLS handshake, the reading and writing of messages (\<open>rustls\<close>, \<open>hyper\<close>) and the signals of the
  operating system are events with a result.  A connection that is dropped while its handler runs
  leaves the calls of the runner it has made; these are steps of the runner like any other.

  The requests handed to the client of the node and the answers given are kept as a history, which the
  properties speak about: in the whole life of a process nothing but proofs is sent in place of
  submitted blobs, and no connection task panics.
\<close>

section \<open>Signals\<close>

datatype signal = CtrlC | SIGTERM | SIGINT | SIGHUP

definition signal_text :: "signal \<Rightarrow> string" where
  "signal_text sig =
     (case sig of CtrlC \<Rightarrow> ''Received Ctrl+C.'' | SIGTERM \<Rightarrow> ''Received SIGTERM.''
      | SIGINT \<Rightarrow> ''Received SIGINT.'' | SIGHUP \<Rightarrow> ''Received SIGHUP.'')"

text \<open>
  \<open>listen\<close> is the error of registering a listener, if any, \<open>first\<close> the branch of \<open>select!\<close> that is ready
  first (for \<open>ctrl_c\<close> a failed registration makes it ready, too).  The result is the logged line.
\<close>

definition wait_shutdown_signals :: "(signal \<Rightarrow> string option) \<Rightarrow> signal \<Rightarrow> (string, string) res" where
  "wait_shutdown_signals listen first =
     (let listener = (\<lambda>msg sig. case listen sig of None \<Rightarrow> Ok () | Some e \<Rightarrow> Panic (msg @ '': '' @ e))
      in res_bind (listener ''Failed to set up SIGTERM listener'' SIGTERM) (\<lambda>_.
         res_bind (listener ''Failed to set up SIGINT listener'' SIGINT) (\<lambda>_.
         res_bind (listener ''Failed to set up SIGHUP listener'' SIGHUP) (\<lambda>_.
           Ok (signal_text first)))))"

text \<open>The variant for other systems has the one branch.\<close>

definition wait_shutdown_signals_other :: "(string, string) res" where
  "wait_shutdown_signals_other = Ok (signal_text CtrlC)"

text \<open>The task of \<open>main\<close> that calls \<open>shutdown\<close>; when it panics, nothing happens.\<close>

definition shutdown_task ::
  "('p, 'pk, 'vk, 'cl) world \<Rightarrow> (string, string) res \<Rightarrow> ('pk, 'vk, 'cl) pda_runner \<Rightarrow>
     ('pk, 'vk, 'cl) pda_runner" where
  "shutdown_task w wait s = (case wait of Ok _ \<Rightarrow> shutdown w s | _ \<Rightarrow> s)"

section \<open>The two halves of a request\<close>

datatype 'm received =
  Reply "(string, bytes http_response) res"
| Forward "('m, bytes) http_request" string \<comment> \<open>to the node, with the method of the call\<close>

text \<open>The closure given to \<open>service_fn\<close>, up to the call of the node.\<close>

definition service_inbound ::
  "('p, 'pk, 'vk, 'cl, 'z) crates_scheme \<Rightarrow> ('j, 'n, 'b) net \<Rightarrow> env_vars \<Rightarrow>
     (nat \<Rightarrow> ('p, 'pk, 'vk, 'cl) world) \<Rightarrow> string \<Rightarrow> ('pk, 'vk, 'cl) pda_runner \<Rightarrow>
     ('m, string + bytes) http_request \<Rightarrow> 'm received \<times> ('pk, 'vk, 'cl) pda_runner" where
  "service_inbound c n env ws sock s req0 =
     (case uri_parse n (upstream_uri n env sock (req_uri req0)) of
        None \<Rightarrow> (Reply (Panic ''uri_string.parse().unwrap()''), s)
      | Some uri \<Rightarrow>
          (let plaintext_req = req0\<lparr>req_uri := uri\<rparr>
           in if \<not> auth_ok n (req_headers plaintext_req) then (Reply (Ok bad_auth_response), s)
              else
                (case inbound_handler c n ws s plaintext_req of
                   (Panic p, _, s') \<Rightarrow> (Reply (Panic p), s')
                 | (Err e, _, s') \<Rightarrow> (Reply (internal_error_response n e), s')
                 | (Ok None, _, s') \<Rightarrow> (Reply (Ok pending_response), s')
                 | (Ok (Some wrapped_req), request_method, s') \<Rightarrow> (Forward wrapped_req request_method, s'))))"

text \<open>The rest of the closure, given what the call of the node returned.\<close>

definition service_outbound ::
  "('p, 'pk, 'vk, 'cl, 'z) crates_scheme \<Rightarrow> ('j, 'n, 'b) net \<Rightarrow> ('p, 'pk, 'vk, 'cl) world \<Rightarrow>
     ('pk, 'vk, 'cl) pda_runner \<Rightarrow> string \<Rightarrow> string + (string + bytes) http_response \<Rightarrow>
     (string, bytes http_response) res \<times> ('pk, 'vk, 'cl) pda_runner" where
  "service_outbound c n w s request_method answer =
     (case answer of
        Inl e \<Rightarrow> (internal_error_response n (''DA Client: '' @ e), s)
      | Inr resp \<Rightarrow>
          (case outbound_handler c n w s resp request_method of
             (Ok returned, s') \<Rightarrow> (Ok returned, s')
           | (Err e, s') \<Rightarrow> (internal_error_response n (''Outbound Handler: '' @ e), s')
           | (Panic p, s') \<Rightarrow> (Panic p, s')))"

section \<open>State\<close>

datatype 'm conn =
  Handshaking
| Open \<comment> \<open>between two requests\<close>
| Awaiting "('m, string + bytes) http_request" string \<comment> \<open>the request being handled, and its method\<close>
| Closed
| Crashed \<comment> \<open>the task panicked\<close>

record ('m, 'pk, 'vk, 'cl) server =
  srv_sys :: "('pk, 'vk, 'cl) sys"
  conns :: "'m conn list"
  main_error :: "string option" \<comment> \<open>set when \<open>main\<close> has returned\<close>
  sent :: "(('m, string + bytes) http_request \<times> ('m, bytes) http_request) list"
  answered :: "(('m, string + bytes) http_request \<times> bytes http_response) list"

abbreviation srv_runner :: "('m, 'pk, 'vk, 'cl) server \<Rightarrow> ('pk, 'vk, 'cl) pda_runner" where
  "srv_runner V \<equiv> sys_runner (srv_sys V)"

definition set_runner :: "('pk, 'vk, 'cl) pda_runner \<Rightarrow> ('m, 'pk, 'vk, 'cl) server \<Rightarrow> ('m, 'pk, 'vk, 'cl) server" where
  "set_runner s V = V\<lparr>srv_sys := (srv_sys V)\<lparr>sys_runner := s\<rparr>\<rparr>"

definition set_conn :: "nat \<Rightarrow> 'm conn \<Rightarrow> ('m, 'pk, 'vk, 'cl) server \<Rightarrow> ('m, 'pk, 'vk, 'cl) server" where
  "set_conn i cn V = V\<lparr>conns := (conns V)[i := cn]\<rparr>"

section \<open>Operations\<close>

text \<open>
  One turn of the accept loop.  The operator \<open>?\<close> on \<open>accept\<close> makes \<open>main\<close> return the error, and with
  it the process and all its tasks end.
\<close>

definition accept_turn :: "string + unit \<Rightarrow> ('m, 'pk, 'vk, 'cl) server \<Rightarrow> ('m, 'pk, 'vk, 'cl) server" where
  "accept_turn r V =
     (case r of
        Inl e \<Rightarrow> V\<lparr>main_error := Some e\<rparr>
      | Inr _ \<Rightarrow> V\<lparr>conns := conns V @ [Handshaking]\<rparr>)"

definition handshake :: "nat \<Rightarrow> string + unit \<Rightarrow> ('m, 'pk, 'vk, 'cl) server \<Rightarrow> ('m, 'pk, 'vk, 'cl) server" where
  "handshake i r V = set_conn i (case r of Inl _ \<Rightarrow> Closed | Inr _ \<Rightarrow> Open) V"

text \<open>What the service returns goes to the client; an error would end the connection.\<close>

definition respond ::
  "nat \<Rightarrow> ('m, string + bytes) http_request \<Rightarrow> (string, bytes http_response) res \<Rightarrow>
     ('m, 'pk, 'vk, 'cl) server \<Rightarrow> ('m, 'pk, 'vk, 'cl) server" where
  "respond i req r V =
     (case r of
        Ok resp \<Rightarrow> (set_conn i Open V)\<lparr>answered := answered V @ [(req, resp)]\<rparr>
      | Err e \<Rightarrow> set_conn i Closed V
      | Panic p \<Rightarrow> set_conn i Crashed V)"

definition take_request ::
  "('p, 'pk, 'vk, 'cl, 'z) crates_scheme \<Rightarrow> ('j, 'n, 'b) net \<Rightarrow> env_vars \<Rightarrow>
     (nat \<Rightarrow> ('p, 'pk, 'vk, 'cl) world) \<Rightarrow> string \<Rightarrow> nat \<Rightarrow> ('m, string + bytes) http_request \<Rightarrow>
     ('m, 'pk, 'vk, 'cl) server \<Rightarrow> ('m, 'pk, 'vk, 'cl) server" where
  "take_request c n env ws sock i req V =
     (case service_inbound c n env ws sock (srv_runner V) req of
        (Reply r, s) \<Rightarrow> respond i req r (set_runner s V)
      | (Forward q m, s) \<Rightarrow>
          (set_conn i (Awaiting req m) (set_runner s V))\<lparr>sent := sent V @ [(req, q)]\<rparr>)"

definition take_answer ::
  "('p, 'pk, 'vk, 'cl, 'z) crates_scheme \<Rightarrow> ('j, 'n, 'b) net \<Rightarrow> ('p, 'pk, 'vk, 'cl) world \<Rightarrow> nat \<Rightarrow>
     ('m, string + bytes) http_request \<Rightarrow> string \<Rightarrow> string + (string + bytes) http_response \<Rightarrow>
     ('m, 'pk, 'vk, 'cl) server \<Rightarrow> ('m, 'pk, 'vk, 'cl) server" where
  "take_answer c n w i req m a V =
     (case service_outbound c n w (srv_runner V) m a of (r, s) \<Rightarrow> respond i req r (set_runner s V))"

section \<open>Steps\<close>

definition alive :: "('m, 'pk, 'vk, 'cl) server \<Rightarrow> bool" where
  "alive V \<longleftrightarrow> main_error V = None \<and> \<not> exited (srv_sys V)"

text \<open>\<open>W\<close> holds of the environments (faults, provers, random numbers) the process may meet.\<close>

inductive server_step ::
  "('p, 'pk, 'vk, 'cl, 'z) crates_scheme \<Rightarrow> ('j, 'n, 'b) net \<Rightarrow> env_vars \<Rightarrow> ('pk \<Rightarrow> 'vk \<Rightarrow> bool) \<Rightarrow>
     (bytes \<Rightarrow> bytes list \<Rightarrow> bool) \<Rightarrow> (('p, 'pk, 'vk, 'cl) world \<Rightarrow> bool) \<Rightarrow> string \<Rightarrow>
     ('m, 'pk, 'vk, 'cl) server \<Rightarrow> ('m, 'pk, 'vk, 'cl) server \<Rightarrow> bool"
  for c n E EK RQ W sock where
  accept: "alive V \<Longrightarrow> server_step c n E EK RQ W sock V (accept_turn r V)"
| tls: "alive V \<Longrightarrow> i < length (conns V) \<Longrightarrow> conns V ! i = Handshaking \<Longrightarrow>
    server_step c n E EK RQ W sock V (handshake i r V)"
| inbound: "alive V \<Longrightarrow> i < length (conns V) \<Longrightarrow> conns V ! i = Open \<Longrightarrow> (\<And>k. W (ws k)) \<Longrightarrow>
    server_step c n E EK RQ W sock V (take_request c n E ws sock i req V)"
| outbound: "alive V \<Longrightarrow> i < length (conns V) \<Longrightarrow> conns V ! i = Awaiting req m \<Longrightarrow> W w \<Longrightarrow>
    server_step c n E EK RQ W sock V (take_answer c n w i req m a V)"
| hang_up: "alive V \<Longrightarrow> i < length (conns V) \<Longrightarrow> conns V ! i \<noteq> Crashed \<Longrightarrow>
    server_step c n E EK RQ W sock V (set_conn i Closed V)"
| signals: "alive V \<Longrightarrow> W w \<Longrightarrow>
    wait \<in> {wait_shutdown_signals listen first, wait_shutdown_signals_other} \<Longrightarrow>
    server_step c n E EK RQ W sock V (set_runner (shutdown_task w wait (srv_runner V)) V)"
| background: "alive V \<Longrightarrow> sys_step c E EK RQ (srv_sys V) S \<Longrightarrow>
    server_step c n E EK RQ W sock V (V\<lparr>srv_sys := S\<rparr>)"

text \<open>The state \<open>main\<close> enters the accept loop with.\<close>

definition server_init ::
  "('p, 'pk, 'vk, 'cl, 'z) crates_scheme \<Rightarrow> env_vars \<Rightarrow> ('cert, 'pkey) host \<Rightarrow>
     (tree \<Rightarrow> (string + bytes \<times> bytes) list) \<Rightarrow> string \<Rightarrow> ('m, 'pk, 'vk, 'cl) server \<Rightarrow> bool" where
  "server_init c E h iter sock V \<longleftrightarrow>
     (\<exists>w st. env_var w = E \<and> boot c w h iter = Ok st \<and> sock = da_node_socket st \<and>
        V = \<lparr>srv_sys = \<lparr>sys_runner = fresh_runner st, running = [], exited = False\<rparr>,
             conns = [], main_error = None, sent = [], answered = []\<rparr>)"

text \<open>The database holds the trees an earlier process left, at whatever point it stopped.\<close>

definition left_by :: "('pk, 'vk, 'cl) sys \<Rightarrow> ('cert, 'pkey) host \<Rightarrow> bool" where
  "left_by S h \<longleftrightarrow>
     open_tree h ''config'' = Inr (config_db (sys_runner S)) \<and>
     open_tree h ''queue'' = Inr (queue_db (sys_runner S)) \<and>
     open_tree h ''finished'' = Inr (finished_db (sys_runner S))"

section \<open>Lemmas\<close>

lemma server_simps [simp]:
  "srv_sys (set_conn i cn V) = srv_sys V" "sent (set_conn i cn V) = sent V"
  "srv_sys (set_runner s V) = (srv_sys V)\<lparr>sys_runner := s\<rparr>" "sent (set_runner s V) = sent V"
  "conns (set_runner s V) = conns V" "conns (set_conn i cn V) = (conns V)[i := cn]"
  by (simp_all add: set_conn_def set_runner_def)

lemma respond_simps [simp]:
  "srv_sys (respond i req r V) = srv_sys V" "sent (respond i req r V) = sent V"
  by (cases r; simp add: respond_def)+

text \<open>Run one after the other, the halves are the service.\<close>

lemma service_halves:
  "service c n env ws w up sock s req =
     (case service_inbound c n env ws sock s req of
        (Reply r, s') \<Rightarrow> \<lparr>out_response = r, forwarded = None, out_state = s'\<rparr>
      | (Forward q m, s') \<Rightarrow>
          (case service_outbound c n w s' m (up q) of
             (r, s'') \<Rightarrow> \<lparr>out_response = r, forwarded = Some q, out_state = s''\<rparr>))"
  by (auto simp: service_def service_inbound_def service_outbound_def Let_def
      split: option.split prod.split res.split sum.split)

lemma forward_forwarded:
  "service_inbound c n env ws sock s req = (Forward q m, s') \<Longrightarrow>
     forwarded (service c n env ws w up sock s req) = Some q"
  by (simp add: service_halves split: prod.split)

lemma service_inbound_runs:
  assumes "\<not> exited S" and "\<And>k. world_ok c E EK RQ (ws k)"
    and "service_inbound c n env ws sock (sys_runner S) req = (x, s)"
  shows "runs (sys_step c E EK RQ) S (moved S s)"
proof -
  have "s = sys_runner S \<or> (\<exists>uri r m. inbound_handler c n ws (sys_runner S) (req\<lparr>req_uri := uri\<rparr>) = (r, m, s))"
    using assms(3) by (auto simp: service_inbound_def Let_def split: option.splits if_splits prod.splits res.splits)
  with inbound_runs [OF assms(1)] assms(2) show ?thesis by (metis moved_same runs_refl)
qed

lemma service_outbound_runs:
  assumes "\<not> exited S" and "world_ok c E EK RQ w"
    and "service_outbound c n w (sys_runner S) m a = (x, s)"
  shows "runs (sys_step c E EK RQ) S (moved S s)"
proof -
  have "s = sys_runner S \<or> (\<exists>resp. s = snd (outbound_handler c n w (sys_runner S) resp m))"
    using assms(3) by (auto simp: service_outbound_def split: sum.splits prod.splits res.splits) (metis snd_conv)+
  with outbound_runs [OF assms(1,2)] show ?thesis by (metis moved_same runs_refl)
qed

lemma shutdown_task_runs:
  assumes "\<not> exited S" and "world_ok c E EK RQ w"
  shows "runs (sys_step c E EK RQ) S (moved S (shutdown_task w wait (sys_runner S)))"
  using sys_step.signal [OF assms] by (cases wait) (auto simp: shutdown_task_def moved_same intro: runs_one)

text \<open>Whatever the service does is a run of the runner.\<close>

lemma server_step_runs:
  assumes "server_step c n E EK RQ W sock V V'" and "\<And>w. W w \<Longrightarrow> world_ok c E EK RQ w"
  shows "runs (sys_step c E EK RQ) (srv_sys V) (srv_sys V')"
  using assms
proof (cases rule: server_step.cases)
  case (accept r)
  then show ?thesis by (auto simp: accept_turn_def split: sum.split)
next
  case (tls i r)
  then show ?thesis by (auto simp: handshake_def)
next
  case (inbound i ws req)
  obtain x s where call: "service_inbound c n E ws sock (srv_runner V) req = (x, s)" by fastforce
  then have "srv_sys V' = moved (srv_sys V) s"
    using inbound(1) by (cases x) (simp_all add: take_request_def)
  with service_inbound_runs [OF _ _ call, of E EK RQ] inbound(2,5) assms(2) show ?thesis by (simp add: alive_def)
next
  case (outbound i req m w a)
  obtain x s where call: "service_outbound c n w (srv_runner V) m a = (x, s)" by fastforce
  then have "srv_sys V' = moved (srv_sys V) s" using outbound(1) by (simp add: take_answer_def)
  with service_outbound_runs [OF _ _ call, of E EK RQ] outbound(2,5) assms(2) show ?thesis by (simp add: alive_def)
next
  case (hang_up i)
  then show ?thesis by auto
next
  case (signals w wait listen first)
  then show ?thesis using shutdown_task_runs [of "srv_sys V" c E EK RQ w wait] assms(2) by (simp add: alive_def)
next
  case (background S)
  then show ?thesis by auto
qed

text \<open>
  A process that reaches the accept loop is a started runner: on trees of an earlier process the resume
  loop has found nothing.
\<close>

lemma boot_start:
  assumes "reachable c E EK RQ S0" and "left_by S0 h" and "\<forall>q k b. Inr (k, b) \<in> set (iter q) \<longrightarrow> q k = Some b"
    and "server_init c E h iter sock V"
  shows "start c E EK RQ (srv_sys V)"
proof -
  from assms(4) obtain w st where "boot c w h iter = Ok st"
    and V: "srv_sys V = \<lparr>sys_runner = fresh_runner st, running = [], exited = False\<rparr>" and E: "env_var w = E"
    by (auto simp: server_init_def)
  with boot_Ok_D obtain st0 s where up: "startup c E h = Ok st0" and st: "fresh_runner st = s"
    and run: "restart_jobs c w (flatten_results (iter (queue_db (fresh_runner st0)))) (fresh_runner st0) = (Ok (), s)"
    by fastforce
  let ?s = "sys_runner S0"
  obtain t where fresh: "fresh_runner st0 = new_runner t (config_db ?s) (queue_db ?s) (finished_db ?s)"
    using startup_Ok_D(2) [OF up] assms(2) by (auto simp: left_by_def)
  have "flatten_results (iter (queue_db ?s)) = []"
  proof (cases "flatten_results (iter (queue_db ?s))")
    case (Cons e es)
    obtain k b where e: "e = (k, b)" by fastforce
    then have "Inr (k, b) \<in> set (iter (queue_db ?s))" using in_flatten_results Cons by (metis list.set_intros(1))
    then have "queue_db ?s k = Some b" using assms(3) by blast
    from restart_stored_panics [OF assms(1) this, of w es "fresh_runner st0"] run Cons e fresh
    show ?thesis by (auto simp: new_runner_def)
  qed simp
  with run st fresh V have "srv_sys V = \<lparr>sys_runner = new_runner t (config_db ?s) (queue_db ?s) (finished_db ?s),
      running = [], exited = False\<rparr>" by (simp add: new_runner_def)
  then show ?thesis by (simp add: restarted_start [OF assms(1)])
qed

section \<open>Reachable states of the service\<close>

text \<open>
  The assumptions on the outside: the environments met are admissible, the database was left by an
  earlier process under the same key (or is empty), and iterating a tree yields entries of it.
\<close>

definition server_start ::
  "('p, 'pk, 'vk, 'cl, 'z) crates_scheme \<Rightarrow> env_vars \<Rightarrow> ('pk \<Rightarrow> 'vk \<Rightarrow> bool) \<Rightarrow>
     (bytes \<Rightarrow> bytes list \<Rightarrow> bool) \<Rightarrow> (('p, 'pk, 'vk, 'cl) world \<Rightarrow> bool) \<Rightarrow> ('cert, 'pkey) host \<Rightarrow>
     (tree \<Rightarrow> (string + bytes \<times> bytes) list) \<Rightarrow> string \<Rightarrow> ('m, 'pk, 'vk, 'cl) server \<Rightarrow> bool" where
  "server_start c E EK RQ W h iter sock V \<longleftrightarrow>
     (\<forall>w. W w \<longrightarrow> world_ok c E EK RQ w) \<and> (\<exists>S. reachable c E EK RQ S \<and> left_by S h) \<and>
     (\<forall>q k b. Inr (k, b) \<in> set (iter q) \<longrightarrow> q k = Some b) \<and> server_init c E h iter sock V"

abbreviation server_reachable ::
  "('p, 'pk, 'vk, 'cl, 'z) crates_scheme \<Rightarrow> ('j, 'n, 'b) net \<Rightarrow> env_vars \<Rightarrow> ('pk \<Rightarrow> 'vk \<Rightarrow> bool) \<Rightarrow>
     (bytes \<Rightarrow> bytes list \<Rightarrow> bool) \<Rightarrow> (('p, 'pk, 'vk, 'cl) world \<Rightarrow> bool) \<Rightarrow> ('cert, 'pkey) host \<Rightarrow>
     (tree \<Rightarrow> (string + bytes \<times> bytes) list) \<Rightarrow> string \<Rightarrow> ('m, 'pk, 'vk, 'cl) server \<Rightarrow> bool" where
  "server_reachable c n E EK RQ W h iter sock \<equiv>
     reach (server_start c E EK RQ W h iter sock) (server_step c n E EK RQ W sock)"

text \<open>Admissible environments, a readable key, a reachable runner.\<close>

definition server_inv ::
  "('p, 'pk, 'vk, 'cl, 'z) crates_scheme \<Rightarrow> env_vars \<Rightarrow> ('pk \<Rightarrow> 'vk \<Rightarrow> bool) \<Rightarrow>
     (bytes \<Rightarrow> bytes list \<Rightarrow> bool) \<Rightarrow> (('p, 'pk, 'vk, 'cl) world \<Rightarrow> bool) \<Rightarrow>
     ('m, 'pk, 'vk, 'cl) server \<Rightarrow> bool" where
  "server_inv c E EK RQ W V \<longleftrightarrow>
     (\<forall>w. W w \<longrightarrow> world_ok c E EK RQ w) \<and> (\<exists>key. encryption_key c E = (Ok key :: (string, bytes) res)) \<and>
     reachable c E EK RQ (srv_sys V)"

text \<open>A request and what was sent to the node for it.\<close>

definition sent_ok ::
  "('p, 'pk, 'vk, 'cl, 'z) crates_scheme \<Rightarrow> ('j, 'n, 'b) net \<Rightarrow> env_vars \<Rightarrow> ('pk \<Rightarrow> 'vk \<Rightarrow> bool) \<Rightarrow>
     ('m, string + bytes) http_request \<Rightarrow> ('m, bytes) http_request \<Rightarrow> bool" where
  "sent_ok c n E EK req q \<longleftrightarrow>
     auth_ok n (req_headers req) \<and>
     (\<forall>j bs rest. rpc_body n req = Some j \<longrightarrow> rpc_method n j = Some ''blob.Submit'' \<longrightarrow> submitted n j bs rest \<longrightarrow>
        (\<exists>j' ebs. json_from_slice n (req_body q) = Inr j' \<and> submitted n j' ebs rest \<and>
           list_all2 (encrypts c E EK) bs ebs))"

text \<open>What the code expects of its surroundings in order never to panic.\<close>

definition surroundings_ok ::
  "('p, 'pk, 'vk, 'cl, 'z) crates_scheme \<Rightarrow> ('j, 'n, 'b) net \<Rightarrow> env_vars \<Rightarrow> ('pk \<Rightarrow> 'vk \<Rightarrow> bool) \<Rightarrow>
     (('p, 'pk, 'vk, 'cl) world \<Rightarrow> bool) \<Rightarrow> string \<Rightarrow> bool" where
  "surroundings_ok c n E EK W sock \<longleftrightarrow>
     E ''SP1_PROVER'' \<noteq> None \<and> (\<forall>w. W w \<longrightarrow> client_from_env w \<noteq> None) \<and>
     (\<forall>u. uri_parse n (upstream_uri n E sock u) \<noteq> None) \<and> net_total n \<and> bincode_total c \<and>
     verify_ok c EK \<and> sha256_ok c \<and> (\<exists>ks fits. keystream_ok c ks fits)"

lemma server_start_inv: "server_start c E EK RQ W h iter sock V \<Longrightarrow> server_inv c E EK RQ W V"
proof -
  assume start: "server_start c E EK RQ W h iter sock V"
  then obtain S where S: "reachable c E EK RQ S" "left_by S h" unfolding server_start_def by blast
  from start have iter: "\<forall>q k b. Inr (k, b) \<in> set (iter q) \<longrightarrow> q k = Some b" and init: "server_init c E h iter sock V"
    unfolding server_start_def by blast+
  from init obtain w st where b: "boot c w h iter = Ok st" "env_var w = E" unfolding server_init_def by blast
  have "start c E EK RQ (srv_sys V)" using boot_start [OF S iter init] .
  moreover have "\<exists>key. encryption_key c E = (Ok key :: (string, bytes) res)"
    using boot_Ok_D [OF b(1)] startup_Ok_D(1) b(2) by blast
  ultimately show ?thesis
    using start unfolding server_inv_def server_start_def by (intro conjI) (blast, blast, rule reach_init)
qed

lemma server_step_inv:
  assumes "server_inv c E EK RQ W V" and "server_step c n E EK RQ W sock V V'"
  shows "server_inv c E EK RQ W V'"
  using assms(1) reach_runs [OF server_step_runs [OF assms(2)]] by (simp add: server_inv_def)

lemma forward_sent_ok:
  assumes "reachable c E EK RQ S" and "net_ok n" and "blob_ok n"
    and "service_inbound c n E ws sock (sys_runner S) req = (Forward q m, s)"
  shows "sent_ok c n E EK req q"
proof -
  note fwd = forward_forwarded [OF assms(4), where w = undefined and up = "\<lambda>_. Inl []"]
  show ?thesis
    unfolding sent_ok_def
    using service_forwarded [OF fwd] forwarded_submission [OF assms(1-3) _ _ _ fwd] by blast
qed

lemma server_step_sent:
  assumes "server_inv c E EK RQ W V" and "net_ok n" and "blob_ok n"
    and "\<forall>(req, q) \<in> set (sent V). sent_ok c n E EK req q" and "server_step c n E EK RQ W sock V V'"
  shows "\<forall>(req, q) \<in> set (sent V'). sent_ok c n E EK req q"
  using assms(5)
proof (cases rule: server_step.cases)
  case (accept r)
  then show ?thesis using assms(4) by (cases r) (simp_all add: accept_turn_def)
next
  case (inbound i ws req)
  obtain x s where call: "service_inbound c n E ws sock (srv_runner V) req = (x, s)" by fastforce
  show ?thesis
  proof (cases x)
    case (Forward q m)
    have "sent_ok c n E EK req q"
      using forward_sent_ok [OF _ assms(2,3)] call Forward assms(1) by (auto simp: server_inv_def)
    then show ?thesis using assms(4) inbound(1) call Forward by (auto simp: take_request_def)
  qed (use assms(4) inbound(1) call in \<open>simp add: take_request_def\<close>)
next
  case (outbound i req m w a)
  then show ?thesis using assms(4) by (auto simp: take_answer_def split: prod.split)
qed (use assms(4) in \<open>simp_all add: handshake_def\<close>)

section \<open>Connections never crash\<close>

lemma respond_conns:
  assumes "\<not> is_panic r" and "Crashed \<notin> set (conns V)"
  shows "Crashed \<notin> set (conns (respond i req r V))"
  using assms set_update_subset_insert [of "conns V" i]
  by (cases r) (auto simp: respond_def dest!: set_mp [OF set_update_subset_insert])

lemma service_inbound_answers:
  assumes "surroundings_ok c n E EK W sock" and "server_inv c E EK RQ W V" and "\<forall>k. W (ws k)"
    and "service_inbound c n E ws sock (srv_runner V) req = (Reply r, s)"
  shows "\<not> is_panic r"
proof -
  have env: "\<forall>i. env_var (ws i) ''SP1_PROVER'' \<noteq> None"
    using assms(1-3) world_okD(1) unfolding surroundings_ok_def server_inv_def by metis
  have si: "setup_inv c EK (srv_runner V)" using reachable_parts(2) assms(2) by (auto simp: server_inv_def)
  have inb: "inbound_handler c n ws (srv_runner V) rq = (x, m, s') \<Longrightarrow> \<not> is_panic x" for rq x m s'
    using inbound_calm [OF _ env si, of n rq x m s'] assms(1) by (simp add: surroundings_ok_def)
  have err: "\<not> is_panic (internal_error_response n e)" for e
    using internal_error_answers [of n e] assms(1) by (auto simp: surroundings_ok_def)
  obtain uri where "uri_parse n (upstream_uri n E sock (req_uri req)) = Some uri"
    using assms(1) unfolding surroundings_ok_def by blast
  with assms(4) err show ?thesis
    by (auto simp: service_inbound_def dest!: inb split: if_splits prod.splits res.splits option.splits)
qed

lemma service_outbound_answers:
  assumes "surroundings_ok c n E EK W sock" and "server_inv c E EK RQ W V" and "W w"
    and "service_outbound c n w (srv_runner V) m a = (r, s)"
  shows "\<not> is_panic r"
proof -
  have err: "\<not> is_panic (internal_error_response n e)" for e
    using internal_error_answers [of n e] assms(1) by (auto simp: surroundings_ok_def)
  obtain key where key: "encryption_key c E = (Ok key :: (string, bytes) res)"
    using assms(2) by (auto simp: server_inv_def)
  note parts = reachable_parts [of c E EK RQ "srv_sys V"]
  have out: "outbound_handler c n w (srv_runner V) resp m = (x, s') \<Longrightarrow> \<not> is_panic x" for resp x s'
    using outbound_calm [where n = n and resp = resp and m = m, OF _ parts(2) _ parts(1) _ _ _ key] assms(1-3)
    unfolding surroundings_ok_def server_inv_def by (metis calm_ret)
  show ?thesis
    using assms(4) err by (auto simp: service_outbound_def dest!: out split: sum.splits prod.splits res.splits)
qed

lemma not_crashed_upd: "cn \<noteq> Crashed \<Longrightarrow> Crashed \<notin> set xs \<Longrightarrow> Crashed \<notin> set (xs[i := cn])"
  using set_update_subset_insert [of xs i cn] by auto

lemma server_step_conns:
  assumes "server_inv c E EK RQ W V" and "surroundings_ok c n E EK W sock"
    and "Crashed \<notin> set (conns V)" and "server_step c n E EK RQ W sock V V'"
  shows "Crashed \<notin> set (conns V')"
  using assms(4)
proof (cases rule: server_step.cases)
  case (accept r)
  then show ?thesis using assms(3) by (cases r) (simp_all add: accept_turn_def)
next
  case (inbound i ws req)
  obtain x s where call: "service_inbound c n E ws sock (srv_runner V) req = (x, s)" by fastforce
  show ?thesis
  proof (cases x)
    case (Reply r)
    with call inbound(5) have "\<not> is_panic r" using service_inbound_answers [OF assms(2,1)] by blast
    with call Reply inbound(1) assms(3) show ?thesis by (simp add: take_request_def respond_conns)
  next
    case (Forward q m)
    with call inbound(1) assms(3) show ?thesis by (simp add: take_request_def not_crashed_upd)
  qed
next
  case (outbound i req m w a)
  obtain r s where call: "service_outbound c n w (srv_runner V) m a = (r, s)" by fastforce
  then have "\<not> is_panic r" by (rule service_outbound_answers [OF assms(2,1) outbound(5)])
  with call outbound(1) assms(3) show ?thesis by (simp add: take_answer_def respond_conns)
next
  case (tls i r)
  then show ?thesis using assms(3) by (cases r) (simp_all add: handshake_def not_crashed_upd)
qed (use assms(3) in \<open>simp_all add: not_crashed_upd\<close>)

section \<open>The service as an invariant system\<close>

lemma server_start_empty: "server_start c E EK RQ W h iter sock V \<Longrightarrow> sent V = [] \<and> conns V = []"
  by (auto simp: server_start_def server_init_def)

interpretation srv_sends: layered_invariant "server_start c E EK RQ W h iter sock" "server_step c n E EK RQ W sock"
  "server_inv c E EK RQ W"
  "\<lambda>V. net_ok n \<longrightarrow> blob_ok n \<longrightarrow> (\<forall>(req, q) \<in> set (sent V). sent_ok c n E EK req q)"
  for c n E EK RQ W h iter sock
proof (unfold_locales, goal_cases)
  case (4 V V')
  then show ?case using server_step_sent by blast
qed (auto simp: server_start_empty intro: server_start_inv server_step_inv)

interpretation srv_conns: layered_invariant "server_start c E EK RQ W h iter sock" "server_step c n E EK RQ W sock"
  "server_inv c E EK RQ W" "\<lambda>V. surroundings_ok c n E EK W sock \<longrightarrow> Crashed \<notin> set (conns V)"
  for c n E EK RQ W h iter sock
proof (unfold_locales, goal_cases)
  case (2 V V')
  then show ?case using server_step_conns by blast
qed (auto simp: server_start_empty intro: server_start_inv server_step_inv)

section \<open>Properties\<close>

text \<open>
  C2: no plaintext leaves the process.  In the whole life of the service, over any number of
  connections whose requests interleave with each other, with the worker, with signals and with every
  fault of the environment, each request sent to the node stems from an authorized request of a
  client; and where the client called \<open>blob.Submit\<close>, the blobs sent are of the same namespaces in the
  same order and hold serialised genuine proofs of the encryption of the client's data under the
  configured key.
\<close>

theorem server_sends_only_proofs:
  assumes "server_reachable c n E EK RQ W h iter sock V" and "net_ok n" and "blob_ok n"
    and "(req, q) \<in> set (sent V)"
  shows "auth_ok n (req_headers req) \<and>
    (\<forall>j bs rest. rpc_body n req = Some j \<longrightarrow> rpc_method n j = Some ''blob.Submit'' \<longrightarrow> submitted n j bs rest \<longrightarrow>
       (\<exists>j' ebs. json_from_slice n (req_body q) = Inr j' \<and> submitted n j' ebs rest \<and>
          list_all2 (encrypts c E EK) bs ebs))"
  using srv_sends.reach_inv' [OF assms(1)] assms(2-4) unfolding sent_ok_def by blast



section \<open>Witnesses\<close>

abbreviation demo_start_world :: "(bytes list, unit, unit, unit) world" where
  "demo_start_world \<equiv> (demo_world ''cpu'')\<lparr>env_var := demo_start_env\<rparr>"

definition demo_left_host :: "(unit, unit) host" where
  "demo_left_host = (demo_host Map.empty)\<lparr>open_tree := (\<lambda>name.
     if name = ''config'' then Inr (config_db (sys_runner demo_done))
     else if name = ''queue'' then Inr (queue_db (sys_runner demo_done))
     else Inr (finished_db (sys_runner demo_done)))\<rparr>"

definition demo_server :: "unit conn list \<Rightarrow> (unit, unit, unit, unit) server" where
  "demo_server cs =
     \<lparr>srv_sys = \<lparr>sys_runner = new_runner 60 (config_db (sys_runner demo_done)) Map.empty (finished_db (sys_runner demo_done)),
        running = [], exited = False\<rparr>, conns = cs, main_error = None, sent = [], answered = []\<rparr>"

abbreviation demo_server_step :: "(unit, unit, unit, unit) server \<Rightarrow> (unit, unit, unit, unit) server \<Rightarrow> bool" where
  "demo_server_step \<equiv> server_step demo_crates demo_net demo_start_env demo_EK demo_requested (\<lambda>w. w = demo_start_world) ''x''"

abbreviation demo_server_reachable :: "(unit, unit, unit, unit) server \<Rightarrow> bool" where
  "demo_server_reachable \<equiv> server_reachable demo_crates demo_net demo_start_env demo_EK demo_requested
     (\<lambda>w. w = demo_start_world) demo_left_host (\<lambda>_. []) ''x''"

lemma demo_start_world_ok: "world_ok demo_crates demo_start_env demo_EK demo_requested demo_start_world"
  using demo_world_ok [of "''cpu''"] by (simp add: world_ok_def)

lemma demo_start_key: "encryption_key demo_crates demo_start_env = encryption_key demo_crates (demo_env ''cpu'')"
  by (simp add: encryption_key_def demo_start_env_def)

text \<open>The invariants depend on the environment by the key alone.\<close>

lemma demo_left_reachable: "reachable demo_crates demo_start_env demo_EK demo_requested (srv_sys (demo_server cs))"
proof -
  have q: "queue_db (sys_runner demo_done) = Map.empty" by (simp add: demo_done_def demo_warm_def new_runner_def)
  have "start demo_crates (demo_env ''cpu'') demo_EK demo_requested (srv_sys (demo_server cs))"
    using restarted_start [OF demo_done_reachable, of 60] by (simp add: demo_server_def q)
  moreover have "queue_ok demo_crates demo_start_env demo_requested = queue_ok demo_crates (demo_env ''cpu'') demo_requested"
    "finished_ok demo_crates demo_start_env demo_EK = finished_ok demo_crates (demo_env ''cpu'') demo_EK"
    by (intro ext; simp add: queue_ok_def finished_ok_def genuine_def requested_def demo_start_key)+
  ultimately have "start demo_crates demo_start_env demo_EK demo_requested (srv_sys (demo_server cs))"
    by (simp add: start_def sys_init_def sys_inv_def table_inv_def)
  then show ?thesis by (rule reach_init)
qed

lemma demo_server_started: "demo_server_reachable (demo_server [])"
proof -
  have q: "queue_db (sys_runner demo_done) = Map.empty" by (simp add: demo_done_def demo_warm_def new_runner_def)
  have "startup demo_crates demo_start_env demo_left_host =
      Ok \<lparr>da_node_socket = ''x'', service_socket = ''x'', http_upstream_allowed = False,
         fresh_runner = sys_runner (srv_sys (demo_server []))\<rparr>"
    by (simp add: startup_def demo_start_key demo_key demo_start_env_def demo_left_host_def demo_host_def load_certs_def
        load_private_key_def try_ext_def try_unit_def demo_env_def demo_server_def q)
  then have "boot demo_crates demo_start_world demo_left_host (\<lambda>_. []) = Ok \<lparr>da_node_socket = ''x'', service_socket = ''x'',
      http_upstream_allowed = False, fresh_runner = sys_runner (srv_sys (demo_server []))\<rparr>"
    by (simp add: boot_def)
  then have "server_init demo_crates demo_start_env demo_left_host (\<lambda>_. []) ''x'' (demo_server [])"
    unfolding server_init_def by (intro exI [of _ demo_start_world] exI conjI) (auto simp: demo_server_def)
  moreover have "left_by (srv_sys (demo_server [])) demo_left_host"
    by (simp add: left_by_def demo_left_host_def demo_server_def new_runner_def q)
  ultimately show ?thesis
    using demo_left_reachable [of "[]"] demo_start_world_ok by (intro reach_init) (auto simp: server_start_def)
qed

lemma demo_server_open: "demo_server_reachable (demo_server [Open])"
proof -
  have al: "alive (demo_server cs)" for cs by (simp add: alive_def demo_server_def)
  have "demo_server_step (demo_server []) (accept_turn (Inr ()) (demo_server []))"
    by (rule server_step.accept [OF al])
  then have "demo_server_step (demo_server []) (demo_server [Handshaking])"
    by (simp add: accept_turn_def demo_server_def)
  moreover have "demo_server_step (demo_server [Handshaking]) (handshake 0 (Inr ()) (demo_server [Handshaking]))"
    by (rule server_step.tls [OF al]) (simp_all add: demo_server_def)
  then have "demo_server_step (demo_server [Handshaking]) (demo_server [Open])"
    by (simp add: handshake_def set_conn_def demo_server_def)
  ultimately show ?thesis
    using demo_server_started reach_step [where step = demo_server_step] by blast
qed

text \<open>The client submits a blob whose proof is stored.\<close>

lemma demo_server_sent:
  "\<exists>V q. demo_server_reachable V \<and> (demo_req ''Bearer t'' ''blob.Submit'', q) \<in> set (sent V)"
proof -
  let ?V = "demo_server [Open]" and ?req = "demo_req ''Bearer t'' ''blob.Submit''" and ?ws = "\<lambda>_ :: nat. demo_start_world"
  have "carries_proof demo_crates demo_net (srv_runner ?V) demo_blob0 demo_encrypted"
    using demo_carries by (simp add: carries_proof_def demo_server_def new_runner_def)
  then have "\<forall>b \<in> set [demo_blob0]. \<exists>eb. carries_proof demo_crates demo_net (srv_runner ?V) b eb" by auto
  moreover have "\<forall>i op. fault (?ws i) op = None" by (simp add: demo_world_def)
  ultimately obtain q where "forwarded (service demo_crates demo_net demo_start_env ?ws demo_start_world (\<lambda>_. Inl ''down'')
      ''x'' (srv_runner ?V) ?req) = Some q"
    using submission_forwarded [where ws = ?ws, OF _ _ demo_net_ok(3) demo_net_simps(14) demo_bearer demo_request] by blast
  then obtain m s where "service_inbound demo_crates demo_net demo_start_env ?ws ''x'' (srv_runner ?V) ?req = (Forward q m, s)"
    by (auto simp: service_halves split: prod.splits received.splits)
  then have "(?req, q) \<in> set (sent (take_request demo_crates demo_net demo_start_env ?ws ''x'' 0 ?req ?V))"
    by (simp add: take_request_def)
  moreover have "demo_server_step ?V (take_request demo_crates demo_net demo_start_env ?ws ''x'' 0 ?req ?V)"
    by (rule server_step.inbound) (simp_all add: alive_def demo_server_def)
  then have "demo_server_reachable (take_request demo_crates demo_net demo_start_env ?ws ''x'' 0 ?req ?V)"
    using demo_server_open reach_step [where step = demo_server_step] by blast
  ultimately show ?thesis by blast
qed

theorem server_sends_only_proofs_witness:
  "\<exists>V q j' ebs. demo_server_reachable V \<and> (demo_req ''Bearer t'' ''blob.Submit'', q) \<in> set (sent V) \<and>
     json_from_slice demo_net (req_body q) = Inr j' \<and> submitted demo_net j' ebs [DStr ''opts''] \<and>
     list_all2 (encrypts demo_crates demo_start_env demo_EK) [demo_blob0] ebs"
proof -
  obtain V q where V: "demo_server_reachable V" "(demo_req ''Bearer t'' ''blob.Submit'', q) \<in> set (sent V)"
    using demo_server_sent by blast
  from server_sends_only_proofs [OF V(1) demo_net_ok(1,2) V(2)] demo_request V show ?thesis by blast
qed



end
