(* ===== verification/Cli.thy ===== *)
theory Cli
  imports Demo
begin

text \<open>
  The command line tool of the zkVM crate (\<open>zkVM/sp1/src/bin/cli.rs\<close>): it runs the guest on an
  example input, either in the executor, checking the output against the input, or in the prover,
  verifying the proof.

  The result is the list of lines written to the standard output, \<open>Err\<close> with the exit status, or a
  panic; the lines written before a panic are not kept.  The example file and the executor's answers (output and cycle count) are parameters;
  \<open>execute_ok\<close> says that the executor runs the guest.  The debug print of the output (\<open>dbg!\<close>) goes to
  the standard error stream and is left out.
\<close>

section \<open>Arguments\<close>

record args =
  arg_execute :: bool
  arg_prove :: bool
  arg_n :: "32 word"

section \<open>The tool\<close>

definition assert_eq :: "'a \<Rightarrow> 'a \<Rightarrow> ('e, unit) res" where
  "assert_eq a b = (if a = b then Ok () else Panic ''assertion `left == right` failed'')"

definition cli_execute ::
  "('p, 'pk, 'vk, 'cl, 'z) crates_scheme \<Rightarrow> (bytes list \<Rightarrow> string + bytes \<times> nat) \<Rightarrow>
     bytes \<Rightarrow> bytes \<Rightarrow> bytes \<Rightarrow> (nat, string list) res" where
  "cli_execute c execute input_bytes input_key input_nonce =
     res_bind (case execute [input_key, input_nonce, input_bytes] of
                 Inl e \<Rightarrow> Panic (''called `Result::unwrap()` on an `Err` value: '' @ e)
               | Inr x \<Rightarrow> Ok x) (\<lambda>(output_buffer, cycles).
     res_bind (case from_bytes output_buffer of
                 Ok out \<Rightarrow> Ok out
               | Err e \<Rightarrow> Panic (''Failed to parse header: '' @ e)
               | Panic p \<Rightarrow> Panic p) (\<lambda>out.
     res_bind (assert_eq input_nonce (zk_nonce out)) (\<lambda>_.
     res_bind (chacha c input_key (zk_nonce out) (ciphertext out)) (\<lambda>output_plaintext.
     res_bind (assert_eq output_plaintext input_bytes) (\<lambda>_.
     res_bind (assert_eq (sha256 c input_key) (privkey_hash out)) (\<lambda>_.
       Ok [''Input -> plaintext hash: 0x'' @ bytes_to_hex (sha256 c input_bytes),
           ''Decryption of zkVM ciphertext matches input!'', ''Key used matched!'',
           ''Number of cycles: '' @ show_nat cycles]))))))"

definition cli_prove ::
  "('p, 'pk, 'vk, 'cl, 'z) crates_scheme \<Rightarrow> ('p, 'pk, 'vk, 'cl) world \<Rightarrow> 'cl \<Rightarrow> bytes list \<Rightarrow>
     (nat, string list) res" where
  "cli_prove c w client stdin =
     (case run_setup w client (chacha_elf c) of
        Inl e \<Rightarrow> Panic e
      | Inr (pk, vk) \<Rightarrow>
          (case run_prove w client pk stdin of
             Inl e \<Rightarrow> Panic ''failed to generate proof''
           | Inr pf \<Rightarrow>
               (case sp1_verify c client pf vk of
                  Some e \<Rightarrow> Panic (''failed to verify proof: '' @ e)
                | None \<Rightarrow> Ok [''Successfully generated proof!'', ''Successfully verified proof!''])))"

definition cli_main ::
  "('p, 'pk, 'vk, 'cl, 'z) crates_scheme \<Rightarrow> ('p, 'pk, 'vk, 'cl) world \<Rightarrow>
     ('cl \<Rightarrow> bytes list \<Rightarrow> string + bytes \<times> nat) \<Rightarrow> bytes \<Rightarrow> args \<Rightarrow> (nat, string list) res" where
  "cli_main c w execute input_bytes args =
     (if arg_execute args = arg_prove args then Err 1
      else
        res_bind (encryption_key c (env_var w)) (\<lambda>input_key.
        res_bind (random_nonce (os_rng w)) (\<lambda>input_nonce.
        res_bind (expect ''ProverClient::from_env'' (client_from_env w)) (\<lambda>client.
          if arg_execute args then cli_execute c (execute client) input_bytes input_key input_nonce
          else cli_prove c w client [input_key, input_nonce, input_bytes]))))"

section \<open>Law of the executor\<close>

definition execute_ok ::
  "'z crypto_scheme \<Rightarrow> ('cl \<Rightarrow> bytes list \<Rightarrow> string + bytes \<times> nat) \<Rightarrow> bool" where
  "execute_ok c execute \<longleftrightarrow>
     (\<forall>cl stdin out. program_main c stdin = Ok out \<longrightarrow> (\<exists>n. execute cl stdin = Inr (out, n)))"

text \<open>An executor for the instance of the theory \<open>Demo\<close>.\<close>

definition demo_execute :: "unit \<Rightarrow> bytes list \<Rightarrow> string + bytes \<times> nat" where
  "demo_execute cl stdin =
     (case program_main demo_base stdin of Ok out \<Rightarrow> Inr (out, 42) | _ \<Rightarrow> Inl ''execution failed'')"

section \<open>Properties\<close>

text \<open>
  C39: with exactly one of the two modes, a valid key and a working random generator and client, the
  executor mode never fails one of its assertions: it reports that decryption of the guest's output
  gives back the input and that the key's hash matches.
\<close>

theorem cli_execute_checks_pass:
  assumes "arg_execute args" and "\<not> arg_prove args" and "execute_ok c execute"
    and "encryption_key c (env_var w) = (Ok key :: (nat, bytes) res)" and "hex_ok c"
    and "os_rng w NONCE_LEN = Some nonce" and "length nonce = NONCE_LEN" and "client_from_env w = Some cl"
    and "sha256_ok c" and "keystream_ok c ks fits" and "fits (length input_bytes)"
  shows "\<exists>n. cli_main c w execute input_bytes args =
    Ok [''Input -> plaintext hash: 0x'' @ bytes_to_hex (sha256 c input_bytes),
        ''Decryption of zkVM ciphertext matches input!'', ''Key used matched!'',
        ''Number of cycles: '' @ show_nat n]"
proof -
  have len: "length key = KEY_LEN" using encryption_key_len [OF assms(5,4)] .
  then obtain out where run: "program_main c [key, nonce, input_bytes] = Ok out"
    using assms(7,11) by (simp add: program_main_three chacha_ok [OF assms(10)])
  then obtain n where ex: "execute cl [key, nonce, input_bytes] = Inr (out, n)"
    using assms(3) unfolding execute_ok_def by blast
  from committed_run [OF run assms(9,10)] obtain o' where o': "from_bytes out = Ok o'"
    "privkey_hash o' = sha256 c key" "zk_nonce o' = nonce"
    "chacha c key (zk_nonce o') (ciphertext o') = (Ok input_bytes :: (nat, bytes) res)"
    by (metis (no_types) chacha_def)
  show ?thesis
    using assms(1,2,4,6,8) ex o'
    by (auto simp: cli_main_def random_nonce_def cli_execute_def assert_eq_def)
qed

text \<open>
  The prover mode reports a verified proof whenever the prover yields one for the embedded
  guest; and without exactly one of the two modes the tool exits with status 1 before it reads the key.
\<close>

lemma cli_prove_verifies:
  assumes "world_ok c E EK RQ w" and "encryption_key c E = (Ok key :: (nat, bytes) res)"
    and "os_rng w NONCE_LEN = Some nonce" and "client_from_env w = Some cl"
    and "run_setup w cl (chacha_elf c) = Inr (pk, vk)"
    and "run_prove w cl pk [key, nonce, input_bytes] = Inr pf"
  shows "cli_main c w execute input_bytes args =
    (if arg_execute args = arg_prove args then Err 1
     else if arg_prove args then Ok [''Successfully generated proof!'', ''Successfully verified proof!'']
     else cli_execute c (execute cl) input_bytes key nonce)"
proof -
  have "EK pk vk" using world_okD(3) [OF assms(1,5)] .
  then have "sp1_verify c cl pf vk = None"
    using world_okD(4) [OF assms(1) _ assms(6)] unfolding proof_ok_def by blast
  with assms(2-6) world_okD(1) [OF assms(1)] show ?thesis
    by (simp add: cli_main_def cli_prove_def random_nonce_def)
qed

section \<open>Witnesses\<close>

theorem cli_execute_checks_pass_witness:
  "\<exists>lines. cli_main demo_crates (demo_world ''cpu'') demo_execute [1, 2, 3]
     \<lparr>arg_execute = True, arg_prove = False, arg_n = 20\<rparr> = Ok lines \<and> lines ! 2 = ''Key used matched!''"
proof -
  let ?args = "\<lparr>arg_execute = True, arg_prove = False, arg_n = 20 :: 32 word\<rparr>"
  have args: "arg_execute ?args" "\<not> arg_prove ?args" by simp_all
  have ex: "execute_ok demo_crates demo_execute"
    by (simp add: execute_ok_def demo_execute_def demo_program_main)
  have key: "encryption_key demo_crates (env_var (demo_world ''cpu'')) = (Ok (replicate KEY_LEN 7) :: (nat, bytes) res)"
    using demo_key by (simp add: demo_world_def)
  have w: "os_rng (demo_world ''cpu'') NONCE_LEN = Some (replicate NONCE_LEN 9)"
    "length (replicate NONCE_LEN (9 :: byte)) = NONCE_LEN" "client_from_env (demo_world ''cpu'') = Some ()"
    by (simp_all add: demo_world_def)
  from cli_execute_checks_pass [OF args ex key demo_hex w demo_crypto_laws, of "[1, 2, 3]"]
  show ?thesis by auto
qed

end
