(* ===== verification/Tx_Config.thy ===== *)
theory Tx_Config
  imports Prelude
begin

text \<open>
  The transaction options of a submission (\<open>service/src/rpc/tx_config.rs\<close>): the builder methods, the
  hand-written \<open>Serialize\<close> and the derived \<open>Deserialize\<close>.  The module is kept in the repository beside
  the service and is not compiled into it.

  Addresses and floating point numbers are opaque types.  A serialised struct is the list of its
  fields in order; the derived \<open>Deserialize\<close> takes each known field if it is present and not null,
  ignores the others and fails on a field of the wrong type or given twice.
\<close>

section \<open>Data\<close>

record ('addr, 'f64) tx_config =
  signer_address :: "'addr option"
  key_name :: "string option"
  gas_price :: "'f64 option"
  gas :: "64 word option"
  fee_granter_address :: "'addr option"

definition tx_default :: "('addr, 'f64) tx_config" where
  "tx_default =
     \<lparr>signer_address = None, key_name = None, gas_price = None, gas = None, fee_granter_address = None\<rparr>"

section \<open>Builder\<close>

definition with_gas_price :: "('addr, 'f64) tx_config \<Rightarrow> 'f64 \<Rightarrow> ('addr, 'f64) tx_config" where
  "with_gas_price cfg x = cfg\<lparr>gas_price := Some x\<rparr>"

definition with_gas :: "('addr, 'f64) tx_config \<Rightarrow> 64 word \<Rightarrow> ('addr, 'f64) tx_config" where
  "with_gas cfg x = cfg\<lparr>gas := Some x\<rparr>"

definition with_fee_granter_address :: "('addr, 'f64) tx_config \<Rightarrow> 'addr \<Rightarrow> ('addr, 'f64) tx_config" where
  "with_fee_granter_address cfg x = cfg\<lparr>fee_granter_address := Some x\<rparr>"

definition with_signer_address :: "('addr, 'f64) tx_config \<Rightarrow> 'addr \<Rightarrow> ('addr, 'f64) tx_config" where
  "with_signer_address cfg x = cfg\<lparr>signer_address := Some x\<rparr>"

definition with_key_name :: "('addr, 'f64) tx_config \<Rightarrow> string \<Rightarrow> ('addr, 'f64) tx_config" where
  "with_key_name cfg x = cfg\<lparr>key_name := Some x\<rparr>"

section \<open>Serialisation\<close>

datatype ('addr, 'f64) tx_value =
  VAddr 'addr
| VStr string
| VF64 'f64
| VU64 "64 word"
| VBool bool
| VNull

definition opt_field :: "string \<Rightarrow> ('a \<Rightarrow> 'v) \<Rightarrow> 'a option \<Rightarrow> (string \<times> 'v) list" where
  "opt_field name f x = (case x of None \<Rightarrow> [] | Some a \<Rightarrow> [(name, f a)])"

definition tx_serialize :: "('addr, 'f64) tx_config \<Rightarrow> (string \<times> ('addr, 'f64) tx_value) list" where
  "tx_serialize cfg =
     opt_field ''signer_address'' VAddr (signer_address cfg) @
     opt_field ''key_name'' VStr (key_name cfg) @
     (case gas_price cfg of
        None \<Rightarrow> []
      | Some x \<Rightarrow> [(''gas_price'', VF64 x), (''is_gas_price_set'', VBool True)]) @
     opt_field ''gas'' VU64 (gas cfg) @
     opt_field ''fee_granter_address'' VAddr (fee_granter_address cfg)"

fun as_addr :: "('addr, 'f64) tx_value \<Rightarrow> 'addr option" where
  "as_addr (VAddr a) = Some a" | "as_addr _ = None"

fun as_text :: "('addr, 'f64) tx_value \<Rightarrow> string option" where
  "as_text (VStr a) = Some a" | "as_text _ = None"

text \<open>An integer is accepted where a floating point number is expected, after conversion (\<open>as f64\<close>).\<close>

fun as_f64 :: "(64 word \<Rightarrow> 'f64) \<Rightarrow> ('addr, 'f64) tx_value \<Rightarrow> 'f64 option" where
  "as_f64 conv (VF64 a) = Some a" | "as_f64 conv (VU64 a) = Some (conv a)" | "as_f64 conv _ = None"

fun as_u64 :: "('addr, 'f64) tx_value \<Rightarrow> 64 word option" where
  "as_u64 (VU64 a) = Some a" | "as_u64 _ = None"

text \<open>
  A field of type \<open>Option\<close>: missing or null is \<open>None\<close>; twice or of the wrong type is an error.  An error
  is the outer \<open>None\<close>.
\<close>

definition de_field ::
  "string \<Rightarrow> (('addr, 'f64) tx_value \<Rightarrow> 'a option) \<Rightarrow> (string \<times> ('addr, 'f64) tx_value) list \<Rightarrow>
     'a option option" where
  "de_field name f fs =
     (case filter (\<lambda>(k, v). k = name) fs of
        [] \<Rightarrow> Some None
      | [(k, VNull)] \<Rightarrow> Some None
      | [(k, v)] \<Rightarrow> map_option Some (f v)
      | _ \<Rightarrow> None)"

definition tx_deserialize ::
  "(64 word \<Rightarrow> 'f64) \<Rightarrow> (string \<times> ('addr, 'f64) tx_value) list \<Rightarrow> ('addr, 'f64) tx_config option" where
  "tx_deserialize conv fs =
     Option.bind (de_field ''signer_address'' as_addr fs) (\<lambda>a.
     Option.bind (de_field ''key_name'' as_text fs) (\<lambda>k.
     Option.bind (de_field ''gas_price'' (as_f64 conv) fs) (\<lambda>p.
     Option.bind (de_field ''gas'' as_u64 fs) (\<lambda>g.
     Option.bind (de_field ''fee_granter_address'' as_addr fs) (\<lambda>f.
       Some \<lparr>signer_address = a, key_name = k, gas_price = p, gas = g, fee_granter_address = f\<rparr>)))))"

section \<open>Properties\<close>

lemma filter_opt_field [simp]:
  "filter (\<lambda>(k, v). k = name) (opt_field name' f x) = (if name' = name then opt_field name' f x else [])"
  by (simp add: opt_field_def split: option.split)

text \<open>
  C40: options survive serialisation: the derived \<open>Deserialize\<close> reads back exactly the options the
  hand-written \<open>Serialize\<close> wrote, although the latter writes a field of its own; that field,
  \<open>is_gas_price_set\<close>, is written exactly when a gas price is set, and no field is written twice.
\<close>

theorem tx_config_roundtrip:
  "tx_deserialize conv (tx_serialize cfg) = Some cfg \<and>
   (''is_gas_price_set'', VBool True) \<in> set (tx_serialize cfg) = (gas_price cfg \<noteq> None) \<and>
   distinct (map fst (tx_serialize cfg))"
proof -
  have "tx_deserialize conv (tx_serialize cfg) = Some cfg"
    by (cases cfg; cases "signer_address cfg"; cases "key_name cfg"; cases "gas_price cfg"; cases "gas cfg";
        cases "fee_granter_address cfg")
      (simp_all add: tx_deserialize_def tx_serialize_def de_field_def opt_field_def)
  moreover have "(''is_gas_price_set'', VBool True) \<in> set (tx_serialize cfg) = (gas_price cfg \<noteq> None)"
    by (cases "gas_price cfg") (auto simp: tx_serialize_def opt_field_def split: option.splits)
  moreover have "distinct (map fst (tx_serialize cfg))"
    by (cases "signer_address cfg"; cases "key_name cfg"; cases "gas_price cfg"; cases "gas cfg";
        cases "fee_granter_address cfg")
      (simp_all add: tx_serialize_def opt_field_def)
  ultimately show ?thesis by blast
qed

end
