(* ===== verification/Rpc.thy ===== *)
theory Rpc
  imports Tx_Config Proxy
begin

text \<open>
  The RPC interface of a node (\<open>service/src/rpc/blob.rs\<close>, \<open>service/src/rpc/state.rs\<close>): the calls of the
  two traits with their method names, and the server the repository holds for each, whose methods are
  \<open>todo!()\<close> and \<open>unimplemented!()\<close>.  Like \<open>Tx_Config\<close>, the modules are not compiled into the service.

  The types of \<open>celestia_types\<close> are type parameters.  A panic carries the text the macro gives it.
\<close>

section \<open>Blobs\<close>

text \<open>The item of the subscription; its derived serialisation renames the fields.\<close>

record 'blob blobs_at_height =
  bah_blobs :: "'blob list option"
  bah_height :: "64 word"

datatype 'blob bah_value = BNull | BBlobs "'blob list" | BHeight "64 word"

definition bah_serialize :: "'blob blobs_at_height \<Rightarrow> (string \<times> 'blob bah_value) list" where
  "bah_serialize x =
     [(''Blobs'', case bah_blobs x of None \<Rightarrow> BNull | Some bs \<Rightarrow> BBlobs bs), (''Height'', BHeight (bah_height x))]"

text \<open>
  The derived \<open>Deserialize\<close>: unknown fields are ignored, a field given twice or of another type is an
  error, \<open>Blobs\<close> may be missing or null, \<open>Height\<close> must be there.
\<close>

definition bah_deserialize :: "(string \<times> 'blob bah_value) list \<Rightarrow> 'blob blobs_at_height option" where
  "bah_deserialize fs =
     Option.bind (case filter (\<lambda>(k, v). k = ''Blobs'') fs of
                    [] \<Rightarrow> Some None
                  | [(k, BNull)] \<Rightarrow> Some None
                  | [(k, BBlobs bs)] \<Rightarrow> Some (Some bs)
                  | _ \<Rightarrow> None) (\<lambda>bs.
     Option.bind (case filter (\<lambda>(k, v). k = ''Height'') fs of [(k, BHeight h)] \<Rightarrow> Some h | _ \<Rightarrow> None) (\<lambda>h.
       Some \<lparr>bah_blobs = bs, bah_height = h\<rparr>))"

datatype ('ns, 'com, 'prf, 'blob, 'addr, 'f64) blob_call =
  BlobGet "64 word" 'ns 'com
| BlobGetAll "64 word" "'ns list"
| BlobGetProof "64 word" 'ns 'com
| BlobIncluded "64 word" 'ns 'prf 'com
| BlobSubmit "'blob list" "('addr, 'f64) tx_config"
| BlobSubscribe 'ns

fun blob_method :: "('ns, 'com, 'prf, 'blob, 'addr, 'f64) blob_call \<Rightarrow> string" where
  "blob_method (BlobGet height ns com) = ''blob.Get''"
| "blob_method (BlobGetAll height nss) = ''blob.GetAll''"
| "blob_method (BlobGetProof height ns com) = ''blob.GetProof''"
| "blob_method (BlobIncluded height ns prf com) = ''blob.Included''"
| "blob_method (BlobSubmit blobs opts) = ''blob.Submit''"
| "blob_method (BlobSubscribe ns) = ''blob.Subscribe''"

text \<open>The names the trait registers, the one for ending a subscription included.\<close>

definition blob_names :: "string list" where
  "blob_names = [''blob.Get'', ''blob.GetAll'', ''blob.GetProof'', ''blob.Included'', ''blob.Submit'',
     ''blob.Subscribe'', ''blob.Unsubscribe'']"

definition todo :: "('e, 'a) res" where "todo = Panic ''not yet implemented''"

definition unimplemented :: "('e, 'a) res" where "unimplemented = Panic ''not implemented''"

fun blob_server :: "('ns, 'com, 'prf, 'blob, 'addr, 'f64) blob_call \<Rightarrow> ('e, 'reply) res" where
  "blob_server (BlobSubmit blobs opts) = todo"
| "blob_server (BlobGet height ns com) = todo"
| "blob_server (BlobGetAll height nss) = unimplemented"
| "blob_server (BlobGetProof height ns com) = unimplemented"
| "blob_server (BlobIncluded height ns prf com) = unimplemented"
| "blob_server (BlobSubscribe ns) = unimplemented"

section \<open>State\<close>

datatype ('address, 'acc, 'val, 'uint, 'raw, 'f64) state_call =
  StateAccountAddress
| StateBalance
| StateBalanceForAddress 'address
| StateBeginRedelegate 'val 'val 'uint "('acc, 'f64) tx_config"
| StateCancelUnbondingDelegation 'val 'uint 'uint "('acc, 'f64) tx_config"
| StateDelegate 'val 'uint "('acc, 'f64) tx_config"
| StateIsStopped
| StateQueryDelegation 'val
| StateQueryRedelegations 'val 'val
| StateQueryUnbonding 'val
| StateSubmitPayForBlob "'raw list" "('acc, 'f64) tx_config"
| StateTransfer 'acc 'uint "('acc, 'f64) tx_config"
| StateUndelegate 'val 'uint "('acc, 'f64) tx_config"

fun state_method :: "('address, 'acc, 'val, 'uint, 'raw, 'f64) state_call \<Rightarrow> string" where
  "state_method StateAccountAddress = ''state.AccountAddress''"
| "state_method StateBalance = ''state.Balance''"
| "state_method (StateBalanceForAddress addr) = ''state.BalanceForAddress''"
| "state_method (StateBeginRedelegate src dest amount config) = ''state.BeginRedelegate''"
| "state_method (StateCancelUnbondingDelegation addr amount height config) = ''state.CancelUnbondingDelegation''"
| "state_method (StateDelegate addr amount config) = ''state.Delegate''"
| "state_method StateIsStopped = ''state.IsStopped''"
| "state_method (StateQueryDelegation addr) = ''state.QueryDelegation''"
| "state_method (StateQueryRedelegations src dest) = ''state.QueryRedelegations''"
| "state_method (StateQueryUnbonding addr) = ''state.QueryUnbonding''"
| "state_method (StateSubmitPayForBlob blobs config) = ''state.SubmitPayForBlob''"
| "state_method (StateTransfer recipient amount config) = ''state.Transfer''"
| "state_method (StateUndelegate addr amount config) = ''Undelegate''"

definition state_names :: "string list" where
  "state_names = [''state.AccountAddress'', ''state.Balance'', ''state.BalanceForAddress'', ''state.BeginRedelegate'',
     ''state.CancelUnbondingDelegation'', ''state.Delegate'', ''state.IsStopped'', ''state.QueryDelegation'',
     ''state.QueryRedelegations'', ''state.QueryUnbonding'', ''state.SubmitPayForBlob'', ''state.Transfer'',
     ''Undelegate'']"

fun state_server :: "('address, 'acc, 'val, 'uint, 'raw, 'f64) state_call \<Rightarrow> ('e, 'reply) res" where
  "state_server (StateSubmitPayForBlob blobs config) = todo"
| "state_server _ = unimplemented"

section \<open>Properties\<close>

lemma blobs_at_height_roundtrip: "bah_deserialize (bah_serialize x) = Some x"
  by (cases x; cases "bah_blobs x") (simp_all add: bah_deserialize_def bah_serialize_def)

text \<open>
  The two interfaces can be registered together, no method name is used twice; every call has a
  registered name; the methods the proxy intercepts are methods of the blob interface; of the names of
  the state interface only \<open>Undelegate\<close> lacks the prefix of its module; and the servers in the
  repository answer no call, each panics.
\<close>

lemma rpc_interface:
  "distinct (blob_names @ state_names) \<and> blob_method bc \<in> set blob_names \<and> state_method sc \<in> set state_names \<and>
   {''blob.Submit'', ''blob.Get'', ''blob.GetAll''} \<subseteq> set blob_names \<and>
   filter (\<lambda>m. \<not> starts_with ''state.'' m) state_names = [''Undelegate''] \<and>
   is_panic (blob_server bc) \<and> is_panic (state_server sc)"
proof -
  have "distinct (blob_names @ state_names)" by (simp add: blob_names_def state_names_def)
  moreover have "blob_method bc \<in> set blob_names" "is_panic (blob_server bc)"
    by (cases bc; simp add: blob_names_def todo_def unimplemented_def)+
  moreover have "state_method sc \<in> set state_names" "is_panic (state_server sc)"
    by (cases sc; simp add: state_names_def todo_def unimplemented_def)+
  moreover have "filter (\<lambda>m. \<not> starts_with ''state.'' m) state_names = [''Undelegate'']"
    by (simp add: state_names_def starts_with_def)
  ultimately show ?thesis by (simp add: blob_names_def)
qed

end
