(* ===== verification/Spec2Isabelle.thy ===== *)
theory Spec2Isabelle
  imports Server Cli Rpc
begin

text \<open>
  A verification of \<open>pda-proxy\<close>, a proxy in front of a Celestia node that replaces the blobs of a
  submission by proofs of their encryption, and decrypts them again on the way back.

  \<^bold>\<open>The program.\<close>  A client sends a JSON-RPC call over HTTPS (\<open>service/src/main.rs\<close>).  For
  \<open>blob.Submit\<close> the proxy asks the runner (\<open>service/src/internal/runner.rs\<close>) for a proof of the
  encryption of each blob.  The runner keeps its jobs in two trees of a database, the queue and the
  finished jobs, and sends new ones over a channel to a worker, which spawns a task for each; the task
  has a local or a remote SP1 prover run the guest program (\<open>zkVM/sp1/program-chacha\<close>), which encrypts
  the blob and commits the hashes, the nonce and the ciphertext.  While a proof is missing the client
  gets 202 and calls again; then the call is forwarded with the serialised proofs as blobs.  For
  \<open>blob.Get\<close> and \<open>blob.GetAll\<close> the proxy verifies the proofs in the node's answer and decrypts their
  outputs (\<open>zkVM/common\<close>).  All other calls pass through.

  \<^bold>\<open>Theories, in order of import, and the sources they model.\<close>

  \<^item> \<open>Prelude\<close>: results (\<open>Ok\<close>, \<open>Err\<close>, \<open>Panic\<close>), slices, texts; \<open>Transition\<close>: reachability,
    invariants and simulation as locales; \<open>Interleaving\<close>: threads made of atomic sections, and the
    locale \<open>thread_pool\<close> for invariants of their interleavings.
  \<^item> \<open>Zkvm_Common\<close> (\<open>zkVM/common/src/lib.rs\<close>) and \<open>Chacha_Program\<close> (the guest): cipher, layout of
    the public values and its parser, the guest with every panic.  The guest output is exactly the
    documented layout, parses, and decrypts to the plaintext; the parser stays within bounds.
  \<^item> \<open>Job\<close>, \<open>Crates\<close>, \<open>Job_Store\<close>, \<open>Runner\<close> (\<open>job.rs\<close>, \<open>error.rs\<close>, \<open>util.rs\<close>, \<open>runner.rs\<close>): the
    record \<open>pda_runner\<close> with the trees, the channel and the cells, and one definition for each method.
  \<^item> \<open>Runner_Effect\<close>: what each operation does to the state, on every branch; \<open>Runner_System\<close>: the
    transition system of requests, worker loop, tasks, warm-up, verification and shutdown, its
    invariants, and the abstract life cycle of a job; \<open>Runner_Live\<close>: runs that complete a job.
  \<^item> \<open>Runner_Properties\<close>: genuine answers, safe trees, one schedule per job, refinement of the life
    cycle, completion, termination of the work on a job, errors, restart.
  \<^item> \<open>Runner_Threads\<close>, \<open>Runner_Race\<close>: the same operations cut into single database accesses and the
    system of their interleavings.  Run alone a thread is its operation, and every run of whole
    operations is an interleaving; answers stay genuine in all interleavings, while uniqueness of
    schedules and separation of the trees do not survive.
  \<^item> \<open>Proxy\<close>, \<open>Proxy_Properties\<close> (\<open>main.rs\<close>, the handlers): one HTTP request, with every error answer.
    \<open>Proxy_System\<close>: the handling of a request as a run of the runner, and the protocol of a submission.
  \<^item> \<open>Startup\<close> (\<open>main.rs\<close> up to the accept loop, the file helpers of \<open>util.rs\<close>) and \<open>Server\<close> (accept
    loop, connections, signals): the whole process as a transition system over the runner's.
  \<^item> \<open>Cli\<close> (\<open>zkVM/sp1/src/bin/cli.rs\<close>), \<open>Tx_Config\<close> and \<open>Rpc\<close> (\<open>service/src/rpc\<close>).
  \<^item> \<open>Demo\<close>, \<open>Demo_Runs\<close>, \<open>Demo_Net\<close>: concrete crates, environments, runs and messages that satisfy all
    laws; the witnesses of the properties are evaluated on them.

  \<^bold>\<open>Parameters.\<close>  Code that is not in the repository is a field of a record that the definitions take:
  \<open>crates\<close> (SHA-256, the key stream, \<open>hex\<close>, \<open>bincode\<close>, verification of SP1 proofs, texts of errors),
  \<open>world\<close> (environment variables, faults of the database, random numbers, provers; each call may meet
  another one), \<open>net\<close> (JSON, blobs, header texts, URIs) and \<open>host\<close> (files, sockets, PEM and TLS at
  start-up).  Their documented behaviour is stated as named laws: \<open>bincode_ok\<close>, \<open>hex_ok\<close>, \<open>sha256_ok\<close>,
  \<open>keystream_ok\<close>, \<open>net_ok\<close> and \<open>blob_ok\<close> (what was written is read back, lengths), \<open>verify_ok\<close> (a
  proof that verifies stems from a run of the guest), \<open>world_ok\<close> (provers that yield a proof yield one
  of the run asked for).  \<open>bincode_total\<close>, \<open>net_total\<close>, \<open>world_up\<close> and \<open>laws_up\<close> say in addition
  that calls succeed; only claims that something is answered or completed rest on them.  Verification
  keys are related to proving keys by \<open>EK\<close>, identifiers of remote requests to their inputs by \<open>RQ\<close>.

  \<^bold>\<open>Granularity.\<close>  In \<open>Runner_System\<close> and \<open>Proxy_System\<close> a step is one call of a method; in
  \<open>Runner_Race\<close> it is one access to a tree, a transaction, a send, or the initialisation of a cell; in
  \<open>Server\<close> a request is cut where it waits for the node.  Recursion in the model is structural or
  terminates by a proved measure; fuel occurs in the decoders of the \<open>Demo\<close> theories alone and is the
  number of bytes to decode, which is enough as each constructor takes at least one.

  \<^bold>\<open>Not modelled.\<close>  The inside of the network, TLS and HTTP libraries: handshakes, connections and
  signals are events with a result.  Logging, apart from the texts that are also stored or returned.
  Lines the command line tool prints before a panic.  Time: a time-out is an error some prover returns.
  \<open>zkVM/sp1/src/bin/vkey.rs\<close> and the build scripts, which only call the SDK and print its result.
  Interleavings within one request of the proxy, between the calls for its blobs, are those of the
  runner's steps; the handlers themselves share no other state.
\<close>

section \<open>End to end\<close>

lemma service_get:
  assumes "uri_parse n (upstream_uri n env sock (req_uri req)) = Some uri" and "auth_ok n (req_headers req)"
    and "rpc_body n req = Some j" and "rpc_method n j = Some ''blob.Get''" and "net_total n"
    and "\<And>r. up r = Inr resp" and "outbound_handler c n w s resp ''blob.Get'' = (Ok resp', s')"
  shows "out_response (service c n env ws w up sock s req) = Ok resp'"
proof -
  obtain jb where "json_to_vec n j = Inr jb" using assms(5) unfolding net_total_def by blast
  with assms show ?thesis
    by (auto simp: service_def inbound_handler_def rpc_body_def rpc_method_def split: sum.splits)
qed

text \<open>
  C1: submit and get round trip.  When the proxy forwards a submission, the node stores the forwarded
  blobs, and the answer of the node to a later \<open>blob.Get\<close> is one of them, then the client gets back a
  blob with the namespace it submitted and data with the hash of the data it submitted; the same data,
  when no other data has that hash.
\<close>

theorem submit_get_roundtrip:
  assumes "reachable c E EK RQ S" and "net_ok n" and "blob_ok n" and "net_total n"
    and "rpc_body n sub = Some j" and "rpc_method n j = Some ''blob.Submit''" and "submitted n j bs rest"
    and "forwarded (service c n env ws w0 up0 sock (sys_runner S) sub) = Some r"
    and "json_from_slice n (req_body r) = Inr j'" and "submitted n j' ebs rest"
    and "world_up c RQ w" and "laws_up c ks fits" and "world_ok c E EK RQ w" and "sha256_ok c"
    and "reachable c E EK RQ T"
    and "uri_parse n (upstream_uri n env sock (req_uri get)) = Some uri" and "auth_ok n (req_headers get)"
    and "rpc_body n get = Some jg" and "rpc_method n jg = Some ''blob.Get''"
    and "\<forall>q. up q = Inr resp" and "resp_body resp = Inr bb" and "resp_status resp \<noteq> 401"
    and "json_from_slice n bb = Inr jr" and "json_get n jr ''result'' = Some rv"
    and "i < length bs" and "blob_from_value n rv = Inr (ebs ! i)"
  shows "\<exists>resp' jr' rv' pb. out_response (service c n env ws' w up sock (sys_runner T) get) = Ok resp' \<and>
    json_from_slice n (resp_body resp') = Inr jr' \<and> json_get n jr' ''result'' = Some rv' \<and>
    blob_from_value n rv' = Inr pb \<and> blob_namespace pb = blob_namespace (bs ! i) \<and>
    sha256 c (blob_data pb) = sha256 c (blob_data (bs ! i)) \<and>
    ((\<forall>d. sha256 c d = sha256 c (blob_data (bs ! i)) \<longrightarrow> d = blob_data (bs ! i)) \<longrightarrow>
       blob_data pb = blob_data (bs ! i))"
proof -
  obtain j2 ebs2 where "json_from_slice n (req_body r) = Inr j2" "submitted n j2 ebs2 rest"
    and all: "list_all2 (encrypts c E EK) bs ebs2"
    using forwarded_submission [OF assms(1-3,5-8)] by blast
  with assms(9,10) have "ebs2 = ebs" by (auto simp: submitted_def)
  with all assms(25) have enc: "encrypts c E EK (bs ! i) (ebs ! i)"
    by (simp add: list_all2_conv_all_nth)
  have inv: "setup_inv c EK (sys_runner T)" using reachable_parts(2) [OF assms(15)] .
  from get_decrypts [OF assms(11-14) inv assms(2,4,21-24,26) enc]
  obtain resp' s' jr' rv' pt where out: "outbound_handler c n w (sys_runner T) resp ''blob.Get'' = (Ok resp', s')"
    and res: "json_from_slice n (resp_body resp') = Inr jr'" "json_get n jr' ''result'' = Some rv'"
      "blob_from_value n rv' = Inr ((ebs ! i)\<lparr>blob_data := pt\<rparr>)"
      "blob_namespace ((ebs ! i)\<lparr>blob_data := pt\<rparr>) = blob_namespace (bs ! i)"
      "sha256 c pt = sha256 c (blob_data (bs ! i))" by blast
  have "out_response (service c n env ws' w up sock (sys_runner T) get) = Ok resp'"
    using service_get [OF assms(16-19,4) _ out] assms(20) by blast
  with res show ?thesis by (intro exI [of _ resp'] exI [of _ jr'] exI [of _ rv'] exI) auto
qed

section \<open>Witnesses\<close>

lemma demo_forwarded_body:
  assumes "forwarded (demo_service (\<lambda>_. Inl ''down'') demo_done (demo_req ''Bearer t'' ''blob.Submit'')) = Some r"
  shows "\<exists>j' ebs. json_from_slice demo_net (req_body r) = Inr j' \<and> submitted demo_net j' ebs [DStr ''opts''] \<and>
    ebs ! 0 = demo_encrypted"
proof -
  let ?j = "dj_set (demo_call ''blob.Submit'') ''params'' (dj_array [dj_array [dj_blob demo_encrypted], DStr ''opts''])"
  have "intercept_submit demo_crates demo_net (\<lambda>_. demo_world ''cpu'') (sys_runner demo_done) (demo_call ''blob.Submit'') =
      (Ok (Some ?j), sys_runner demo_done)"
    by (simp add: intercept_submit_def demo_rpc demo_encrypt_blobs
        del: encrypt_blobs.simps dj_blob.simps dj_as_blob.simps)
  with assms have "req_body r = enc_dj ?j"
    using demo_bearer [of "''blob.Submit''"]
    by (auto simp: service_def inbound_handler_def demo_req_def demo_rpc simp del: dj_blob.simps enc_dj.simps dj_array.simps)
  moreover have "dj_get ?j ''params'' = Some (dj_array [dj_array [dj_blob demo_encrypted], DStr ''opts''])"
    using demo_rpc(2) by (intro dj_get_set) simp
  ultimately show ?thesis
    by (intro exI [of _ ?j] exI [of _ "[demo_encrypted]"])
      (simp add: submitted_def del: dj_blob.simps dj_as_blob.simps dj_array.simps enc_dj.simps)
qed

theorem submit_get_roundtrip_witness:
  "\<exists>resp' jr' rv' pb.
     out_response (demo_service (\<lambda>_. Inr (demo_resp (dj_blob demo_encrypted))) demo_done
       (demo_req ''Bearer t'' ''blob.Get'')) = Ok resp' \<and>
     json_from_slice demo_net (resp_body resp') = Inr jr' \<and> json_get demo_net jr' ''result'' = Some rv' \<and>
     blob_from_value demo_net rv' = Inr pb \<and> demo_sha256 (blob_data pb) = demo_sha256 demo_data"
proof -
  let ?up = "\<lambda>_ :: (unit, bytes) http_request. Inr (demo_resp (dj_blob demo_encrypted)) :: string + (string + bytes) http_response"
  obtain r where
    r: "forwarded (demo_service (\<lambda>_. Inl ''down'') demo_done (demo_req ''Bearer t'' ''blob.Submit'')) = Some r"
    using demo_forwards by blast
  obtain j' ebs where j': "json_from_slice demo_net (req_body r) = Inr j'" "submitted demo_net j' ebs [DStr ''opts'']"
    and e0: "ebs ! 0 = demo_encrypted"
    using demo_forwarded_body [OF r] by blast
  have up: "\<forall>q. ?up q = Inr (demo_resp (dj_blob demo_encrypted))" by simp
  have v: "0 < length [demo_blob0]" "blob_from_value demo_net (dj_blob demo_encrypted) = Inr (ebs ! 0)"
    by (simp_all add: e0 del: dj_blob.simps dj_as_blob.simps)
  from submit_get_roundtrip [OF demo_done_reachable demo_net_ok(1-3) demo_request r j' demo_world_up demo_laws_up
      demo_world_ok demo_crypto_laws(1) demo_done_reachable demo_net_simps(14) demo_bearer demo_request(1,2)
      up demo_result v, where ws' = "\<lambda>_. demo_world ''cpu''"]
  obtain resp' jr' rv' pb where
    "out_response (demo_service ?up demo_done (demo_req ''Bearer t'' ''blob.Get'')) = Ok resp'"
    "json_from_slice demo_net (resp_body resp') = Inr jr'" "json_get demo_net jr' ''result'' = Some rv'"
    "blob_from_value demo_net rv' = Inr pb" "sha256 demo_crates (blob_data pb) = sha256 demo_crates (blob_data ([demo_blob0] ! 0))"
    by blast
  then show ?thesis by (intro exI conjI) (assumption | simp add: demo_blob0_def)+
qed

end
